(* ===== verification/Prelude.thy ===== *)
theory Prelude
  imports Main "HOL-Library.Word" "HOL-Library.Monad_Syntax"
begin

text \<open>
  What the components share: the machine types of the 32-bit ARM target the repository is
  configured for (include/generated/autoconf.h: no 64-bit dma_addr_t, HZ = 100), the errno
  values, little and big endian byte strings, and generic lemmas on words and lists.

  Conventions of the whole development. Unsigned C types are words (\<open>+\<close> wraps as in C). A C
  int is a HOL int where the guards of the source keep it in range. A kernel crash (BUG_ON, a
  NULL dereference, an index outside an array) is the value None of an option; errors that
  the code returns are negative ints, as in the code.
\<close>

unbundle bit_operations_syntax

type_synonym u8 = "8 word"
type_synonym u16 = "16 word"
type_synonym u32 = "32 word"
type_synonym u64 = "64 word"
type_synonym dma_addr = "32 word"

named_theorems nvme_defs

section \<open>Error numbers (include/uapi/asm-generic/errno-base.h, errno.h)\<close>

abbreviation EINTR :: int where "EINTR \<equiv> 4"
abbreviation EIO :: int where "EIO \<equiv> 5"
abbreviation ENXIO :: int where "ENXIO \<equiv> 6"
abbreviation EAGAIN :: int where "EAGAIN \<equiv> 11"
abbreviation ENOMEM :: int where "ENOMEM \<equiv> 12"
abbreviation EACCES :: int where "EACCES \<equiv> 13"
abbreviation EFAULT :: int where "EFAULT \<equiv> 14"
abbreviation ENODEV :: int where "ENODEV \<equiv> 19"
abbreviation EINVAL :: int where "EINVAL \<equiv> 22"
abbreviation ENOTTY :: int where "ENOTTY \<equiv> 25"
abbreviation ENOSPC :: int where "ENOSPC \<equiv> 28"
abbreviation ESPIPE :: int where "ESPIPE \<equiv> 29"
abbreviation EMSGSIZE :: int where "EMSGSIZE \<equiv> 90"

abbreviation PAGE_SIZE :: nat where "PAGE_SIZE \<equiv> 4096"
abbreviation INT_MAX :: nat where "INT_MAX \<equiv> 2147483647"

section \<open>Byte strings\<close>

text \<open>
  The bytes of a word in memory order: \<open>le_bytes\<close> as cpu_to_le16/32/64 store it,
  \<open>be_bytes\<close> as cpu_to_be16/32/64 do.
\<close>

definition le_bytes :: "nat \<Rightarrow> 'a::len word \<Rightarrow> u8 list" where
  "le_bytes n w = map (\<lambda>i. ucast (drop_bit (8 * i) w)) [0..<n]"

definition be_bytes :: "nat \<Rightarrow> 'a::len word \<Rightarrow> u8 list" where
  "be_bytes n w = rev (le_bytes n w)"

fun of_le_bytes :: "u8 list \<Rightarrow> 'a::len word" where
  "of_le_bytes [] = 0"
| "of_le_bytes (b # bs) = ucast b OR push_bit 8 (of_le_bytes bs)"

lemma length_le_bytes [simp]: "length (le_bytes n w) = n"
  by (simp add: le_bytes_def)

lemma length_be_bytes [simp]: "length (be_bytes n w) = n"
  by (simp add: be_bytes_def)

lemma le_bytes_Suc: "le_bytes (Suc n) w = ucast w # le_bytes n (drop_bit 8 w)"
proof -
  have "le_bytes (Suc n) w = map (\<lambda>i. ucast (drop_bit (8 * i) w)) (0 # map Suc [0..<n])"
    by (simp add: le_bytes_def upt_conv_Cons map_Suc_upt del: upt_Suc)
  also have "\<dots> = ucast w # le_bytes n (drop_bit 8 w)"
    by (simp add: le_bytes_def add.commute)
  finally show ?thesis .
qed

lemma of_le_bytes_le_bytes:
  "of_le_bytes (le_bytes n (w :: 'a::len word)) = take_bit (8 * n) w"
proof (induction n arbitrary: w)
  case 0
  then show ?case by (simp add: le_bytes_def)
next
  case (Suc n)
  show ?case
    by (rule bit_word_eqI)
      (auto simp: le_bytes_Suc Suc.IH bit_simps not_less)
qed

lemma of_le_bytes_full:
  "LENGTH('a) \<le> 8 * n \<Longrightarrow> of_le_bytes (le_bytes n (w :: 'a::len word)) = w"
  by (simp add: of_le_bytes_le_bytes take_bit_word_eq_self)

section \<open>Lists\<close>

lemma take_drop_append_exact:
  "length xs = n \<Longrightarrow> take n (xs @ ys) = xs" "length xs = n \<Longrightarrow> drop n (xs @ ys) = ys"
  by simp_all

lemma nth_map_upt0: "i < n \<Longrightarrow> map f [0..<n] ! i = f i"
  by simp

text \<open>An array slot written by index: inside the array an update, at its end an append.\<close>

definition put_at :: "'a list \<Rightarrow> nat \<Rightarrow> 'a \<Rightarrow> 'a list" where
  "put_at xs k x = (if k = length xs then xs @ [x] else xs[k := x])"

lemma put_at_append: "put_at xs (length xs) x = xs @ [x]"
  by (simp add: put_at_def)

section \<open>Words\<close>

lemma ucast_dma_u64 [simp]: "ucast (ucast (d :: dma_addr) :: u64) = d"
  by (rule bit_word_eqI) (simp add: bit_simps)

lemma ucast_u64_dma: "(a :: u64) < 2 ^ 32 \<Longrightarrow> ucast (ucast a :: dma_addr) = a"
  by (rule word_unat_eq_iff [THEN iffD2])
    (simp add: unsigned_ucast_eq unsigned_take_bit_eq take_bit_nat_eq_self word_less_nat_alt)

lemma unat_sub_le: "(b :: 'a::len word) \<le> a \<Longrightarrow> unat (a - b) = unat a - unat b"
  by (rule unat_sub)

lemma uint_add_bounded:
  "uint (a :: 'a::len word) + uint b < 2 ^ LENGTH('a) \<Longrightarrow> uint (a + b) = uint a + uint b"
  by (simp add: uint_add_lem)

lemma of_nat_unat_ucast: "of_nat (unat (w :: 'a::len word)) = (ucast w :: 'b::len word)"
  by transfer simp

lemma unat_ucast_up:
  "LENGTH('a::len) \<le> LENGTH('b::len) \<Longrightarrow> unat (ucast (w :: 'a word) :: 'b word) = unat w"
  by (simp add: unsigned_ucast_eq take_bit_nat_eq_self order_less_le_trans [OF unsigned_less] power_increasing)

lemma ucast_of_nat_64_32: "ucast (of_nat n :: u64) = (of_nat n :: u32)"
  by (rule bit_word_eqI) (simp add: bit_simps)

end
