(* ===== verification/Nvme_Command.thy ===== *)
theory Nvme_Command
  imports Prelude
begin

text \<open>
  The wire formats of the driver (include/uapi/linux/nvme.h): the members of
  \<open>union nvme_command\<close> as one record each, the union as a datatype whose constructor says
  through which member the code last wrote, the completion entry, and the byte encoding of
  a command. The little-endian conversions cpu_to_le16/32/64 are the identity on the
  little-endian target; the encoders below fix the byte order.
\<close>

section \<open>Opcodes and status codes\<close>

abbreviation nvme_cmd_flush :: u8 where "nvme_cmd_flush \<equiv> 0"
abbreviation nvme_cmd_write :: u8 where "nvme_cmd_write \<equiv> 1"
abbreviation nvme_cmd_read :: u8 where "nvme_cmd_read \<equiv> 2"
abbreviation nvme_cmd_compare :: u8 where "nvme_cmd_compare \<equiv> 5"
abbreviation nvme_cmd_dsm :: u8 where "nvme_cmd_dsm \<equiv> 9"

abbreviation nvme_admin_delete_sq :: u8 where "nvme_admin_delete_sq \<equiv> 0"
abbreviation nvme_admin_create_sq :: u8 where "nvme_admin_create_sq \<equiv> 1"
abbreviation nvme_admin_delete_cq :: u8 where "nvme_admin_delete_cq \<equiv> 4"
abbreviation nvme_admin_create_cq :: u8 where "nvme_admin_create_cq \<equiv> 5"
abbreviation nvme_admin_identify :: u8 where "nvme_admin_identify \<equiv> 6"
abbreviation nvme_admin_abort_cmd :: u8 where "nvme_admin_abort_cmd \<equiv> 8"
abbreviation nvme_admin_set_features :: u8 where "nvme_admin_set_features \<equiv> 9"
abbreviation nvme_admin_get_features :: u8 where "nvme_admin_get_features \<equiv> 10"
abbreviation nvme_admin_async_event :: u8 where "nvme_admin_async_event \<equiv> 12"

abbreviation NVME_SC_SUCCESS :: u16 where "NVME_SC_SUCCESS \<equiv> 0"
abbreviation NVME_SC_ABORT_REQ :: u16 where "NVME_SC_ABORT_REQ \<equiv> 7"
abbreviation NVME_SC_CAP_EXCEEDED :: u16 where "NVME_SC_CAP_EXCEEDED \<equiv> 0x81"
abbreviation NVME_SC_DNR :: u16 where "NVME_SC_DNR \<equiv> 0x4000"

section \<open>Commands\<close>

record nvme_common_command =
  common_opcode :: u8
  common_flags :: u8
  common_command_id :: u16
  common_nsid :: u32
  common_cdw2 :: "u32 list"
  common_metadata :: u64
  common_prp1 :: u64
  common_prp2 :: u64
  common_cdw10 :: "u32 list"

record nvme_rw_command =
  rw_opcode :: u8
  rw_flags :: u8
  rw_command_id :: u16
  rw_nsid :: u32
  rw_rsvd2 :: u64
  rw_metadata :: u64
  rw_prp1 :: u64
  rw_prp2 :: u64
  rw_slba :: u64
  rw_length :: u16
  rw_control :: u16
  rw_dsmgmt :: u32
  rw_reftag :: u32
  rw_apptag :: u16
  rw_appmask :: u16

record nvme_dsm_cmd =
  dsm_opcode :: u8
  dsm_flags :: u8
  dsm_command_id :: u16
  dsm_nsid :: u32
  dsm_prp1 :: u64
  dsm_prp2 :: u64
  dsm_nr :: u32
  dsm_attributes :: u32

record nvme_identify_cmd =
  identify_opcode :: u8
  identify_flags :: u8
  identify_command_id :: u16
  identify_nsid :: u32
  identify_prp1 :: u64
  identify_prp2 :: u64
  identify_cns :: u32

record nvme_features_cmd =
  features_opcode :: u8
  features_flags :: u8
  features_command_id :: u16
  features_nsid :: u32
  features_prp1 :: u64
  features_prp2 :: u64
  features_fid :: u32
  features_dword11 :: u32

record nvme_create_cq_cmd =
  create_cq_opcode :: u8
  create_cq_flags :: u8
  create_cq_command_id :: u16
  create_cq_prp1 :: u64
  create_cq_cqid :: u16
  create_cq_qsize :: u16
  create_cq_cq_flags :: u16
  create_cq_irq_vector :: u16

record nvme_create_sq_cmd =
  create_sq_opcode :: u8
  create_sq_flags :: u8
  create_sq_command_id :: u16
  create_sq_prp1 :: u64
  create_sq_sqid :: u16
  create_sq_qsize :: u16
  create_sq_sq_flags :: u16
  create_sq_cqid :: u16

record nvme_delete_queue_cmd =
  delete_queue_opcode :: u8
  delete_queue_flags :: u8
  delete_queue_command_id :: u16
  delete_queue_qid :: u16

record nvme_abort_cmd =
  abort_opcode :: u8
  abort_flags :: u8
  abort_command_id :: u16
  abort_sqid :: u16
  abort_cid :: u16

record nvme_download_firmware =
  dlfw_opcode :: u8
  dlfw_flags :: u8
  dlfw_command_id :: u16
  dlfw_prp1 :: u64
  dlfw_prp2 :: u64
  dlfw_numd :: u32
  dlfw_offset :: u32

record nvme_format_cmd =
  format_opcode :: u8
  format_flags :: u8
  format_command_id :: u16
  format_nsid :: u32
  format_cdw10 :: u32

datatype nvme_command =
    CmdCommon nvme_common_command
  | CmdRw nvme_rw_command
  | CmdDsm nvme_dsm_cmd
  | CmdIdentify nvme_identify_cmd
  | CmdFeatures nvme_features_cmd
  | CmdCreateCq nvme_create_cq_cmd
  | CmdCreateSq nvme_create_sq_cmd
  | CmdDeleteQueue nvme_delete_queue_cmd
  | CmdAbort nvme_abort_cmd
  | CmdDlfw nvme_download_firmware
  | CmdFormat nvme_format_cmd

text \<open>A command after memset(&c, 0, sizeof(c)), seen through each member of the union.\<close>

definition zero_common :: nvme_common_command where
  "zero_common = \<lparr>common_opcode = 0, common_flags = 0, common_command_id = 0, common_nsid = 0,
     common_cdw2 = replicate 2 0, common_metadata = 0, common_prp1 = 0, common_prp2 = 0,
     common_cdw10 = replicate 6 0\<rparr>"

definition zero_rw :: nvme_rw_command where
  "zero_rw = \<lparr>rw_opcode = 0, rw_flags = 0, rw_command_id = 0, rw_nsid = 0,
     rw_rsvd2 = 0, rw_metadata = 0, rw_prp1 = 0, rw_prp2 = 0,
     rw_slba = 0, rw_length = 0, rw_control = 0, rw_dsmgmt = 0,
     rw_reftag = 0, rw_apptag = 0, rw_appmask = 0\<rparr>"

definition zero_dsm :: nvme_dsm_cmd where
  "zero_dsm = \<lparr>dsm_opcode = 0, dsm_flags = 0, dsm_command_id = 0, dsm_nsid = 0,
     dsm_prp1 = 0, dsm_prp2 = 0, dsm_nr = 0, dsm_attributes = 0\<rparr>"

definition zero_identify :: nvme_identify_cmd where
  "zero_identify = \<lparr>identify_opcode = 0, identify_flags = 0, identify_command_id = 0, identify_nsid = 0,
     identify_prp1 = 0, identify_prp2 = 0, identify_cns = 0\<rparr>"

definition zero_features :: nvme_features_cmd where
  "zero_features = \<lparr>features_opcode = 0, features_flags = 0, features_command_id = 0, features_nsid = 0,
     features_prp1 = 0, features_prp2 = 0, features_fid = 0, features_dword11 = 0\<rparr>"

definition zero_create_cq :: nvme_create_cq_cmd where
  "zero_create_cq = \<lparr>create_cq_opcode = 0, create_cq_flags = 0, create_cq_command_id = 0, create_cq_prp1 = 0,
     create_cq_cqid = 0, create_cq_qsize = 0, create_cq_cq_flags = 0, create_cq_irq_vector = 0\<rparr>"

definition zero_create_sq :: nvme_create_sq_cmd where
  "zero_create_sq = \<lparr>create_sq_opcode = 0, create_sq_flags = 0, create_sq_command_id = 0, create_sq_prp1 = 0,
     create_sq_sqid = 0, create_sq_qsize = 0, create_sq_sq_flags = 0, create_sq_cqid = 0\<rparr>"

definition zero_delete_queue :: nvme_delete_queue_cmd where
  "zero_delete_queue = \<lparr>delete_queue_opcode = 0, delete_queue_flags = 0, delete_queue_command_id = 0, delete_queue_qid = 0\<rparr>"

definition zero_abort :: nvme_abort_cmd where
  "zero_abort = \<lparr>abort_opcode = 0, abort_flags = 0, abort_command_id = 0, abort_sqid = 0,
     abort_cid = 0\<rparr>"

definition zero_dlfw :: nvme_download_firmware where
  "zero_dlfw = \<lparr>dlfw_opcode = 0, dlfw_flags = 0, dlfw_command_id = 0, dlfw_prp1 = 0,
     dlfw_prp2 = 0, dlfw_numd = 0, dlfw_offset = 0\<rparr>"

definition zero_format :: nvme_format_cmd where
  "zero_format = \<lparr>format_opcode = 0, format_flags = 0, format_command_id = 0, format_nsid = 0,
     format_cdw10 = 0\<rparr>"

text \<open>The 64 bytes of a command in the submission queue, member by member.\<close>

definition encode_common :: "nvme_common_command \<Rightarrow> u8 list" where
  "encode_common c = le_bytes 1 (common_opcode c) @ le_bytes 1 (common_flags c) @ le_bytes 2 (common_command_id c) @ le_bytes 4 (common_nsid c)
     @ concat (map (le_bytes 4) (common_cdw2 c)) @ le_bytes 8 (common_metadata c) @ le_bytes 8 (common_prp1 c) @ le_bytes 8 (common_prp2 c)
     @ concat (map (le_bytes 4) (common_cdw10 c))"

definition encode_rw :: "nvme_rw_command \<Rightarrow> u8 list" where
  "encode_rw c = le_bytes 1 (rw_opcode c) @ le_bytes 1 (rw_flags c) @ le_bytes 2 (rw_command_id c) @ le_bytes 4 (rw_nsid c)
     @ le_bytes 8 (rw_rsvd2 c) @ le_bytes 8 (rw_metadata c) @ le_bytes 8 (rw_prp1 c) @ le_bytes 8 (rw_prp2 c)
     @ le_bytes 8 (rw_slba c) @ le_bytes 2 (rw_length c) @ le_bytes 2 (rw_control c) @ le_bytes 4 (rw_dsmgmt c)
     @ le_bytes 4 (rw_reftag c) @ le_bytes 2 (rw_apptag c) @ le_bytes 2 (rw_appmask c)"

definition encode_dsm :: "nvme_dsm_cmd \<Rightarrow> u8 list" where
  "encode_dsm c = le_bytes 1 (dsm_opcode c) @ le_bytes 1 (dsm_flags c) @ le_bytes 2 (dsm_command_id c) @ le_bytes 4 (dsm_nsid c)
     @ replicate 16 0 @ le_bytes 8 (dsm_prp1 c) @ le_bytes 8 (dsm_prp2 c) @ le_bytes 4 (dsm_nr c)
     @ le_bytes 4 (dsm_attributes c) @ replicate 16 0"

definition encode_identify :: "nvme_identify_cmd \<Rightarrow> u8 list" where
  "encode_identify c = le_bytes 1 (identify_opcode c) @ le_bytes 1 (identify_flags c) @ le_bytes 2 (identify_command_id c) @ le_bytes 4 (identify_nsid c)
     @ replicate 16 0 @ le_bytes 8 (identify_prp1 c) @ le_bytes 8 (identify_prp2 c) @ le_bytes 4 (identify_cns c)
     @ replicate 20 0"

definition encode_features :: "nvme_features_cmd \<Rightarrow> u8 list" where
  "encode_features c = le_bytes 1 (features_opcode c) @ le_bytes 1 (features_flags c) @ le_bytes 2 (features_command_id c) @ le_bytes 4 (features_nsid c)
     @ replicate 16 0 @ le_bytes 8 (features_prp1 c) @ le_bytes 8 (features_prp2 c) @ le_bytes 4 (features_fid c)
     @ le_bytes 4 (features_dword11 c) @ replicate 16 0"

definition encode_create_cq :: "nvme_create_cq_cmd \<Rightarrow> u8 list" where
  "encode_create_cq c = le_bytes 1 (create_cq_opcode c) @ le_bytes 1 (create_cq_flags c) @ le_bytes 2 (create_cq_command_id c) @ replicate 20 0
     @ le_bytes 8 (create_cq_prp1 c) @ replicate 8 0 @ le_bytes 2 (create_cq_cqid c) @ le_bytes 2 (create_cq_qsize c)
     @ le_bytes 2 (create_cq_cq_flags c) @ le_bytes 2 (create_cq_irq_vector c) @ replicate 16 0"

definition encode_create_sq :: "nvme_create_sq_cmd \<Rightarrow> u8 list" where
  "encode_create_sq c = le_bytes 1 (create_sq_opcode c) @ le_bytes 1 (create_sq_flags c) @ le_bytes 2 (create_sq_command_id c) @ replicate 20 0
     @ le_bytes 8 (create_sq_prp1 c) @ replicate 8 0 @ le_bytes 2 (create_sq_sqid c) @ le_bytes 2 (create_sq_qsize c)
     @ le_bytes 2 (create_sq_sq_flags c) @ le_bytes 2 (create_sq_cqid c) @ replicate 16 0"

definition encode_delete_queue :: "nvme_delete_queue_cmd \<Rightarrow> u8 list" where
  "encode_delete_queue c = le_bytes 1 (delete_queue_opcode c) @ le_bytes 1 (delete_queue_flags c) @ le_bytes 2 (delete_queue_command_id c) @ replicate 36 0
     @ le_bytes 2 (delete_queue_qid c) @ replicate 2 0 @ replicate 20 0"

definition encode_abort :: "nvme_abort_cmd \<Rightarrow> u8 list" where
  "encode_abort c = le_bytes 1 (abort_opcode c) @ le_bytes 1 (abort_flags c) @ le_bytes 2 (abort_command_id c) @ replicate 36 0
     @ le_bytes 2 (abort_sqid c) @ le_bytes 2 (abort_cid c) @ replicate 20 0"

definition encode_dlfw :: "nvme_download_firmware \<Rightarrow> u8 list" where
  "encode_dlfw c = le_bytes 1 (dlfw_opcode c) @ le_bytes 1 (dlfw_flags c) @ le_bytes 2 (dlfw_command_id c) @ replicate 20 0
     @ le_bytes 8 (dlfw_prp1 c) @ le_bytes 8 (dlfw_prp2 c) @ le_bytes 4 (dlfw_numd c) @ le_bytes 4 (dlfw_offset c)
     @ replicate 16 0"

definition encode_format :: "nvme_format_cmd \<Rightarrow> u8 list" where
  "encode_format c = le_bytes 1 (format_opcode c) @ le_bytes 1 (format_flags c) @ le_bytes 2 (format_command_id c) @ le_bytes 4 (format_nsid c)
     @ replicate 32 0 @ le_bytes 4 (format_cdw10 c) @ replicate 20 0"

fun encode_command :: "nvme_command \<Rightarrow> u8 list" where
  "encode_command (CmdCommon c) = encode_common c"
| "encode_command (CmdRw c) = encode_rw c"
| "encode_command (CmdDsm c) = encode_dsm c"
| "encode_command (CmdIdentify c) = encode_identify c"
| "encode_command (CmdFeatures c) = encode_features c"
| "encode_command (CmdCreateCq c) = encode_create_cq c"
| "encode_command (CmdCreateSq c) = encode_create_sq c"
| "encode_command (CmdDeleteQueue c) = encode_delete_queue c"
| "encode_command (CmdAbort c) = encode_abort c"
| "encode_command (CmdDlfw c) = encode_dlfw c"
| "encode_command (CmdFormat c) = encode_format c"

text \<open>cmd->common.command_id = id, cmd->common.opcode: the fields every member shares.\<close>

fun set_command_id :: "u16 \<Rightarrow> nvme_command \<Rightarrow> nvme_command" where
  "set_command_id i (CmdCommon c) = CmdCommon (c\<lparr>common_command_id := i\<rparr>)"
| "set_command_id i (CmdRw c) = CmdRw (c\<lparr>rw_command_id := i\<rparr>)"
| "set_command_id i (CmdDsm c) = CmdDsm (c\<lparr>dsm_command_id := i\<rparr>)"
| "set_command_id i (CmdIdentify c) = CmdIdentify (c\<lparr>identify_command_id := i\<rparr>)"
| "set_command_id i (CmdFeatures c) = CmdFeatures (c\<lparr>features_command_id := i\<rparr>)"
| "set_command_id i (CmdCreateCq c) = CmdCreateCq (c\<lparr>create_cq_command_id := i\<rparr>)"
| "set_command_id i (CmdCreateSq c) = CmdCreateSq (c\<lparr>create_sq_command_id := i\<rparr>)"
| "set_command_id i (CmdDeleteQueue c) = CmdDeleteQueue (c\<lparr>delete_queue_command_id := i\<rparr>)"
| "set_command_id i (CmdAbort c) = CmdAbort (c\<lparr>abort_command_id := i\<rparr>)"
| "set_command_id i (CmdDlfw c) = CmdDlfw (c\<lparr>dlfw_command_id := i\<rparr>)"
| "set_command_id i (CmdFormat c) = CmdFormat (c\<lparr>format_command_id := i\<rparr>)"

fun get_command_id :: "nvme_command \<Rightarrow> u16" where
  "get_command_id (CmdCommon c) = common_command_id c"
| "get_command_id (CmdRw c) = rw_command_id c"
| "get_command_id (CmdDsm c) = dsm_command_id c"
| "get_command_id (CmdIdentify c) = identify_command_id c"
| "get_command_id (CmdFeatures c) = features_command_id c"
| "get_command_id (CmdCreateCq c) = create_cq_command_id c"
| "get_command_id (CmdCreateSq c) = create_sq_command_id c"
| "get_command_id (CmdDeleteQueue c) = delete_queue_command_id c"
| "get_command_id (CmdAbort c) = abort_command_id c"
| "get_command_id (CmdDlfw c) = dlfw_command_id c"
| "get_command_id (CmdFormat c) = format_command_id c"

fun get_opcode :: "nvme_command \<Rightarrow> u8" where
  "get_opcode (CmdCommon c) = common_opcode c"
| "get_opcode (CmdRw c) = rw_opcode c"
| "get_opcode (CmdDsm c) = dsm_opcode c"
| "get_opcode (CmdIdentify c) = identify_opcode c"
| "get_opcode (CmdFeatures c) = features_opcode c"
| "get_opcode (CmdCreateCq c) = create_cq_opcode c"
| "get_opcode (CmdCreateSq c) = create_sq_opcode c"
| "get_opcode (CmdDeleteQueue c) = delete_queue_opcode c"
| "get_opcode (CmdAbort c) = abort_opcode c"
| "get_opcode (CmdDlfw c) = dlfw_opcode c"
| "get_opcode (CmdFormat c) = format_opcode c"

lemmas encode_defs = encode_common_def encode_rw_def encode_dsm_def encode_identify_def encode_features_def encode_create_cq_def encode_create_sq_def encode_delete_queue_def encode_abort_def encode_dlfw_def encode_format_def

section \<open>Completions and the user interface structures\<close>

record nvme_completion =
  cqe_result :: u32
  cqe_sq_head :: u16
  cqe_sq_id :: u16
  cqe_command_id :: u16
  cqe_status :: u16

record nvme_user_io =
  uio_opcode :: u8
  uio_flags :: u8
  uio_control :: u16
  uio_nblocks :: u16
  uio_rsvd :: u16
  uio_metadata :: u64
  uio_addr :: u64
  uio_slba :: u64
  uio_dsmgmt :: u32
  uio_reftag :: u32
  uio_apptag :: u16
  uio_appmask :: u16

section \<open>Sizes and the shared prefix\<close>

text \<open>
  The sizes that \<open>_nvme_check_size\<close> asserts at build time. The two cdw arrays have the
  lengths of their C declarations.
\<close>

fun wf_command :: "nvme_command \<Rightarrow> bool" where
  "wf_command (CmdCommon c) = (length (common_cdw2 c) = 2 \<and> length (common_cdw10 c) = 6)"
| "wf_command _ = True"

definition nvme_check_size :: "nvme_command \<Rightarrow> bool" where
  "nvme_check_size c = (length (encode_command c) = 64)"

lemma length_encode_words: "length (concat (map (le_bytes 4) ws)) = 4 * length ws"
  by (induction ws) auto

lemma length_encode_command: "wf_command c \<Longrightarrow> length (encode_command c) = 64"
  by (cases c) (simp_all add: encode_defs length_encode_words)

lemma encode_prefix:
  "\<exists>rest. encode_command c = [get_opcode c] @ fl @ le_bytes 2 (get_command_id c) @ rest
     \<and> encode_command (set_command_id i c) = [get_opcode c] @ fl @ le_bytes 2 i @ rest"
  if "fl = take 1 (drop 1 (encode_command c))"
  using that
  by (cases c) (simp_all add: encode_defs le_bytes_def eval_nat_numeral)

lemma command_id_set [simp]:
  "get_command_id (set_command_id i c) = i" "get_opcode (set_command_id i c) = get_opcode c"
  by (cases c; simp)+



text \<open>
  Storing the command id through \<open>common.command_id\<close>, as every submission path does after the
  command was filled in through another member, replaces bytes 2 and 3 of the slot and no
  other byte: the union members agree on their first four bytes.
\<close>

lemma set_command_id_bytes:
  "encode_command (set_command_id i c) =
     take 2 (encode_command c) @ le_bytes 2 i @ drop 4 (encode_command c)"
proof -
  define fl where "fl = take 1 (drop 1 (encode_command c))"
  obtain rest where r: "encode_command c = [get_opcode c] @ fl @ le_bytes 2 (get_command_id c) @ rest"
      "encode_command (set_command_id i c) = [get_opcode c] @ fl @ le_bytes 2 i @ rest"
    using encode_prefix [OF fl_def] by blast
  have "length fl = 1"
    by (simp add: fl_def) (cases c; simp add: encode_defs)
  with r show ?thesis by (simp add: eval_nat_numeral)
qed

end
