(* ===== verification/Nvme_Prp.thy ===== *)
theory Nvme_Prp
  imports Prelude
begin

text \<open>
  The I/O descriptor and its PRP lists (src/nvme-core.c, \<open>nvme_npages\<close> to
  \<open>nvme_setup_phys_prps\<close>).

  A DMA pool is kernel code: it is the argument \<open>palloc\<close>, where \<open>palloc k\<close> is what the k-th
  dma_pool_alloc of one set-up returns: None when it fails, otherwise the bus address of the
  block and the 64-bit words it holds. The blocks of a descriptor are kept in allocation
  order (\<open>iod_blocks\<close>); the pointer array that the C code keeps behind the scatterlist,
  \<open>iod_list(iod)\<close>, is \<open>iod_list\<close>, which holds positions in \<open>iod_blocks\<close>.
\<close>

section \<open>Sizes\<close>

abbreviation SIZEOF_SG :: u32 where "SIZEOF_SG \<equiv> 16"
abbreviation SIZEOF_IOD :: u32 where "SIZEOF_IOD \<equiv> 40"
abbreviation SIZEOF_CMD_INFO :: u32 where "SIZEOF_CMD_INFO \<equiv> 16"
abbreviation SIZEOF_PHYS_IOD :: u32 where "SIZEOF_PHYS_IOD \<equiv> 36"
abbreviation SIZEOF_PTR :: u32 where "SIZEOF_PTR \<equiv> 4"
abbreviation NVME_INT_PAGES :: u32 where "NVME_INT_PAGES \<equiv> 2"
abbreviation NVME_INT_MASK :: u32 where "NVME_INT_MASK \<equiv> 1"

definition div_round_up :: "u32 \<Rightarrow> u32 \<Rightarrow> u32" where
  "div_round_up n d = (n + d - 1) div d"

definition nvme_npages :: "u32 \<Rightarrow> u32 \<Rightarrow> u32" where
  "nvme_npages nbytes page_size =
     (let nprps = div_round_up (nbytes + page_size) page_size
      in div_round_up (8 * nprps) (4096 - 8))"

definition nvme_cmd_size :: "u32 \<Rightarrow> u32" where
  "nvme_cmd_size page_size =
     SIZEOF_CMD_INFO + SIZEOF_IOD
       + SIZEOF_PTR * nvme_npages (NVME_INT_PAGES * page_size) page_size
       + SIZEOF_SG * NVME_INT_PAGES"

section \<open>The descriptor\<close>

text \<open>A scatterlist after dma_map_sg: the bus address and length of each entry.\<close>

type_synonym scatterlist = "(dma_addr \<times> nat) list"
type_synonym prp_block = "dma_addr \<times> u64 list"
type_synonym pool_alloc = "nat \<Rightarrow> prp_block option"

text \<open>The part the two descriptor structs share: npages and the list pages.\<close>

record prp_state =
  iod_npages :: int
  iod_blocks :: "prp_block list"
  iod_list :: "nat list"

record nvme_iod = prp_state +
  iod_private :: u32
  iod_offset :: u32
  iod_nents :: int
  iod_length :: u32
  iod_first_dma :: dma_addr
  iod_sg :: scatterlist

record nvme_phys_iod = prp_state +
  pio_offset :: u32
  pio_length :: u32
  pio_prp1 :: dma_addr
  pio_prp2 :: dma_addr

datatype prp_pool = SmallPool | PagePool

definition iod_get_private :: "nvme_iod \<Rightarrow> u32" where
  "iod_get_private iod = iod_private iod AND NOT 1"

definition iod_should_kfree :: "nvme_iod \<Rightarrow> bool" where
  "iod_should_kfree iod \<longleftrightarrow> iod_private iod AND NVME_INT_MASK = 0"

text \<open>
  \<open>iod_init\<close> leaves \<open>first_dma\<close>, the scatterlist and the pointer array as kmalloc returned
  them: they come from the memory \<open>raw\<close> the descriptor is laid out in.
\<close>

definition iod_init :: "nvme_iod \<Rightarrow> u32 \<Rightarrow> u32 \<Rightarrow> u32 \<Rightarrow> nvme_iod" where
  "iod_init raw nbytes nseg private =
     raw\<lparr>iod_private := private,
         iod_offset := SIZEOF_IOD + SIZEOF_SG * nseg,
         iod_npages := -1,
         iod_length := nbytes,
         iod_nents := 0\<rparr>"

text \<open>\<open>kmalloc n\<close> is None when the allocation of n bytes fails, otherwise the raw memory.\<close>

definition alloc_iod :: "(u32 \<Rightarrow> nvme_iod option) \<Rightarrow> u32 \<Rightarrow> u32 \<Rightarrow> u32 \<Rightarrow> u32 \<Rightarrow> nvme_iod option" where
  "alloc_iod kmalloc nseg bytes page_size priv =
     (case kmalloc (SIZEOF_IOD + SIZEOF_PTR * nvme_npages bytes page_size + SIZEOF_SG * nseg) of
        None \<Rightarrow> None
      | Some raw \<Rightarrow> Some (iod_init raw bytes nseg priv))"

section \<open>Building a PRP list\<close>

text \<open>
  \<open>prp_list[i] = a\<close> on the current (last allocated) block; outside the block the store would
  corrupt memory, which is None.
\<close>

definition prp_store :: "'a prp_state_scheme \<Rightarrow> nat \<Rightarrow> u64 \<Rightarrow> 'a prp_state_scheme option" where
  "prp_store iod i a =
     (if iod_blocks iod = [] then None
      else let (d, es) = last (iod_blocks iod) in
        if i < length es
        then Some (iod\<lparr>iod_blocks := butlast (iod_blocks iod) @ [(d, es[i := a])]\<rparr>) else None)"

text \<open>
  A full list page: \<open>list[iod->npages++] = prp_list\<close>, the last entry of the old page moves to
  the head of the new one and becomes the link to it.
\<close>

definition prp_chain :: "'a prp_state_scheme \<Rightarrow> nat \<Rightarrow> prp_block \<Rightarrow> 'a prp_state_scheme option" where
  "prp_chain iod i blk =
     (if iod_blocks iod = [] then None
      else let (d, es) = last (iod_blocks iod); (d', es') = blk in
        if 0 < i \<and> i - 1 < length es \<and> es' \<noteq> []
        then Some (iod\<lparr>
          iod_list := put_at (iod_list iod) (nat (iod_npages iod)) (length (iod_blocks iod)),
          iod_npages := iod_npages iod + 1,
          iod_blocks := butlast (iod_blocks iod)
            @ [(d, es[i - 1 := ucast d']), (d', es'[0 := es ! (i - 1)])]\<rparr>)
        else None)"

text \<open>
  The endless loop of \<open>nvme_setup_prps\<close>: \<open>Inl length\<close> is the return after a failed
  dma_pool_alloc with \<open>length\<close> bytes left, \<open>Inr ()\<close> the break.
\<close>

function prp_fill ::
  "pool_alloc \<Rightarrow> u32 \<Rightarrow> 'a prp_state_scheme \<Rightarrow> nat \<Rightarrow> scatterlist \<Rightarrow> int \<Rightarrow> u64 \<Rightarrow> int
     \<Rightarrow> ((int + unit) \<times> 'a prp_state_scheme) option" where
  "prp_fill palloc page_size iod i sg dma_len dma_addr length' =
     (if page_size = 0 then None
      else if i = unat (drop_bit 3 page_size) \<and> palloc (length (iod_blocks iod)) = None
      then Some (Inl length', iod)
      else case (if i = unat (drop_bit 3 page_size)
                 then Option.bind (prp_chain iod i (the (palloc (length (iod_blocks iod)))))
                        (\<lambda>iod'. Some (iod', 1))
                 else Some (iod, i)) of
        None \<Rightarrow> None
      | Some (iod1, i1) \<Rightarrow>
          (case prp_store iod1 i1 dma_addr of
             None \<Rightarrow> None
           | Some iod2 \<Rightarrow>
               (let dma_len2 = dma_len - uint page_size;
                    dma_addr2 = dma_addr + ucast page_size;
                    length2 = length' - uint page_size
                in if length2 \<le> 0 then Some (Inr (), iod2)
                   else if dma_len2 > 0
                   then prp_fill palloc page_size iod2 (Suc i1) sg dma_len2 dma_addr2 length2
                   else if dma_len2 < 0 then None
                   else (case tl sg of [] \<Rightarrow> None
                         | (a, l) # sg' \<Rightarrow>
                             prp_fill palloc page_size iod2 (Suc i1) ((a, l) # sg') (int l) (ucast a)
                               length2))))"
  by pat_completeness auto
termination
  by (relation "measure (\<lambda>(palloc, ps, iod, i, sg, dl, da, len). nat len)")
    (auto simp: word_neq_0_conv word_less_def)

declare prp_fill.simps [simp del]

definition prp_pool_of :: "int \<Rightarrow> prp_pool" where
  "prp_pool_of nprps = (if nprps \<le> 256 div 8 then SmallPool else PagePool)"

definition nvme_setup_prps ::
  "(prp_pool \<Rightarrow> pool_alloc) \<Rightarrow> u32 \<Rightarrow> nvme_iod \<Rightarrow> int \<Rightarrow> (int \<times> nvme_iod) option" where
  "nvme_setup_prps palloc page_size iod total_len =
     (case iod_sg iod of [] \<Rightarrow> None
      | (a, l) # sgs \<Rightarrow>
        (let dma_addr = ucast a :: u64;
             offset = uint (dma_addr AND ucast (page_size - 1));
             first = uint page_size - offset;
             len = total_len - first
         in if len \<le> 0 then Some (total_len, iod)
            else
              (let dma_len = int l - first
               in case (if dma_len \<noteq> 0 then Some ((a, l) # sgs, dma_addr + of_int first, dma_len)
                        else case sgs of [] \<Rightarrow> None
                             | (a', l') # sgs' \<Rightarrow> Some (sgs, ucast a', int l')) of
                    None \<Rightarrow> None
                  | Some (sg, dma_addr, dma_len) \<Rightarrow>
                      if len \<le> uint page_size
                      then Some (total_len, iod\<lparr>iod_first_dma := ucast dma_addr\<rparr>)
                      else if page_size = 0 then None
                      else
                        (let nprps = (len + uint page_size - 1) div uint page_size;
                             pool = prp_pool_of nprps;
                             iod1 = iod\<lparr>iod_npages := (if pool = SmallPool then 0 else 1)\<rparr>
                         in case palloc pool 0 of
                              None \<Rightarrow>
                                Some (total_len - len + uint page_size,
                                      iod1\<lparr>iod_first_dma := ucast dma_addr, iod_npages := -1\<rparr>)
                            | Some (prp_dma, es) \<Rightarrow>
                                (case prp_fill (palloc pool) page_size
                                        (iod1\<lparr>iod_list := [0], iod_blocks := [(prp_dma, es)],
                                              iod_first_dma := prp_dma\<rparr>)
                                        0 sg dma_len dma_addr len of
                                   None \<Rightarrow> None
                                 | Some (Inl rest, iod2) \<Rightarrow> Some (total_len - rest, iod2)
                                 | Some (Inr _, iod2) \<Rightarrow> Some (total_len, iod2))))))"

section \<open>Physically addressed transfers\<close>

definition phys_iod_init :: "nvme_phys_iod \<Rightarrow> u32 \<Rightarrow> nvme_phys_iod" where
  "phys_iod_init raw nbytes =
     raw\<lparr>pio_offset := SIZEOF_PHYS_IOD, iod_npages := -1, pio_length := nbytes\<rparr>"

definition alloc_phys_iod ::
  "(u32 \<Rightarrow> nvme_phys_iod option) \<Rightarrow> u32 \<Rightarrow> u32 \<Rightarrow> nvme_phys_iod option" where
  "alloc_phys_iod kmalloc bytes page_size =
     (case kmalloc (SIZEOF_PHYS_IOD + SIZEOF_PTR * nvme_npages bytes page_size) of
        None \<Rightarrow> None
      | Some raw \<Rightarrow> Some (phys_iod_init raw bytes))"

text \<open>The loop of \<open>nvme_setup_phys_prps\<close>: no scatterlist, \<open>dma_len\<close> restarts at a page.\<close>

function phys_prp_fill ::
  "pool_alloc \<Rightarrow> u32 \<Rightarrow> 'a prp_state_scheme \<Rightarrow> nat \<Rightarrow> int \<Rightarrow> u64 \<Rightarrow> int
     \<Rightarrow> ((int + unit) \<times> 'a prp_state_scheme) option" where
  "phys_prp_fill palloc page_size iod i dma_len dma_addr length' =
     (if page_size = 0 then None
      else if i = unat (drop_bit 3 page_size) \<and> palloc (length (iod_blocks iod)) = None
      then Some (Inl length', iod)
      else case (if i = unat (drop_bit 3 page_size)
                 then Option.bind (prp_chain iod i (the (palloc (length (iod_blocks iod)))))
                        (\<lambda>iod'. Some (iod', 1))
                 else Some (iod, i)) of
        None \<Rightarrow> None
      | Some (iod1, i1) \<Rightarrow>
          (case prp_store iod1 i1 dma_addr of
             None \<Rightarrow> None
           | Some iod2 \<Rightarrow>
               (let dma_len2 = dma_len - uint page_size;
                    dma_addr2 = dma_addr + ucast page_size;
                    length2 = length' - uint page_size
                in if length2 \<le> 0 then Some (Inr (), iod2)
                   else if dma_len2 > 0
                   then phys_prp_fill palloc page_size iod2 (Suc i1) dma_len2 dma_addr2 length2
                   else if dma_len2 < 0 then None
                   else phys_prp_fill palloc page_size iod2 (Suc i1) (uint page_size) dma_addr2
                          length2)))"
  by pat_completeness auto
termination
  by (relation "measure (\<lambda>(palloc, ps, iod, i, dl, da, len). nat len)")
    (auto simp: word_neq_0_conv word_less_def)

declare phys_prp_fill.simps [simp del]

definition nvme_setup_phys_prps ::
  "(prp_pool \<Rightarrow> pool_alloc) \<Rightarrow> u32 \<Rightarrow> nvme_phys_iod \<Rightarrow> int \<Rightarrow> dma_addr
     \<Rightarrow> (int \<times> nvme_phys_iod) option" where
  "nvme_setup_phys_prps palloc page_size iod total_len address =
     (let dma_addr = ucast address :: u64;
          offset = uint (dma_addr AND ucast (page_size - 1));
          first = uint page_size - offset;
          len = total_len - first
      in if len \<le> 0 then Some (total_len, iod\<lparr>pio_prp1 := address\<rparr>)
         else
           (let dma_len = total_len - first
            in if len \<le> uint page_size
               then Some (total_len,
                      iod\<lparr>pio_prp1 := address, pio_prp2 := address + page_size\<rparr>)
               else if page_size = 0 then None
               else
                 (let nprps = (len + uint page_size - 1) div uint page_size;
                      pool = prp_pool_of nprps;
                      iod1 = iod\<lparr>iod_npages := (if pool = SmallPool then 0 else 1)\<rparr>
                  in case palloc pool 0 of
                       None \<Rightarrow>
                         Some (total_len - len + uint page_size,
                               iod1\<lparr>pio_prp1 := address, pio_prp2 := address + page_size,
                                    iod_npages := -1\<rparr>)
                     | Some (prp_dma, es) \<Rightarrow>
                         (case phys_prp_fill (palloc pool) page_size
                                 (iod1\<lparr>iod_list := [0], iod_blocks := [(prp_dma, es)],
                                       pio_prp1 := address, pio_prp2 := prp_dma\<rparr>)
                                 0 dma_len (ucast (address + page_size)) len of
                            None \<Rightarrow> None
                          | Some (Inl rest, iod2) \<Rightarrow> Some (total_len - rest, iod2)
                          | Some (Inr _, iod2) \<Rightarrow> Some (total_len, iod2)))))"

section \<open>Releasing a descriptor\<close>

text \<open>What \<open>nvme_free_iod\<close> hands back: a block of a pool (pointer, bus address) or the descriptor.\<close>

datatype free_event = PoolFree prp_pool nat dma_addr | KfreeIod

text \<open>
  The loop over the list pages; the bus address of page \<open>i + 1\<close> is read from the last entry of
  page \<open>i\<close>. A pointer or an entry outside its array is None.
\<close>

fun free_prp_pages ::
  "nat \<Rightarrow> prp_block list \<Rightarrow> nat list \<Rightarrow> dma_addr \<Rightarrow> free_event list option" where
  "free_prp_pages last_prp bs [] prp_dma = Some []"
| "free_prp_pages last_prp bs (p # ps) prp_dma =
     (if p < length bs \<and> last_prp < length (snd (bs ! p))
      then map_option (\<lambda>evs. PoolFree PagePool p prp_dma # evs)
             (free_prp_pages last_prp bs ps (ucast (snd (bs ! p) ! last_prp)))
      else None)"

definition free_prp_blocks ::
  "u32 \<Rightarrow> int \<Rightarrow> prp_block list \<Rightarrow> nat list \<Rightarrow> dma_addr \<Rightarrow> free_event list option" where
  "free_prp_blocks page_size npages bs ptrs first_dma =
     (let last_prp = unat (page_size div 8 - 1)
      in if npages = 0
         then (case ptrs of [] \<Rightarrow> None | p # _ \<Rightarrow> Some [PoolFree SmallPool p first_dma])
         else if nat npages \<le> length ptrs
         then free_prp_pages last_prp bs (take (nat npages) ptrs) first_dma else None)"

definition nvme_free_iod :: "u32 \<Rightarrow> nvme_iod \<Rightarrow> free_event list option" where
  "nvme_free_iod page_size iod =
     map_option (\<lambda>evs. evs @ (if iod_should_kfree iod then [KfreeIod] else []))
       (free_prp_blocks page_size (iod_npages iod) (iod_blocks iod) (iod_list iod)
          (iod_first_dma iod))"

definition nvme_free_phys_iod :: "u32 \<Rightarrow> nvme_phys_iod \<Rightarrow> free_event list option" where
  "nvme_free_phys_iod page_size iod =
     map_option (\<lambda>evs. evs @ [KfreeIod])
       (free_prp_blocks page_size (iod_npages iod) (iod_blocks iod) (iod_list iod)
          (pio_prp2 iod))"

end
