(* ===== verification/Nvme_State.thy ===== *)
theory Nvme_State
  imports Nvme_Command Nvme_Prp
begin

text \<open>
  The state of the driver (struct nvme_queue, nvme_cmd_info, nvme_dev, nvme_ns of
  src/nvme-core.c and src/include/linux/nvme.h) and the block-layer objects it works on.

  Pointers are modelled by keys: a queue by its index in \<open>dev->queues\<close>, a struct request by its
  address (whose bit 0 the code borrows), the on-stack structs that completions write
  (sync_cmd_info, async_cmd_info, chario_cmd_info) by a number, a blk_mq_hw_ctx by a number.
  What the driver tells the kernel or the device is appended to \<open>d_log\<close>: doorbell writes,
  wake-ups, block-layer calls, unmappings, frees. Printing (pr_debug, dev_warn) is left out, and
  so are the spinlocks: an operation of the model is the critical section as one step.
\<close>

type_synonym rq_ptr = u32

datatype req_flag = REQ_DISCARD | REQ_FLUSH | REQ_FUA | REQ_RAHEAD | REQ_NO_TIMEOUT
  | REQ_FAILFAST_DEV | REQ_FAILFAST_TRANSPORT | REQ_FAILFAST_DRIVER

text \<open>The completion handlers (nvme_completion_fn) and the contexts they are called with.\<close>

datatype completion_fn = special_completion_fn | async_req_completion_fn | abort_completion_fn
  | async_completion_fn | req_completion_fn | sync_completion_fn | chario_completion_fn

datatype cmd_ctx = CtxNull | CMD_CTX_CANCELLED | CMD_CTX_COMPLETED | CMD_CTX_INVALID
  | CtxIod nvme_iod | CtxReq rq_ptr | CtxSync nat | CtxAsync nat | CtxChario nat

record nvme_cmd_info =
  ci_fn :: "completion_fn option"
  ci_ctx :: cmd_ctx
  ci_aborted :: int
  ci_nvmeq :: "nat option"

text \<open>
  A block-layer request, with its private part \<open>blk_mq_rq_to_pdu\<close>. \<open>rq_meta_dma\<close> is the bus
  address dma_map_sg gives its integrity buffer.
\<close>

record request =
  rq_tag :: u16
  rq_flags :: "req_flag set"
  rq_write :: bool
  rq_bytes :: u32
  rq_pos :: u64
  rq_nr_phys_segments :: u32
  rq_integrity :: bool
  rq_meta_dma :: dma_addr
  rq_errors :: int
  rq_start_time :: u32
  rq_timeout :: u32
  rq_queue :: nat
  rq_started :: bool
  rq_cmd :: nvme_cmd_info

record sync_cmd_info =
  sync_task :: nat
  sync_result :: u32
  sync_status :: int

record async_cmd_info =
  async_req :: rq_ptr
  async_result :: u32
  async_status :: int

record chario_cmd_info =
  chario_task :: nat
  chario_result :: u32
  chario_status :: int
  chario_remaining :: int

record nvme_queue =
  q_sq_cmds :: "nvme_command list"
  q_cqes :: "nvme_completion list"
  q_sq_dma_addr :: dma_addr
  q_cq_dma_addr :: dma_addr
  q_db :: u32
  q_depth :: u16
  q_cq_vector :: int
  q_sq_head :: u16
  q_sq_tail :: u16
  q_cq_head :: u16
  q_qid :: u16
  q_cq_phase :: u8
  q_cqe_seen :: u8
  q_hctx :: "nat option"
  q_chario_cmds :: "nvme_cmd_info option list"
  q_next_chario_tag :: int

record nvme_ns =
  ns_id :: u32
  ns_lba_shift :: int
  ns_ms :: u16
  ns_ext :: bool
  ns_pi_type :: u8
  ns_queue :: nat

text \<open>
  What the driver does outside its own state. A doorbell is written at an index of
  \<open>dev->dbs\<close>.
\<close>

datatype bar_reg = BarCc | BarAqa | BarAsq | BarAcq

datatype kevent =
    Writel u32 u32
  | WriteBar bar_reg u64
  | AllocAdminTagSet u32
  | FreeAdminTagSet
  | CleanupAdminQueue
  | UnfreezeAdminQueue
  | WakeUpProcess nat
  | QueueKthreadWork nat
  | QueueResetWork
  | FreeHctxRequest rq_ptr
  | FreeRequest rq_ptr
  | StartRequest rq_ptr
  | CompleteRequest rq_ptr
  | RequeueRequest rq_ptr
  | KickRequeueList nat
  | DmaUnmapSg rq_ptr bool
  | DmaUnmapMeta rq_ptr bool
  | DifComplete rq_ptr
  | DifPrep rq_ptr
  | Freed free_event
  | DmaFreeCoherent u32 dma_addr
  | KfreeCharioCmd nat
  | KfreeQueue
  | FreezeAdminQueue
  | FreeIrq int
  | RequestIrq int bool
  | PutPages nat
  | DmaUnmapUser scatterlist bool
  | DmaFreeMeta u32 dma_addr

record nvme_dev =
  d_queues :: "nvme_queue option list"
  d_requests :: "rq_ptr \<Rightarrow> request option"
  d_tag_to_rq :: "nat \<Rightarrow> nat \<Rightarrow> rq_ptr option"
  d_hctx_driver :: "nat \<Rightarrow> nat option"
  d_sync :: "nat \<Rightarrow> sync_cmd_info option"
  d_async :: "nat \<Rightarrow> async_cmd_info option"
  d_chario :: "nat \<Rightarrow> chario_cmd_info option"
  d_queue_count :: u32
  d_online_queues :: u32
  d_page_size :: u32
  d_db_stride :: u32
  d_ctrl_config :: u32
  d_abort_limit :: u16
  d_event_limit :: u8
  d_admin_q :: bool
  d_reset_busy :: bool
  d_on_list :: bool
  d_jiffies :: u32
  d_stopped :: "nat \<Rightarrow> bool"
  d_dying :: "nat \<Rightarrow> bool"
  d_log :: "kevent list"

section \<open>Access to queues, requests and the log\<close>

definition kernel_log :: "kevent list \<Rightarrow> nvme_dev \<Rightarrow> nvme_dev" where
  "kernel_log evs dev = dev\<lparr>d_log := d_log dev @ evs\<rparr>"

text \<open>A queue that is NULL or outside the array is None: using it would crash.\<close>

definition get_queue :: "nvme_dev \<Rightarrow> nat \<Rightarrow> nvme_queue option" where
  "get_queue dev i = (if i < length (d_queues dev) then d_queues dev ! i else None)"

definition put_queue :: "nat \<Rightarrow> nvme_queue \<Rightarrow> nvme_dev \<Rightarrow> nvme_dev" where
  "put_queue i q dev = dev\<lparr>d_queues := (d_queues dev)[i := Some q]\<rparr>"

definition put_request :: "rq_ptr \<Rightarrow> request \<Rightarrow> nvme_dev \<Rightarrow> nvme_dev" where
  "put_request r req dev = dev\<lparr>d_requests := (d_requests dev)(r \<mapsto> req)\<rparr>"

lemma kernel_log_simps [simp]:
  "d_queues (kernel_log evs dev) = d_queues dev" "d_requests (kernel_log evs dev) = d_requests dev"
  "d_tag_to_rq (kernel_log evs dev) = d_tag_to_rq dev" "d_sync (kernel_log evs dev) = d_sync dev"
  "d_async (kernel_log evs dev) = d_async dev" "d_chario (kernel_log evs dev) = d_chario dev"
  "d_db_stride (kernel_log evs dev) = d_db_stride dev" "d_log (kernel_log evs dev) = d_log dev @ evs"
  "d_page_size (kernel_log evs dev) = d_page_size dev" "d_abort_limit (kernel_log evs dev) = d_abort_limit dev"
  "d_event_limit (kernel_log evs dev) = d_event_limit dev"
  by (simp_all add: kernel_log_def)

lemma kernel_log_nil [simp]: "kernel_log [] dev = dev"
  by (simp add: kernel_log_def)

lemma put_queue_simps [simp]:
  "d_requests (put_queue i q dev) = d_requests dev" "d_tag_to_rq (put_queue i q dev) = d_tag_to_rq dev"
  "d_sync (put_queue i q dev) = d_sync dev" "d_async (put_queue i q dev) = d_async dev"
  "d_chario (put_queue i q dev) = d_chario dev" "d_db_stride (put_queue i q dev) = d_db_stride dev"
  "d_log (put_queue i q dev) = d_log dev" "d_page_size (put_queue i q dev) = d_page_size dev"
  "d_abort_limit (put_queue i q dev) = d_abort_limit dev"
  "d_event_limit (put_queue i q dev) = d_event_limit dev"
  "length (d_queues (put_queue i q dev)) = length (d_queues dev)"
  by (simp_all add: put_queue_def)

lemma put_request_simps [simp]:
  "d_queues (put_request r rq dev) = d_queues dev"
  "d_requests (put_request r rq dev) = (d_requests dev)(r \<mapsto> rq)"
  "d_tag_to_rq (put_request r rq dev) = d_tag_to_rq dev" "d_log (put_request r rq dev) = d_log dev"
  "d_chario (put_request r rq dev) = d_chario dev" "d_sync (put_request r rq dev) = d_sync dev"
  "d_async (put_request r rq dev) = d_async dev" "d_db_stride (put_request r rq dev) = d_db_stride dev"
  "d_page_size (put_request r rq dev) = d_page_size dev"
  "d_abort_limit (put_request r rq dev) = d_abort_limit dev"
  "d_event_limit (put_request r rq dev) = d_event_limit dev"
  by (simp_all add: put_request_def)

lemma get_put_queue [simp]:
  "get_queue dev i = Some q \<Longrightarrow> get_queue (put_queue i q' dev) j = (if j = i then Some q' else get_queue dev j)"
  by (auto simp: get_queue_def put_queue_def split: if_splits)

lemma get_queue_log [simp]: "get_queue (kernel_log evs dev) i = get_queue dev i"
  by (simp add: get_queue_def)

lemma get_queue_updates [simp]:
  "get_queue (dev\<lparr>d_sync := x1\<rparr>) i = get_queue dev i" "get_queue (dev\<lparr>d_async := x2\<rparr>) i = get_queue dev i"
  "get_queue (dev\<lparr>d_chario := x3\<rparr>) i = get_queue dev i"
  "get_queue (dev\<lparr>d_abort_limit := x4\<rparr>) i = get_queue dev i"
  "get_queue (dev\<lparr>d_reset_busy := x5\<rparr>) i = get_queue dev i"
  "get_queue (dev\<lparr>d_on_list := x6\<rparr>) i = get_queue dev i"
  by (simp_all add: get_queue_def)

lemma get_queue_put_request [simp]: "get_queue (put_request r rq dev) i = get_queue dev i"
  by (simp add: get_queue_def)

section \<open>Queue and request initialisation callbacks of blk-mq\<close>

definition nvme_admin_init_hctx :: "nvme_dev \<Rightarrow> nat \<Rightarrow> (int \<times> nvme_dev) option" where
  "nvme_admin_init_hctx dev hctx =
     do { nvmeq \<leftarrow> get_queue dev 0;
          Some (0, (put_queue 0 (nvmeq\<lparr>q_hctx := Some hctx\<rparr>) dev)
                     \<lparr>d_hctx_driver := (d_hctx_driver dev)(hctx \<mapsto> 0)\<rparr>) }"

definition nvme_admin_init_request :: "nvme_dev \<Rightarrow> rq_ptr \<Rightarrow> (int \<times> nvme_dev) option" where
  "nvme_admin_init_request dev r =
     do { req \<leftarrow> d_requests dev r;
          _ \<leftarrow> get_queue dev 0;
          Some (0, put_request r (req\<lparr>rq_cmd := (rq_cmd req)\<lparr>ci_nvmeq := Some 0\<rparr>\<rparr>) dev) }"

definition nvme_exit_hctx :: "nvme_dev \<Rightarrow> nat \<Rightarrow> nvme_dev option" where
  "nvme_exit_hctx dev hctx =
     do { i \<leftarrow> d_hctx_driver dev hctx;
          nvmeq \<leftarrow> get_queue dev i;
          Some (put_queue i (nvmeq\<lparr>q_hctx := None\<rparr>) dev) }"

definition nvme_init_hctx :: "nvme_dev \<Rightarrow> nat \<Rightarrow> u32 \<Rightarrow> (int \<times> nvme_dev) option" where
  "nvme_init_hctx dev hctx hctx_idx =
     (if d_queue_count dev = 0 then None
      else let i = unat (hctx_idx mod d_queue_count dev + 1)
        in do { nvmeq \<leftarrow> get_queue dev i;
                let nvmeq' = (if q_hctx nvmeq = None then nvmeq\<lparr>q_hctx := Some hctx\<rparr> else nvmeq);
                Some (0, (put_queue i nvmeq' dev)
                           \<lparr>d_hctx_driver := (d_hctx_driver dev)(hctx \<mapsto> i)\<rparr>) })"

definition nvme_init_request :: "nvme_dev \<Rightarrow> rq_ptr \<Rightarrow> u32 \<Rightarrow> (int \<times> nvme_dev) option" where
  "nvme_init_request dev r hctx_idx =
     (let i = unat (hctx_idx + 1)
      in do { req \<leftarrow> d_requests dev r;
              _ \<leftarrow> get_queue dev i;
              Some (0, put_request r (req\<lparr>rq_cmd := (rq_cmd req)\<lparr>ci_nvmeq := Some i\<rparr>\<rparr>) dev) })"

definition nvme_set_info ::
  "rq_ptr \<Rightarrow> cmd_ctx \<Rightarrow> completion_fn \<Rightarrow> nvme_dev \<Rightarrow> nvme_dev option" where
  "nvme_set_info r ctx handler dev =
     do { req \<leftarrow> d_requests dev r;
          Some (kernel_log [StartRequest r]
            (put_request r (req\<lparr>rq_started := True,
               rq_cmd := (rq_cmd req)\<lparr>ci_fn := Some handler, ci_ctx := ctx, ci_aborted := 0\<rparr>\<rparr>) dev)) }"

end
