(* ===== verification/Nvme_Ring.thy ===== *)
theory Nvme_Ring
  imports Nvme_State
begin

text \<open>
  The submission queue: \<open>__nvme_submit_cmd\<close> and its callers, and its refinement to a FIFO queue
  between the driver and the controller.
\<close>

section \<open>Submitting a command\<close>

text \<open>
  \<open>sq_cmds[tail] = cmd; if (++tail == q_depth) tail = 0\<close>, which every submission path contains. A
  store outside the ring memory is None.
\<close>

definition sq_next :: "u16 \<Rightarrow> u16 \<Rightarrow> u16" where
  "sq_next depth tail' = (if tail' + 1 = depth then 0 else tail' + 1)"

definition sq_push :: "nvme_command \<Rightarrow> nvme_queue \<Rightarrow> nvme_queue option" where
  "sq_push cmd q =
     (let slot = unat (q_sq_tail q)
      in if slot < length (q_sq_cmds q)
         then Some (q\<lparr>q_sq_cmds := (q_sq_cmds q)[slot := cmd],
                      q_sq_tail := sq_next (q_depth q) (q_sq_tail q)\<rparr>)
         else None)"

definition submit_cmd_locked :: "nat \<Rightarrow> nvme_command \<Rightarrow> nvme_dev \<Rightarrow> (int \<times> nvme_dev) option" where
  "submit_cmd_locked i cmd dev =
     do { q \<leftarrow> get_queue dev i;
          q' \<leftarrow> sq_push cmd q;
          Some (0, put_queue i q' (kernel_log [Writel (q_db q) (ucast (q_sq_tail q'))] dev)) }"

definition nvme_submit_cmd :: "nat \<Rightarrow> nvme_command \<Rightarrow> nvme_dev \<Rightarrow> (int \<times> nvme_dev) option" where
  "nvme_submit_cmd i cmd dev = submit_cmd_locked i cmd dev"

definition nvme_submit_cmd_chario :: "nat \<Rightarrow> nvme_command \<Rightarrow> nvme_dev \<Rightarrow> (int \<times> nvme_dev) option" where
  "nvme_submit_cmd_chario i cmd dev = submit_cmd_locked i cmd dev"

section \<open>The ring as a FIFO queue\<close>

text \<open>
  The controller has fetched up to slot h; what it has still to fetch is the part of the ring
  from there to the tail. A ring is empty when head and tail agree, so one slot stays free.
\<close>

definition sq_ok :: "nvme_queue \<Rightarrow> bool" where
  "sq_ok q \<longleftrightarrow> length (q_sq_cmds q) = unat (q_depth q) \<and> q_sq_tail q < q_depth q"

definition sq_used :: "nat \<Rightarrow> nvme_queue \<Rightarrow> nat" where
  "sq_used h q = (unat (q_sq_tail q) + unat (q_depth q) - h) mod unat (q_depth q)"

definition sq_view :: "nat \<Rightarrow> nvme_queue \<Rightarrow> nvme_command list" where
  "sq_view h q = map (\<lambda>k. q_sq_cmds q ! ((h + k) mod unat (q_depth q))) [0..<sq_used h q]"

lemma unat_Suc_less: "(t :: 'a::len word) < d \<Longrightarrow> unat (t + 1) = Suc (unat t)"
proof -
  assume "t < d"
  then have "Suc (unat t) \<le> unat d" by (simp add: word_less_nat_alt)
  also have "unat d < 2 ^ LENGTH('a)" by (rule unsigned_less)
  finally show ?thesis by (simp add: unat_word_ariths)
qed

lemma unat_sq_next:
  assumes "t < d"
  shows "unat (sq_next d t) = Suc (unat t) mod unat d"
proof (cases "t + 1 = d")
  case True
  then show ?thesis using unat_Suc_less [OF assms] by (simp add: sq_next_def)
next
  case False
  with unat_Suc_less [OF assms] have "Suc (unat t) \<noteq> unat d" by (metis word_unat_eq_iff)
  with assms have "Suc (unat t) < unat d" by (simp add: word_less_nat_alt)
  with False unat_Suc_less [OF assms] show ?thesis by (simp add: sq_next_def)
qed

lemma sq_next_less: "t < d \<Longrightarrow> sq_next d t < d"
  by (simp add: word_less_nat_alt unat_sq_next)

lemma sq_used_less: "sq_ok q \<Longrightarrow> sq_used h q < unat (q_depth q)"
  by (simp add: sq_used_def sq_ok_def word_less_nat_alt)

lemma ring_step:
  assumes "t < (d :: nat)" "h < d" "(t + d - h) mod d + 1 < d"
  shows "(Suc t mod d + d - h) mod d = Suc ((t + d - h) mod d)" "(h + (t + d - h) mod d) mod d = t"
proof -
  have "(Suc t mod d + d - h) mod d = (Suc t mod d + (d - h)) mod d" using assms by simp
  also have "\<dots> = (Suc t + (d - h)) mod d" by (rule mod_add_left_eq)
  also have "\<dots> = Suc (t + d - h) mod d" using assms by simp
  also have "\<dots> = Suc ((t + d - h) mod d) mod d" by (simp add: mod_Suc_eq)
  finally show "(Suc t mod d + d - h) mod d = Suc ((t + d - h) mod d)" using assms by simp
  have "(h + (t + d - h) mod d) mod d = (h + (t + d - h)) mod d" by (rule mod_add_right_eq)
  then show "(h + (t + d - h) mod d) mod d = t" using assms by simp
qed

lemma sq_push_ok:
  assumes "sq_ok q"
  shows "\<exists>q'. sq_push c q = Some q' \<and> sq_ok q' \<and> q_depth q' = q_depth q \<and> q_db q' = q_db q
    \<and> q_cqes q' = q_cqes q \<and> q_qid q' = q_qid q
    \<and> unat (q_sq_tail q') = Suc (unat (q_sq_tail q)) mod unat (q_depth q)"
  using assms sq_next_less unat_sq_next
  by (auto simp: sq_push_def sq_ok_def word_less_nat_alt Let_def)

lemma sq_push_view:
  assumes "sq_ok q" "h < unat (q_depth q)" "sq_used h q + 1 < unat (q_depth q)" "sq_push c q = Some q'"
  shows "sq_view h q' = sq_view h q @ [c]"
proof -
  let ?d = "unat (q_depth q)" and ?t = "unat (q_sq_tail q)"
  have t: "?t < ?d" "q_sq_tail q < q_depth q" using assms(1) by (auto simp: sq_ok_def word_less_nat_alt)
  have q': "q_sq_cmds q' = (q_sq_cmds q)[?t := c]" "q_depth q' = q_depth q"
      "unat (q_sq_tail q') = Suc ?t mod ?d"
    using assms(4) unat_sq_next [OF t(2)] by (auto simp: sq_push_def Let_def split: if_splits)
  note step = ring_step [OF t(1) assms(2) assms(3) [unfolded sq_used_def]]
  have used: "sq_used h q' = Suc (sq_used h q)" using step(1) q' by (simp add: sq_used_def)
  have "?t \<noteq> (h + k) mod ?d" if "k < sq_used h q" for k
  proof
    assume "?t = (h + k) mod ?d"
    moreover have "(h + sq_used h q) mod ?d = ?t" using step(2) by (simp add: sq_used_def)
    ultimately have "(h + sq_used h q) mod ?d = (h + k) mod ?d" by simp
    then have "?d dvd (h + sq_used h q) - (h + k)" using that by (subst (asm) mod_eq_dvd_iff_nat) auto
    with that sq_used_less [OF assms(1), of h] show False by (auto dest: dvd_imp_le)
  qed
  then show ?thesis
    using used q' step(2) t(1) assms(1)
    by (auto simp: sq_view_def sq_used_def [symmetric] sq_ok_def)
qed

section \<open>The interface of a bounded FIFO queue\<close>

text \<open>
  What a client of a queue relies on: a push within the room appends to what the consumer will
  see. A sequence of pushes then appends the sequence.
\<close>

locale bounded_fifo =
  fixes inv :: "'q \<Rightarrow> bool"
    and view :: "'q \<Rightarrow> 'c list"
    and cap :: "'q \<Rightarrow> nat"
    and push :: "'c \<Rightarrow> 'q \<Rightarrow> 'q option"
  assumes push_spec: "inv q \<Longrightarrow> length (view q) < cap q \<Longrightarrow>
    \<exists>q'. push c q = Some q' \<and> inv q' \<and> view q' = view q @ [c] \<and> cap q' = cap q"
begin

fun push_all :: "'c list \<Rightarrow> 'q \<Rightarrow> 'q option" where
  "push_all [] q = Some q"
| "push_all (c # cs) q = Option.bind (push c q) (push_all cs)"

lemma push_all_view:
  "inv q \<Longrightarrow> length (view q) + length cs \<le> cap q \<Longrightarrow>
     \<exists>q'. push_all cs q = Some q' \<and> inv q' \<and> view q' = view q @ cs \<and> cap q' = cap q"
proof (induction cs arbitrary: q)
  case (Cons c cs)
  from push_spec [OF Cons.prems(1), of c] Cons.prems(2) obtain q' where
      q': "push c q = Some q'" "inv q'" "view q' = view q @ [c]" "cap q' = cap q" by auto
  from Cons.IH [of q'] q' Cons.prems(2) show ?case by auto
qed simp

end

lemma length_sq_view [simp]: "length (sq_view h q) = sq_used h q"
  by (simp add: sq_view_def)

interpretation sq: bounded_fifo
  "\<lambda>q. sq_ok q \<and> h < unat (q_depth q)" "sq_view h" "\<lambda>q. unat (q_depth q) - 1" sq_push
  for h
proof (unfold_locales, goal_cases)
  case (1 q c)
  then have q: "sq_ok q" "h < unat (q_depth q)" "sq_used h q + 1 < unat (q_depth q)" by auto
  from sq_push_ok [OF q(1), of c] obtain q' where "sq_push c q = Some q'" "sq_ok q'"
      "q_depth q' = q_depth q"
    by blast
  with sq_push_view [OF q, of c q'] q(2) show ?case by auto
qed

text \<open>The device-level submission: the queue is pushed, the doorbell shows the new tail.\<close>

fun submit_all :: "nat \<Rightarrow> nvme_command list \<Rightarrow> nvme_dev \<Rightarrow> nvme_dev option" where
  "submit_all i [] dev = Some dev"
| "submit_all i (c # cs) dev = do { (_, dev') \<leftarrow> submit_cmd_locked i c dev; submit_all i cs dev' }"

lemma submit_all_push_all:
  assumes "get_queue dev i = Some q" "sq.push_all cs q = Some q'"
  shows "\<exists>dev'. submit_all i cs dev = Some dev' \<and> get_queue dev' i = Some q'
    \<and> (\<forall>j. j \<noteq> i \<longrightarrow> get_queue dev' j = get_queue dev j)
    \<and> (\<exists>ws. d_log dev' = d_log dev @ ws \<and> length ws = length cs
          \<and> (cs \<noteq> [] \<longrightarrow> last ws = Writel (q_db q') (ucast (q_sq_tail q'))))"
  using assms
proof (induction cs arbitrary: dev q)
  case (Cons c cs)
  from Cons.prems(2) obtain q1 where q1: "sq_push c q = Some q1" "sq.push_all cs q1 = Some q'"
    by (auto split: bind_splits)
  let ?w = "Writel (q_db q) (ucast (q_sq_tail q1))"
  let ?dev1 = "put_queue i q1 (kernel_log [?w] dev)"
  have sub: "submit_cmd_locked i c dev = Some (0, ?dev1)"
    using Cons.prems(1) q1(1) by (simp add: submit_cmd_locked_def)
  have g: "get_queue ?dev1 j = (if j = i then Some q1 else get_queue dev j)" for j
    using Cons.prems(1) by simp
  from Cons.IH [of ?dev1 q1] g q1(2) obtain dev' ws where d: "submit_all i cs ?dev1 = Some dev'"
      "get_queue dev' i = Some q'" "\<forall>j. j \<noteq> i \<longrightarrow> get_queue dev' j = get_queue ?dev1 j"
      "d_log dev' = d_log ?dev1 @ ws" "length ws = length cs"
      "cs \<noteq> [] \<longrightarrow> last ws = Writel (q_db q') (ucast (q_sq_tail q'))"
    by auto
  have "last (?w # ws) = Writel (q_db q') (ucast (q_sq_tail q'))"
  proof (cases "cs = []")
    case True
    then show ?thesis using q1 d(5) by (auto simp: sq_push_def Let_def split: if_splits)
  next
    case False
    with d(5,6) show ?thesis by (cases ws) auto
  qed
  with sub d g show ?case by (auto intro!: exI [of _ "?w # ws"])
qed simp

section \<open>Properties\<close>

text \<open>
  C6: submission is a FIFO queue. As long as the commands fit beside those the controller has not
  fetched (h is its head), submitting the commands cs one after another appends exactly cs, in
  order, to what the controller will fetch, keeps the ring well-formed, and leaves the tail in
  the doorbell; no other queue changes.
\<close>

theorem submit_refines_fifo:
  assumes "get_queue dev i = Some q" "sq_ok q" "h < unat (q_depth q)" "cs \<noteq> []"
    "length (sq_view h q) + length cs < unat (q_depth q)"
  shows "\<exists>dev' q' ws. submit_all i cs dev = Some dev' \<and> get_queue dev' i = Some q' \<and> sq_ok q'
    \<and> sq_view h q' = sq_view h q @ cs
    \<and> (\<forall>j. j \<noteq> i \<longrightarrow> get_queue dev' j = get_queue dev j)
    \<and> d_log dev' = d_log dev @ ws \<and> last ws = Writel (q_db q') (ucast (q_sq_tail q'))"
proof -
  have "length (sq_view h q) + length cs \<le> unat (q_depth q) - 1" using assms(5) by linarith
  with sq.push_all_view [of q h cs] assms(2,3) obtain q' where
      "sq.push_all cs q = Some q'" "sq_ok q'" "sq_view h q' = sq_view h q @ cs" by blast
  with submit_all_push_all [OF assms(1)] assms(4) show ?thesis by blast
qed

definition sample_queue :: nvme_queue where
  "sample_queue = \<lparr>q_sq_cmds = replicate 4 (CmdCommon zero_common),
     q_cqes = replicate 4 \<lparr>cqe_result = 0, cqe_sq_head = 0, cqe_sq_id = 0, cqe_command_id = 0,
       cqe_status = 0\<rparr>,
     q_sq_dma_addr = 0x1000, q_cq_dma_addr = 0x2000, q_db = 2, q_depth = 4, q_cq_vector = 0,
     q_sq_head = 0, q_sq_tail = 3, q_cq_head = 0, q_qid = 1, q_cq_phase = 1, q_cqe_seen = 0,
     q_hctx = None, q_chario_cmds = replicate 32 (Some \<lparr>ci_fn = None, ci_ctx = CtxNull,
       ci_aborted = 0, ci_nvmeq = None\<rparr>), q_next_chario_tag = 0\<rparr>"

definition sample_dev :: nvme_dev where
  "sample_dev = \<lparr>d_queues = [Some (sample_queue\<lparr>q_qid := 0, q_db := 0\<rparr>), Some sample_queue],
     d_requests = Map.empty, d_tag_to_rq = (\<lambda>h t. None), d_hctx_driver = Map.empty,
     d_sync = Map.empty, d_async = Map.empty, d_chario = Map.empty, d_queue_count = 2,
     d_online_queues = 2, d_page_size = 4096, d_db_stride = 1, d_ctrl_config = 0, d_abort_limit = 1,
     d_event_limit = 1, d_admin_q = True, d_reset_busy = False, d_on_list = True, d_jiffies = 0,
     d_stopped = (\<lambda>_. False), d_dying = (\<lambda>_. False), d_log = []\<rparr>"

lemma sample_queue_sq: "sq_ok sample_queue" "length (sq_view 2 sample_queue) = 1" "q_depth sample_queue = 4"
  by (simp_all add: sample_queue_def sq_ok_def sq_used_def)

theorem submit_refines_fifo_witness:
  "\<exists>dev' q' ws. submit_all 1 [CmdRw zero_rw, CmdDsm zero_dsm] sample_dev = Some dev'
    \<and> get_queue dev' 1 = Some q' \<and> sq_ok q'
    \<and> sq_view 2 q' = sq_view 2 sample_queue @ [CmdRw zero_rw, CmdDsm zero_dsm]
    \<and> (\<forall>j. j \<noteq> 1 \<longrightarrow> get_queue dev' j = get_queue sample_dev j)
    \<and> d_log dev' = d_log sample_dev @ ws \<and> last ws = Writel (q_db q') (ucast (q_sq_tail q'))"
  by (rule submit_refines_fifo)
    (simp_all add: sample_queue_sq del: length_sq_view, simp add: sample_dev_def get_queue_def)

end
