(* ===== verification/Nvme_Complete.thy ===== *)
theory Nvme_Complete
  imports Nvme_Ring
begin

text \<open>
  Completion processing: the completion handlers, \<open>nvme_finish_cmd\<close>, \<open>nvme_process_cq\<close> and the
  interrupt handlers. The theorem on \<open>nvme_process_cq\<close> says that it consumes exactly the new
  entries of the completion queue, each once and in order, and that its endless loop ends after
  at most one lap.
\<close>

abbreviation REQ_MAX_BLOCKS :: int where "REQ_MAX_BLOCKS \<equiv> 32"

section \<open>Handlers\<close>

text \<open>A handler called with a context of another kind would use a wrong pointer: None.\<close>

definition cqe_code :: "nvme_completion \<Rightarrow> u16" where
  "cqe_code cqe = drop_bit 1 (cqe_status cqe)"

definition special_completion :: "cmd_ctx \<Rightarrow> nvme_completion \<Rightarrow> nvme_dev \<Rightarrow> nvme_dev option" where
  "special_completion ctx cqe dev = Some dev"

definition cancel_cmd_info :: "nvme_cmd_info \<Rightarrow> completion_fn option \<times> cmd_ctx \<times> nvme_cmd_info" where
  "cancel_cmd_info cmd =
     (ci_fn cmd, ci_ctx cmd,
      cmd\<lparr>ci_fn := Some special_completion_fn, ci_ctx := CMD_CTX_CANCELLED\<rparr>)"

definition async_req_completion :: "cmd_ctx \<Rightarrow> nvme_completion \<Rightarrow> nvme_dev \<Rightarrow> nvme_dev option" where
  "async_req_completion ctx cqe dev =
     Some (if cqe_code cqe = NVME_SC_SUCCESS \<or> cqe_code cqe = NVME_SC_ABORT_REQ
           then dev\<lparr>d_event_limit := d_event_limit dev + 1\<rparr> else dev)"

definition abort_completion :: "cmd_ctx \<Rightarrow> nvme_completion \<Rightarrow> nvme_dev \<Rightarrow> nvme_dev option" where
  "abort_completion ctx cqe dev =
     (case ctx of CtxReq r \<Rightarrow>
        Some ((kernel_log [FreeHctxRequest r] dev)\<lparr>d_abort_limit := d_abort_limit dev + 1\<rparr>)
      | _ \<Rightarrow> None)"

definition async_completion :: "cmd_ctx \<Rightarrow> nvme_completion \<Rightarrow> nvme_dev \<Rightarrow> nvme_dev option" where
  "async_completion ctx cqe dev =
     (case ctx of CtxAsync a \<Rightarrow>
        do { info \<leftarrow> d_async dev a;
             Some (kernel_log [QueueKthreadWork a, FreeHctxRequest (async_req info)]
               (dev\<lparr>d_async := (d_async dev)(a \<mapsto> info\<lparr>async_result := cqe_result cqe,
                      async_status := uint (cqe_code cqe)\<rparr>)\<rparr>)) }
      | _ \<Rightarrow> None)"

definition nvme_error_status :: "u16 \<Rightarrow> int" where
  "nvme_error_status status =
     (let code = status AND 0x7ff
      in if code = NVME_SC_SUCCESS then 0
         else if code = NVME_SC_CAP_EXCEEDED then - ENOSPC
         else - EIO)"

definition blk_noretry_request :: "request \<Rightarrow> bool" where
  "blk_noretry_request req \<longleftrightarrow>
     REQ_FAILFAST_DEV \<in> rq_flags req \<or> REQ_FAILFAST_TRANSPORT \<in> rq_flags req
     \<or> REQ_FAILFAST_DRIVER \<in> rq_flags req"

text \<open>
  \<open>req_completion\<close>: whether the request is retried, then the \<open>release_iod\<close> part that both ways
  share.
\<close>

definition req_should_requeue :: "nvme_dev \<Rightarrow> request \<Rightarrow> u16 \<Rightarrow> bool" where
  "req_should_requeue dev req status \<longleftrightarrow>
     status \<noteq> 0 \<and> \<not> (status AND NVME_SC_DNR \<noteq> 0 \<or> blk_noretry_request req)
     \<and> d_jiffies dev - rq_start_time req < rq_timeout req"

definition req_release_events :: "rq_ptr \<Rightarrow> request \<Rightarrow> nvme_iod \<Rightarrow> kevent list" where
  "req_release_events r req iod =
     (if iod_nents iod \<noteq> 0
      then [DmaUnmapSg r (rq_write req)]
           @ (if rq_integrity req
              then (if \<not> rq_write req then [DifComplete r] else []) @ [DmaUnmapMeta r (rq_write req)]
              else [])
      else [])"

definition req_completion :: "cmd_ctx \<Rightarrow> nvme_completion \<Rightarrow> nvme_dev \<Rightarrow> nvme_dev option" where
  "req_completion ctx cqe dev =
     (case ctx of CtxIod iod \<Rightarrow>
        (let r = iod_get_private iod; status = cqe_code cqe
         in do { req \<leftarrow> d_requests dev r;
                 let requeue = req_should_requeue dev req status;
                 let dev1 =
                   (if requeue
                    then kernel_log (RequeueRequest r
                           # (if \<not> d_stopped dev (rq_queue req) then [KickRequeueList (rq_queue req)] else []))
                           dev
                    else put_request r (req\<lparr>rq_errors :=
                           (if status \<noteq> 0 then nvme_error_status status else 0)\<rparr>) dev);
                 frees \<leftarrow> nvme_free_iod (d_page_size dev) iod;
                 Some (kernel_log (req_release_events r req iod @ map Freed frees
                         @ (if \<not> requeue then [CompleteRequest r] else [])) dev1) })
      | _ \<Rightarrow> None)"

definition sync_completion :: "cmd_ctx \<Rightarrow> nvme_completion \<Rightarrow> nvme_dev \<Rightarrow> nvme_dev option" where
  "sync_completion ctx cqe dev =
     (case ctx of CtxSync s \<Rightarrow>
        do { info \<leftarrow> d_sync dev s;
             Some (kernel_log [WakeUpProcess (sync_task info)]
               (dev\<lparr>d_sync := (d_sync dev)(s \<mapsto> info\<lparr>sync_result := cqe_result cqe,
                      sync_status := uint (cqe_code cqe)\<rparr>)\<rparr>)) }
      | _ \<Rightarrow> None)"

definition chario_completion :: "cmd_ctx \<Rightarrow> nvme_completion \<Rightarrow> nvme_dev \<Rightarrow> nvme_dev option" where
  "chario_completion ctx cqe dev =
     (case ctx of CtxChario s \<Rightarrow>
        do { info \<leftarrow> d_chario dev s;
             let remaining = chario_remaining info - REQ_MAX_BLOCKS;
             Some (kernel_log (if remaining < 0 then [WakeUpProcess (chario_task info)] else [])
               (dev\<lparr>d_chario := (d_chario dev)(s \<mapsto> info\<lparr>chario_remaining := remaining\<rparr>)\<rparr>)) }
      | _ \<Rightarrow> None)"

fun run_completion :: "completion_fn \<Rightarrow> cmd_ctx \<Rightarrow> nvme_completion \<Rightarrow> nvme_dev \<Rightarrow> nvme_dev option" where
  "run_completion special_completion_fn = special_completion"
| "run_completion async_req_completion_fn = async_req_completion"
| "run_completion abort_completion_fn = abort_completion"
| "run_completion async_completion_fn = async_completion"
| "run_completion req_completion_fn = req_completion"
| "run_completion sync_completion_fn = sync_completion"
| "run_completion chario_completion_fn = chario_completion"

section \<open>Finding the command of a completion\<close>

text \<open>
  \<open>get_cmd_from_tag\<close> reads \<open>nvmeq->hctx->tags\<close> (a NULL hctx crashes); the request found is only
  used after the depth check.
\<close>

definition get_cmd_from_tag :: "nvme_queue \<Rightarrow> nat \<Rightarrow> nvme_dev \<Rightarrow> rq_ptr option option" where
  "get_cmd_from_tag q tag dev = map_option (\<lambda>hctx. d_tag_to_rq dev hctx tag) (q_hctx q)"

definition finished :: "nvme_cmd_info \<Rightarrow> nvme_cmd_info" where
  "finished cmd = cmd\<lparr>ci_fn := Some special_completion_fn, ci_ctx := CMD_CTX_COMPLETED\<rparr>"

definition nvme_finish_cmd ::
  "nat \<Rightarrow> nat \<Rightarrow> nvme_dev \<Rightarrow> (cmd_ctx \<times> completion_fn option \<times> nvme_dev) option" where
  "nvme_finish_cmd i tag dev =
     do { q \<leftarrow> get_queue dev i;
          if q_qid q = 0 \<or> tag > 31
          then do { rq \<leftarrow> get_cmd_from_tag q tag dev;
                    if tag \<ge> unat (q_depth q)
                    then Some (CMD_CTX_INVALID, Some special_completion_fn, dev)
                    else do { r \<leftarrow> rq;
                              req \<leftarrow> d_requests dev r;
                              Some (ci_ctx (rq_cmd req), ci_fn (rq_cmd req),
                                put_request r (req\<lparr>rq_cmd := finished (rq_cmd req)\<rparr>) dev) } }
          else if tag \<ge> length (q_chario_cmds q) then None
          else if tag \<ge> unat (q_depth q)
          then Some (CMD_CTX_INVALID, Some special_completion_fn, dev)
          else do { cmd \<leftarrow> q_chario_cmds q ! tag;
                    Some (ci_ctx cmd, ci_fn cmd,
                      put_queue i (q\<lparr>q_chario_cmds := (q_chario_cmds q)[tag := Some (finished cmd)]\<rparr>)
                        dev) } }"

section \<open>The completion queue\<close>

text \<open>The body of the loop of \<open>nvme_process_cq\<close> for one new entry.\<close>

definition cq_consume :: "nat \<Rightarrow> nvme_completion \<Rightarrow> nvme_dev \<Rightarrow> nvme_dev option" where
  "cq_consume i cqe dev =
     do { q \<leftarrow> get_queue dev i;
          (ctx, fn, dev') \<leftarrow> nvme_finish_cmd i (unat (cqe_command_id cqe))
             (put_queue i (q\<lparr>q_sq_head := cqe_sq_head cqe\<rparr>) dev);
          f \<leftarrow> fn;
          run_completion f ctx cqe dev' }"

text \<open>
  The endless loop, with fuel: None is a crash or an exhausted fuel. An entry outside the ring
  memory is a crash.
\<close>

fun cq_loop :: "nat \<Rightarrow> nat \<Rightarrow> u16 \<Rightarrow> u16 \<Rightarrow> nvme_dev \<Rightarrow> (u16 \<times> u16 \<times> nvme_dev) option" where
  "cq_loop 0 i head phase dev = None"
| "cq_loop (Suc fuel) i head phase dev =
     do { q \<leftarrow> get_queue dev i;
          if unat head \<ge> length (q_cqes q) then None
          else let cqe = q_cqes q ! unat head
            in if cqe_status cqe AND 1 \<noteq> phase then Some (head, phase, dev)
               else do { dev' \<leftarrow> cq_consume i cqe dev;
                         if head + 1 = q_depth q
                         then cq_loop fuel i 0 (if phase = 0 then 1 else 0) dev'
                         else cq_loop fuel i (head + 1) phase dev' } }"

definition nvme_process_cq :: "nat \<Rightarrow> nvme_dev \<Rightarrow> (int \<times> nvme_dev) option" where
  "nvme_process_cq i dev =
     do { q \<leftarrow> get_queue dev i;
          (head, phase, dev') \<leftarrow> cq_loop (Suc (unat (q_depth q))) i (q_cq_head q) (ucast (q_cq_phase q)) dev;
          q' \<leftarrow> get_queue dev' i;
          if head = q_cq_head q' \<and> phase = ucast (q_cq_phase q') then Some (0, dev')
          else Some (1, put_queue i (q'\<lparr>q_cq_head := head, q_cq_phase := ucast phase, q_cqe_seen := 1\<rparr>)
                          (kernel_log [Writel (q_db q' + d_db_stride dev') (ucast head)] dev')) }"

section \<open>Interrupt handlers\<close>

datatype irqreturn = IRQ_NONE | IRQ_HANDLED | IRQ_WAKE_THREAD

definition nvme_irq :: "nat \<Rightarrow> nvme_dev \<Rightarrow> (irqreturn \<times> nvme_dev) option" where
  "nvme_irq i dev =
     do { (_, dev') \<leftarrow> nvme_process_cq i dev;
          q \<leftarrow> get_queue dev' i;
          Some (if q_cqe_seen q \<noteq> 0 then IRQ_HANDLED else IRQ_NONE,
                put_queue i (q\<lparr>q_cqe_seen := 0\<rparr>) dev') }"

definition nvme_irq_check :: "nat \<Rightarrow> nvme_dev \<Rightarrow> irqreturn option" where
  "nvme_irq_check i dev =
     do { q \<leftarrow> get_queue dev i;
          if unat (q_cq_head q) \<ge> length (q_cqes q) then None
          else Some (if cqe_status (q_cqes q ! unat (q_cq_head q)) AND 1 \<noteq> ucast (q_cq_phase q)
                     then IRQ_NONE else IRQ_WAKE_THREAD) }"

section \<open>What consuming a completion leaves alone\<close>

text \<open>The fields of a queue that only \<open>nvme_process_cq\<close> itself changes.\<close>

definition cq_fields :: "nvme_queue \<Rightarrow> nvme_completion list \<times> u16 \<times> u16 \<times> u8 \<times> u32 \<times> u16" where
  "cq_fields q = (q_cqes q, q_depth q, q_cq_head q, q_cq_phase q, q_db q, q_sq_tail q)"

definition cq_frame :: "nat \<Rightarrow> nvme_dev \<Rightarrow> nvme_dev \<Rightarrow> bool" where
  "cq_frame i dev dev' \<longleftrightarrow>
     map_option cq_fields (get_queue dev' i) = map_option cq_fields (get_queue dev i)
     \<and> d_db_stride dev' = d_db_stride dev"

lemma run_completion_frame:
  assumes "run_completion f ctx cqe dev = Some dev'"
  shows "d_queues dev' = d_queues dev" "d_db_stride dev' = d_db_stride dev"
    "d_tag_to_rq dev' = d_tag_to_rq dev"
  using assms
  by (cases f; force simp: special_completion_def async_req_completion_def abort_completion_def
        async_completion_def req_completion_def sync_completion_def chario_completion_def Let_def
      split: cmd_ctx.splits bind_splits if_splits)+

lemma nvme_finish_cmd_frame:
  assumes "nvme_finish_cmd i tag dev = Some (ctx, f, dev')"
  shows "cq_frame i dev dev'"
  using assms
  by (auto simp: nvme_finish_cmd_def cq_frame_def cq_fields_def split: bind_splits if_splits)

lemma get_queue_cong: "d_queues dev' = d_queues dev \<Longrightarrow> get_queue dev' i = get_queue dev i"
  by (simp add: get_queue_def)

lemma cq_consume_frame:
  assumes "cq_consume i cqe dev = Some dev'"
  shows "cq_frame i dev dev'"
proof -
  from assms obtain q ctx f dev1 where q: "get_queue dev i = Some q"
      "nvme_finish_cmd i (unat (cqe_command_id cqe)) (put_queue i (q\<lparr>q_sq_head := cqe_sq_head cqe\<rparr>) dev)
        = Some (ctx, Some f, dev1)" "run_completion f ctx cqe dev1 = Some dev'"
    by (auto simp: cq_consume_def split: bind_splits)
  have "cq_frame i (put_queue i (q\<lparr>q_sq_head := cqe_sq_head cqe\<rparr>) dev) dev1"
    by (rule nvme_finish_cmd_frame [OF q(2)])
  with q(1) run_completion_frame [OF q(3)] get_queue_cong [of dev' dev1 i] show ?thesis
    by (auto simp: cq_frame_def cq_fields_def)
qed

section \<open>The loop of nvme_process_cq\<close>

text \<open>
  The new entries of a completion queue, seen from its head: the k-th entry from there is new
  when its phase bit is the one of the current lap, or after the wrap-around the inverted one.
\<close>

definition cq_ok :: "nvme_queue \<Rightarrow> bool" where
  "cq_ok q \<longleftrightarrow> length (q_cqes q) = unat (q_depth q) \<and> q_cq_head q < q_depth q \<and> q_cq_phase q \<le> 1"

definition cq_head_at :: "nvme_queue \<Rightarrow> nat \<Rightarrow> u16" where
  "cq_head_at q k = of_nat ((unat (q_cq_head q) + k) mod unat (q_depth q))"

definition cq_phase_at :: "nvme_queue \<Rightarrow> nat \<Rightarrow> u16" where
  "cq_phase_at q k =
     (if unat (q_cq_head q) + k < unat (q_depth q) then ucast (q_cq_phase q)
      else if q_cq_phase q = 0 then 1 else 0)"

definition cq_entry :: "nvme_queue \<Rightarrow> nat \<Rightarrow> nvme_completion" where
  "cq_entry q k = q_cqes q ! ((unat (q_cq_head q) + k) mod unat (q_depth q))"

definition cq_fresh :: "nvme_queue \<Rightarrow> nat \<Rightarrow> bool" where
  "cq_fresh q k \<longleftrightarrow> cqe_status (cq_entry q k) AND 1 = cq_phase_at q k"

definition cq_new :: "nvme_queue \<Rightarrow> nvme_completion list" where
  "cq_new q = map (cq_entry q) (takeWhile (cq_fresh q) [0..<unat (q_depth q)])"

fun consume_all :: "nat \<Rightarrow> nvme_completion list \<Rightarrow> nvme_dev \<Rightarrow> nvme_dev option" where
  "consume_all i [] dev = Some dev"
| "consume_all i (c # cs) dev = do { dev' \<leftarrow> cq_consume i c dev; consume_all i cs dev' }"

lemma consume_all_frame: "consume_all i cs dev = Some dev' \<Longrightarrow> cq_frame i dev dev'"
proof (induction cs arbitrary: dev)
  case Nil
  then show ?case by (simp add: cq_frame_def)
next
  case (Cons c cs)
  then show ?case using cq_consume_frame
    by (fastforce simp: cq_frame_def split: bind_splits)
qed

lemma unat_cq_head_at:
  assumes "cq_ok q"
  shows "unat (cq_head_at q k) = (unat (q_cq_head q) + k) mod unat (q_depth q)"
proof -
  have "0 < unat (q_depth q)" using assms by (auto simp: cq_ok_def word_less_nat_alt)
  then have "(unat (q_cq_head q) + k) mod unat (q_depth q) < unat (q_depth q)" by simp
  also have "\<dots> < 2 ^ LENGTH(16)" by (rule unsigned_less)
  finally show ?thesis by (simp add: cq_head_at_def unat_of_nat)
qed

lemma cq_head_at_Suc:
  assumes "cq_ok q"
  shows "cq_head_at q (Suc k) = sq_next (q_depth q) (cq_head_at q k)"
proof -
  have d: "0 < unat (q_depth q)" using assms by (auto simp: cq_ok_def word_less_nat_alt)
  then have "cq_head_at q k < q_depth q" by (simp add: word_less_nat_alt unat_cq_head_at [OF assms])
  then show ?thesis
    using unat_sq_next [of "cq_head_at q k" "q_depth q"]
    by (simp add: word_unat_eq_iff unat_cq_head_at [OF assms] mod_Suc_eq)
qed

lemma cq_wrap_iff:
  assumes "cq_ok q" "k < unat (q_depth q)"
  shows "cq_head_at q k + 1 = q_depth q \<longleftrightarrow> unat (q_cq_head q) + k + 1 = unat (q_depth q)"
proof -
  let ?h = "unat (q_cq_head q)" and ?d = "unat (q_depth q)"
  have h: "?h < ?d" using assms by (auto simp: cq_ok_def word_less_nat_alt)
  have "cq_head_at q k < q_depth q"
    using h by (simp add: word_less_nat_alt unat_cq_head_at [OF assms(1)])
  then have "cq_head_at q k + 1 = q_depth q \<longleftrightarrow> Suc ((?h + k) mod ?d) = ?d"
    by (simp add: word_unat_eq_iff unat_Suc_less unat_cq_head_at [OF assms(1)])
  moreover have "(?h + k) mod ?d = (if ?h + k < ?d then ?h + k else ?h + k - ?d)"
    using h assms(2) by (simp add: le_mod_geq)
  ultimately show ?thesis using h assms(2) by auto
qed

lemma ucast_phase_eq_0: "(ucast (p :: u8) :: u16) = 0 \<longleftrightarrow> p = 0"
  using unsigned_less [of p, where ?'a = nat]
  by (simp add: word_unat_eq_iff unsigned_ucast_eq take_bit_nat_eq_self)

lemma cq_phase_at_Suc:
  assumes "cq_ok q" "k < unat (q_depth q)"
  shows "cq_phase_at q (Suc k) =
    (if cq_head_at q k + 1 = q_depth q then if cq_phase_at q k = 0 then 1 else 0 else cq_phase_at q k)"
  unfolding cq_wrap_iff [OF assms] by (auto simp: cq_phase_at_def ucast_phase_eq_0)

lemma cq_stop_after_lap:
  assumes "cq_ok q" "cq_fresh q 0"
  shows "\<not> cq_fresh q (unat (q_depth q))"
proof -
  have h: "unat (q_cq_head q) < unat (q_depth q)" using assms by (auto simp: cq_ok_def word_less_nat_alt)
  have "cq_entry q (unat (q_depth q)) = cq_entry q 0" by (simp add: cq_entry_def)
  moreover have "cq_phase_at q (unat (q_depth q)) \<noteq> cq_phase_at q 0"
    using h assms(1) ucast_phase_eq_0 by (auto simp: cq_phase_at_def)
  ultimately show ?thesis using assms(2) by (simp add: cq_fresh_def)
qed

lemma cq_loop_spec:
  assumes "cq_ok q" "map_option cq_fields (get_queue dev i) = Some (cq_fields q)"
    "k \<le> unat (q_depth q)" "\<forall>j<k. cq_fresh q j" "unat (q_depth q) - k < fuel"
  shows "cq_loop fuel i (cq_head_at q k) (cq_phase_at q k) dev =
    (let ks = takeWhile (cq_fresh q) [k..<unat (q_depth q)]
     in map_option (\<lambda>dev'. (cq_head_at q (k + length ks), cq_phase_at q (k + length ks), dev'))
          (consume_all i (map (cq_entry q) ks) dev))"
  using assms(2-5)
proof (induction fuel arbitrary: k dev)
  case (Suc fuel)
  from Suc.prems(1) obtain q1 where q1: "get_queue dev i = Some q1" "q_cqes q1 = q_cqes q"
      "q_depth q1 = q_depth q"
    by (auto simp: cq_fields_def)
  have d: "0 < unat (q_depth q)" using assms(1) by (auto simp: cq_ok_def word_less_nat_alt)
  have bound: "\<not> length (q_cqes q1) \<le> unat (cq_head_at q k)"
    using assms(1) q1(2) d by (simp add: unat_cq_head_at [OF assms(1)] cq_ok_def not_le)
  have entry: "q_cqes q1 ! unat (cq_head_at q k) = cq_entry q k"
    by (simp add: q1(2) unat_cq_head_at [OF assms(1)] cq_entry_def)
  show ?case
  proof (cases "cq_fresh q k")
    case False
    moreover have "takeWhile (cq_fresh q) [k..<unat (q_depth q)] = []"
      using False by (cases "k < unat (q_depth q)") (auto simp: upt_conv_Cons)
    moreover have "cqe_status (cq_entry q k) AND 1 \<noteq> cq_phase_at q k"
      using False by (simp add: cq_fresh_def)
    ultimately show ?thesis using q1(1) bound by (simp add: entry Let_def)
  next
    case True
    have k: "k < unat (q_depth q)"
    proof (rule ccontr)
      assume "\<not> k < unat (q_depth q)"
      with Suc.prems(2,3) d have "k = unat (q_depth q)" "cq_fresh q 0" by auto
      with cq_stop_after_lap [OF assms(1)] True show False by simp
    qed
    have ks: "takeWhile (cq_fresh q) [k..<unat (q_depth q)] = k # takeWhile (cq_fresh q) [Suc k..<unat (q_depth q)]"
      using k True by (simp add: upt_conv_Cons)
    have step: "cq_loop (Suc fuel) i (cq_head_at q k) (cq_phase_at q k) dev =
        Option.bind (cq_consume i (cq_entry q k) dev)
          (cq_loop fuel i (cq_head_at q (Suc k)) (cq_phase_at q (Suc k)))"
      using q1(1,3) bound True
      by (auto simp: entry cq_fresh_def cq_head_at_Suc [OF assms(1)] sq_next_def
          cq_phase_at_Suc [OF assms(1) k] fun_eq_iff split: bind_splits)
    show ?thesis
    proof (cases "cq_consume i (cq_entry q k) dev")
      case None
      then show ?thesis by (simp add: step ks del: cq_loop.simps)
    next
      case (Some dev1)
      have "map_option cq_fields (get_queue dev1 i) = Some (cq_fields q)"
        using cq_consume_frame [OF Some] Suc.prems(1) by (simp add: cq_frame_def)
      from Suc.IH [OF this, of "Suc k"] k True Suc.prems(3,4)
      have "cq_loop fuel i (cq_head_at q (Suc k)) (cq_phase_at q (Suc k)) dev1 =
          (let ks = takeWhile (cq_fresh q) [Suc k..<unat (q_depth q)]
           in map_option (\<lambda>dev'. (cq_head_at q (Suc k + length ks), cq_phase_at q (Suc k + length ks), dev'))
             (consume_all i (map (cq_entry q) ks) dev1))"
        by (auto simp: less_Suc_eq)
      with Some show ?thesis by (simp add: step ks Let_def del: cq_loop.simps)
    qed
  qed
qed simp

lemma length_cq_new_le: "length (cq_new q) \<le> unat (q_depth q)"
  using length_takeWhile_le [of "cq_fresh q" "[0..<unat (q_depth q)]"] by (simp add: cq_new_def)

lemma cq_at_0:
  assumes "cq_ok q"
  shows "cq_head_at q 0 = q_cq_head q" "cq_phase_at q 0 = ucast (q_cq_phase q)"
  using assms unat_cq_head_at [OF assms, of 0]
  by (auto simp: cq_ok_def cq_phase_at_def word_less_nat_alt word_unat_eq_iff)

text \<open>The head and phase come back to where they were only when nothing was consumed.\<close>

lemma cq_unmoved_iff:
  assumes "cq_ok q" "n \<le> unat (q_depth q)"
  shows "cq_head_at q n = q_cq_head q \<and> cq_phase_at q n = ucast (q_cq_phase q) \<longleftrightarrow> n = 0"
proof
  assume eq: "cq_head_at q n = q_cq_head q \<and> cq_phase_at q n = ucast (q_cq_phase q)"
  let ?h = "unat (q_cq_head q)" and ?d = "unat (q_depth q)"
  have h: "?h < ?d" using assms by (auto simp: cq_ok_def word_less_nat_alt)
  have "?h + n < ?d"
  proof (rule ccontr)
    assume "\<not> ?h + n < ?d"
    with eq have "(if q_cq_phase q = 0 then 1 else 0 :: u16) = ucast (q_cq_phase q)"
      by (simp add: cq_phase_at_def)
    then show False using ucast_phase_eq_0 [of "q_cq_phase q"] by (auto split: if_splits)
  qed
  moreover have "(?h + n) mod ?d = ?h" using eq unat_cq_head_at [OF assms(1), of n] by simp
  ultimately show "n = 0" by simp
qed (simp add: cq_at_0 [OF assms(1)])

lemma nvme_process_cq_spec:
  assumes q: "get_queue dev i = Some q" "cq_ok q"
  shows "nvme_process_cq i dev =
    Option.bind (consume_all i (cq_new q) dev)
      (\<lambda>dev'. if cq_new q = [] then Some (0, dev')
        else Option.bind (get_queue dev' i) (\<lambda>q'.
          Some (1, put_queue i (q'\<lparr>q_cq_head := cq_head_at q (length (cq_new q)),
                 q_cq_phase := ucast (cq_phase_at q (length (cq_new q))), q_cqe_seen := 1\<rparr>)
               (kernel_log [Writel (q_db q + d_db_stride dev)
                  (ucast (cq_head_at q (length (cq_new q))))] dev'))))"
proof -
  let ?n = "length (cq_new q)"
  have loop: "cq_loop (Suc (unat (q_depth q))) i (q_cq_head q) (ucast (q_cq_phase q)) dev
      = map_option (\<lambda>dev'. (cq_head_at q ?n, cq_phase_at q ?n, dev')) (consume_all i (cq_new q) dev)"
    using cq_loop_spec [OF q(2), of dev i 0 "Suc (unat (q_depth q))"] q(1) cq_at_0 [OF q(2)]
    by (simp add: cq_new_def Let_def del: cq_loop.simps)
  show ?thesis
  proof (cases "consume_all i (cq_new q) dev")
    case None
    then show ?thesis using q(1) loop by (simp add: nvme_process_cq_def del: cq_loop.simps)
  next
    case (Some dev')
    from consume_all_frame [OF Some] q(1) obtain q' where q': "get_queue dev' i = Some q'"
        "cq_fields q' = cq_fields q" "d_db_stride dev' = d_db_stride dev"
      by (auto simp: cq_frame_def)
    then have f: "q_cq_head q' = q_cq_head q" "q_cq_phase q' = q_cq_phase q" "q_db q' = q_db q"
      by (auto simp: cq_fields_def)
    have "?n = 0 \<longleftrightarrow> cq_head_at q ?n = q_cq_head q' \<and> cq_phase_at q ?n = ucast (q_cq_phase q')"
      using cq_unmoved_iff [OF q(2) length_cq_new_le] f by simp
    then show ?thesis using q(1) loop Some q' f
      by (simp add: nvme_process_cq_def del: cq_loop.simps)
  qed
qed

section \<open>Properties\<close>

text \<open>A queue with two new completions for character-device commands, for the examples.\<close>

definition sample_cqe :: "u16 \<Rightarrow> u16 \<Rightarrow> nvme_completion" where
  "sample_cqe tag status =
     \<lparr>cqe_result = 0, cqe_sq_head = 1, cqe_sq_id = 1, cqe_command_id = tag, cqe_status = status\<rparr>"

definition sample_cq :: nvme_queue where
  "sample_cq = sample_queue\<lparr>q_cq_head := 3,
     q_cqes := [sample_cqe 2 0, sample_cqe 0 1, sample_cqe 0 1, sample_cqe 1 1],
     q_chario_cmds := replicate 32 (Some \<lparr>ci_fn = Some chario_completion_fn, ci_ctx = CtxChario 0,
       ci_aborted = 0, ci_nvmeq = Some 1\<rparr>)\<rparr>"

definition sample_cq_dev :: nvme_dev where
  "sample_cq_dev = sample_dev\<lparr>d_queues := [None, Some sample_cq],
     d_chario := [0 \<mapsto> \<lparr>chario_task = 7, chario_result = 0, chario_status = -4, chario_remaining = 40\<rparr>]\<rparr>"

lemma sample_cq_ok: "get_queue sample_cq_dev 1 = Some sample_cq" "cq_ok sample_cq"
  by (simp_all add: sample_cq_dev_def get_queue_def cq_ok_def sample_cq_def sample_queue_def)

text \<open>
  C5: \<open>nvme_process_cq\<close> consumes exactly the new completions of the queue (\<open>cq_new\<close>: those with
  the phase of the current lap, from the head on), each once, in queue order. With none it
  changes nothing and returns 0; otherwise it returns 1, the head and the phase move past them,
  and the head doorbell shows the new head.
\<close>

theorem nvme_process_cq_consumes_new:
  assumes "get_queue dev i = Some q" "cq_ok q" "consume_all i (cq_new q) dev = Some dev'"
  shows "\<exists>q'. get_queue dev' i = Some q' \<and> nvme_process_cq i dev =
    (if cq_new q = [] then Some (0, dev)
     else Some (1, put_queue i (q'\<lparr>q_cq_head := cq_head_at q (length (cq_new q)),
                 q_cq_phase := ucast (cq_phase_at q (length (cq_new q))), q_cqe_seen := 1\<rparr>)
               (kernel_log [Writel (q_db q + d_db_stride dev)
                  (ucast (cq_head_at q (length (cq_new q))))] dev')))"
proof -
  from consume_all_frame [OF assms(3)] assms(1) obtain q' where "get_queue dev' i = Some q'"
    by (auto simp: cq_frame_def)
  then show ?thesis using assms by (auto simp: nvme_process_cq_spec [OF assms(1,2)])
qed

theorem nvme_process_cq_consumes_new_witness:
  "\<exists>dev' q'. consume_all 1 (cq_new sample_cq) sample_cq_dev = Some dev'
    \<and> cq_new sample_cq = [sample_cqe 1 1, sample_cqe 2 0]
    \<and> get_queue dev' 1 = Some q' \<and> nvme_process_cq 1 sample_cq_dev =
       (if cq_new sample_cq = [] then Some (0, sample_cq_dev)
        else Some (1, put_queue 1 (q'\<lparr>q_cq_head := cq_head_at sample_cq (length (cq_new sample_cq)),
              q_cq_phase := ucast (cq_phase_at sample_cq (length (cq_new sample_cq))), q_cqe_seen := 1\<rparr>)
            (kernel_log [Writel (q_db sample_cq + d_db_stride sample_cq_dev)
               (ucast (cq_head_at sample_cq (length (cq_new sample_cq))))] dev')))"
proof -
  have "cq_new sample_cq = [sample_cqe 1 1, sample_cqe 2 0]" by code_simp
  moreover have "consume_all 1 [sample_cqe 1 1, sample_cqe 2 0] sample_cq_dev \<noteq> None"
    by (simp add: cq_consume_def nvme_finish_cmd_def sample_cq_dev_def get_queue_def sample_cqe_def
        sample_cq_def sample_queue_def put_queue_def chario_completion_def finished_def kernel_log_def
        nth_list_update Let_def)
  ultimately show ?thesis
    using nvme_process_cq_consumes_new [OF sample_cq_ok] by fastforce
qed



lemma nvme_irq_check_new:
  assumes "get_queue dev i = Some q" "cq_ok q"
  shows "nvme_irq_check i dev = Some (if cq_new q = [] then IRQ_NONE else IRQ_WAKE_THREAD)"
proof -
  have h: "unat (q_cq_head q) < unat (q_depth q)" using assms(2) by (auto simp: cq_ok_def word_less_nat_alt)
  then have "cq_new q = [] \<longleftrightarrow> \<not> cq_fresh q 0"
    by (simp add: cq_new_def upt_conv_Cons)
  then show ?thesis
    using assms h by (auto simp: nvme_irq_check_def cq_fresh_def cq_entry_def cq_phase_at_def cq_ok_def)
qed

lemma cqe_seen_consume:
  assumes "cq_consume i c dev = Some dev'"
  shows "map_option q_cqe_seen (get_queue dev' i) = map_option q_cqe_seen (get_queue dev i)"
proof -
  from assms obtain q ctx f dev1 where q: "get_queue dev i = Some q"
      "nvme_finish_cmd i (unat (cqe_command_id c)) (put_queue i (q\<lparr>q_sq_head := cqe_sq_head c\<rparr>) dev)
        = Some (ctx, Some f, dev1)" "run_completion f ctx c dev1 = Some dev'"
    by (auto simp: cq_consume_def split: bind_splits)
  from q(2) q(1) have "map_option q_cqe_seen (get_queue dev1 i) = Some (q_cqe_seen q)"
    by (auto simp: nvme_finish_cmd_def split: bind_splits if_splits)
  with q(1) get_queue_cong [OF run_completion_frame(1) [OF q(3)]] show ?thesis by simp
qed

lemma cqe_seen_consume_all:
  "consume_all i cs dev = Some dev' \<Longrightarrow>
     map_option q_cqe_seen (get_queue dev' i) = map_option q_cqe_seen (get_queue dev i)"
  by (induction cs arbitrary: dev) (auto simp: cqe_seen_consume split: bind_splits)

text \<open>
  An interrupt is claimed exactly when it found new completions: on a queue with no
  completion pending from an earlier run, \<open>nvme_irq\<close> returns IRQ_HANDLED iff \<open>nvme_irq_check\<close> would
  have woken the interrupt thread.
\<close>

lemma nvme_irq_handled:
  assumes "get_queue dev i = Some q" "cq_ok q" "q_cqe_seen q = 0"
    "consume_all i (cq_new q) dev = Some dev'"
  shows "map_option fst (nvme_irq i dev)
    = map_option (\<lambda>r. if r = IRQ_WAKE_THREAD then IRQ_HANDLED else IRQ_NONE) (nvme_irq_check i dev)"
proof -
  from consume_all_frame [OF assms(4)] assms(1) obtain q' where q': "get_queue dev' i = Some q'"
    by (auto simp: cq_frame_def)
  then have "q_cqe_seen q' = 0" using cqe_seen_consume_all [OF assms(4)] assms(1,3) by simp
  with q' assms show ?thesis
    by (auto simp: nvme_irq_def nvme_process_cq_spec [OF assms(1,2)] nvme_irq_check_new [OF assms(1,2)])
qed

lemma nvme_irq_handled_witness:
  "map_option fst (nvme_irq 1 sample_cq_dev)
    = map_option (\<lambda>r. if r = IRQ_WAKE_THREAD then IRQ_HANDLED else IRQ_NONE)
        (nvme_irq_check 1 sample_cq_dev)"
proof -
  have "cq_new sample_cq = [sample_cqe 1 1, sample_cqe 2 0]" by code_simp
  moreover have "\<exists>d. consume_all 1 [sample_cqe 1 1, sample_cqe 2 0] sample_cq_dev = Some d"
    by (simp add: cq_consume_def nvme_finish_cmd_def sample_cq_dev_def get_queue_def sample_cqe_def
        sample_cq_def sample_queue_def put_queue_def chario_completion_def finished_def kernel_log_def
        nth_list_update Let_def)
  moreover have "q_cqe_seen sample_cq = 0" by (simp add: sample_cq_def sample_queue_def)
  ultimately show ?thesis
    using nvme_irq_handled [OF sample_cq_ok] by fastforce
qed

text \<open>
  C18: \<open>req_completion\<close> settles a request exactly once. It is handed back to the block layer as
  completed, with the error of the status, or it is requeued, never both; it is requeued only
  while it may be retried, and its descriptor is released either way.
\<close>

theorem req_completion_settles:
  assumes "req_completion (CtxIod iod) cqe dev = Some dev'"
  shows "\<exists>req evs frees. d_requests dev (iod_get_private iod) = Some req
    \<and> nvme_free_iod (d_page_size dev) iod = Some frees
    \<and> d_log dev' = d_log dev @ evs \<and> set (map Freed frees) \<subseteq> set evs
    \<and> (if req_should_requeue dev req (cqe_code cqe)
       then RequeueRequest (iod_get_private iod) \<in> set evs
         \<and> CompleteRequest (iod_get_private iod) \<notin> set evs \<and> d_requests dev' = d_requests dev
       else CompleteRequest (iod_get_private iod) \<in> set evs
         \<and> RequeueRequest (iod_get_private iod) \<notin> set evs
         \<and> map_option rq_errors (d_requests dev' (iod_get_private iod))
             = Some (if cqe_code cqe = 0 then 0 else nvme_error_status (cqe_code cqe)))"
proof -
  from assms obtain req frees where r: "d_requests dev (iod_get_private iod) = Some req"
      "nvme_free_iod (d_page_size dev) iod = Some frees"
    by (auto simp: req_completion_def Let_def split: bind_splits)
  with assms show ?thesis
    by (intro exI [of _ req] exI [of _ frees] exI [of _ "drop (length (d_log dev)) (d_log dev')"])
      (auto simp: req_completion_def Let_def req_release_events_def)
qed

definition sample_req :: request where
  "sample_req = \<lparr>rq_tag = 40, rq_flags = {}, rq_write = True, rq_bytes = 4096, rq_pos = 8,
     rq_nr_phys_segments = 1, rq_integrity = False, rq_meta_dma = 0, rq_errors = 0,
     rq_start_time = 0, rq_timeout = 3000, rq_queue = 3, rq_started = True,
     rq_cmd = \<lparr>ci_fn = Some req_completion_fn, ci_ctx = CtxNull, ci_aborted = 0, ci_nvmeq = Some 1\<rparr>\<rparr>"

definition sample_done_iod :: nvme_iod where
  "sample_done_iod = \<lparr>iod_npages = -1, iod_blocks = [], iod_list = [], iod_private = 0x8001,
     iod_offset = 0, iod_nents = 1, iod_length = 4096, iod_first_dma = 0, iod_sg = [(0x10000, 4096)]\<rparr>"

definition sample_req_dev :: nvme_dev where
  "sample_req_dev = sample_dev\<lparr>d_requests := [0x8000 \<mapsto> sample_req]\<rparr>"

theorem req_completion_settles_witness:
  "\<exists>dev'. req_completion (CtxIod sample_done_iod) (sample_cqe 40 0x8102) sample_req_dev = Some dev'
    \<and> (\<exists>req evs frees. d_requests sample_req_dev (iod_get_private sample_done_iod) = Some req
    \<and> nvme_free_iod (d_page_size sample_req_dev) sample_done_iod = Some frees
    \<and> d_log dev' = d_log sample_req_dev @ evs \<and> set (map Freed frees) \<subseteq> set evs
    \<and> (if req_should_requeue sample_req_dev req (cqe_code (sample_cqe 40 0x8102))
       then RequeueRequest (iod_get_private sample_done_iod) \<in> set evs
         \<and> CompleteRequest (iod_get_private sample_done_iod) \<notin> set evs
         \<and> d_requests dev' = d_requests sample_req_dev
       else CompleteRequest (iod_get_private sample_done_iod) \<in> set evs
         \<and> RequeueRequest (iod_get_private sample_done_iod) \<notin> set evs
         \<and> map_option rq_errors (d_requests dev' (iod_get_private sample_done_iod))
             = Some (if cqe_code (sample_cqe 40 0x8102) = 0 then 0
                     else nvme_error_status (cqe_code (sample_cqe 40 0x8102)))))"
proof -
  have "\<exists>dev'. req_completion (CtxIod sample_done_iod) (sample_cqe 40 0x8102) sample_req_dev = Some dev'"
    by (simp add: req_completion_def iod_get_private_def sample_done_iod_def nvme_free_iod_def
        free_prp_blocks_def iod_should_kfree_def sample_req_dev_def Let_def)
  with req_completion_settles show ?thesis by blast
qed



end
