(* ===== verification/Prp_Correct.thy ===== *)
theory Prp_Correct
  imports Nvme_Prp
begin

text \<open>
  Correctness of the PRP lists. The specification is what the controller does with a command:
  \<open>prp_walk\<close> follows the list pages from the address in PRP2 through the memory of the pool
  blocks, as the NVMe specification describes. The theorems say that the controller reads
  exactly the pages of the scatterlist, in order, that the set-up code cannot crash on a
  scatterlist whose inner entries end on page boundaries, and that freeing returns every
  block with the bus address it was allocated at.
\<close>

section \<open>The controller's view\<close>

text \<open>
  \<open>prp_walk mem n a\<close>: read n data pointers from the list page at bus address a. A page that
  has room for all of them is read up to there; otherwise its last entry is the address of
  the next page.
\<close>

function prp_walk :: "(dma_addr \<rightharpoonup> u64 list) \<Rightarrow> nat \<Rightarrow> dma_addr \<Rightarrow> u64 list option" where
  "prp_walk mem n a =
     (case mem a of None \<Rightarrow> None
      | Some es \<Rightarrow>
          if n \<le> length es then Some (take n es)
          else if length es < 2 then None
          else map_option ((@) (butlast es))
                 (prp_walk mem (n - (length es - 1)) (ucast (last es))))"
  by pat_completeness auto
termination
  by (relation "measure (\<lambda>(mem, n, a). n)") auto

declare prp_walk.simps [simp del]

text \<open>The page addresses of one mapped segment and of a scatterlist.\<close>

definition seg_pages :: "u32 \<Rightarrow> u64 \<Rightarrow> int \<Rightarrow> u64 list" where
  "seg_pages ps a l =
     map (\<lambda>j. a + of_nat j * ucast ps) [0..<nat ((l + uint ps - 1) div uint ps)]"

definition sg_pages :: "u32 \<Rightarrow> scatterlist \<Rightarrow> u64 list" where
  "sg_pages ps sg = concat (map (\<lambda>(a, l). seg_pages ps (ucast a) (int l)) sg)"

text \<open>Every segment but the one that holds the last byte ends on a page boundary.\<close>

fun sg_ok :: "int \<Rightarrow> int list \<Rightarrow> int \<Rightarrow> bool" where
  "sg_ok ps [] len \<longleftrightarrow> False"
| "sg_ok ps (l # ls) len \<longleftrightarrow> 0 < l \<and> (len \<le> l \<or> ps dvd l \<and> sg_ok ps ls (len - l))"

abbreviation sg_lens :: "scatterlist \<Rightarrow> int list" where
  "sg_lens sg \<equiv> map (int \<circ> snd) sg"

abbreviation pages_for :: "u32 \<Rightarrow> int \<Rightarrow> nat" where
  "pages_for ps len \<equiv> nat ((len + uint ps - 1) div uint ps)"

section \<open>The invariant of the fill loop\<close>

fun linked :: "prp_block list \<Rightarrow> bool" where
  "linked (b # c # bs) \<longleftrightarrow> snd b \<noteq> [] \<and> last (snd b) = ucast (fst c) \<and> linked (c # bs)"
| "linked _ \<longleftrightarrow> True"

lemma linked_snoc2:
  "linked (bs @ [b, c]) \<longleftrightarrow> linked (bs @ [b]) \<and> snd b \<noteq> [] \<and> last (snd b) = ucast (fst c)"
  by (induction bs rule: linked.induct) auto

lemma linked_last_any: "linked (bs @ [(d, es)]) \<Longrightarrow> linked (bs @ [(d, es')])"
proof (induction bs rule: rev_induct)
  case (snoc b bs)
  then show ?case by (simp add: linked_snoc2 del: linked.simps)
qed simp

definition full_data :: "prp_block list \<Rightarrow> u64 list" where
  "full_data bs = concat (map (butlast \<circ> snd) bs)"

text \<open>
  \<open>prp_inv pa N i es D st\<close>: the current block holds \<open>es\<close>, of which i entries are written; the
  earlier blocks are full pages of N entries, each linked to the next; read in order they
  hold the data pointers D; the blocks are the ones the pool returned.
\<close>

definition prp_inv ::
  "pool_alloc \<Rightarrow> nat \<Rightarrow> nat \<Rightarrow> u64 list \<Rightarrow> u64 list \<Rightarrow> 'a prp_state_scheme \<Rightarrow> bool" where
  "prp_inv pa N i es D st \<longleftrightarrow>
     (\<exists>bs d. iod_blocks st = bs @ [(d, es)] \<and> (\<forall>b\<in>set bs. length (snd b) = N)
        \<and> linked (bs @ [(d, es)]) \<and> i \<le> length es \<and> (bs \<noteq> [] \<longrightarrow> 1 \<le> i)
        \<and> D = full_data bs @ take i es
        \<and> iod_list st = [0..<Suc (length bs)]
        \<and> map (Some \<circ> fst) (iod_blocks st)
            = map (\<lambda>k. map_option fst (pa k)) [0..<Suc (length bs)]
        \<and> (iod_npages st = int (Suc (length bs)) \<or> bs = [] \<and> iod_npages st = 0))"

lemma prp_store_inv:
  assumes "prp_inv pa N i es D st" "i < length es"
  shows "\<exists>st'. prp_store st i a = Some st' \<and> prp_inv pa N (Suc i) (es[i := a]) (D @ [a]) st'
    \<and> iod_npages st' = iod_npages st \<and> length (iod_blocks st') = length (iod_blocks st)
    \<and> prp_state.more st' = prp_state.more st
    \<and> (length (iod_blocks st') = 1 \<or> 2 \<le> Suc i)"
proof -
  from assms(1) obtain bs d where b: "iod_blocks st = bs @ [(d, es)]"
      "\<forall>b\<in>set bs. length (snd b) = N" "linked (bs @ [(d, es)])" "D = full_data bs @ take i es"
      "bs \<noteq> [] \<longrightarrow> 1 \<le> i"
      "iod_list st = [0..<Suc (length bs)]"
      "map (Some \<circ> fst) (iod_blocks st) = map (\<lambda>k. map_option fst (pa k)) [0..<Suc (length bs)]"
      "iod_npages st = int (Suc (length bs)) \<or> bs = [] \<and> iod_npages st = 0"
    by (auto simp: prp_inv_def)
  let ?st' = "st\<lparr>iod_blocks := bs @ [(d, es[i := a])]\<rparr>"
  have "prp_store st i a = Some ?st'"
    using assms(2) by (simp add: prp_store_def b(1))
  moreover have "prp_inv pa N (Suc i) (es[i := a]) (D @ [a]) ?st'"
    unfolding prp_inv_def
    using assms(2) b linked_last_any [OF b(3)]
    by (intro exI [of _ bs] exI [of _ d]) (simp add: take_Suc_conv_app_nth)
  ultimately show ?thesis using b(5) by (auto simp: b(1))
qed

lemma prp_chain_inv:
  assumes inv: "prp_inv pa N N es D st" and len: "length es = N" "1 < N" "length es' = N"
    and np: "iod_npages st = int (length (iod_blocks st))"
    and pa: "pa (length (iod_blocks st)) = Some (d', es')"
  shows "\<exists>st'. prp_chain st N (d', es') = Some st'
    \<and> prp_inv pa N 1 (es'[0 := es ! (N - 1)]) D st'
    \<and> iod_npages st' = int (length (iod_blocks st'))
    \<and> length (iod_blocks st') = Suc (length (iod_blocks st))
    \<and> prp_state.more st' = prp_state.more st"
proof -
  from inv obtain bs d where b: "iod_blocks st = bs @ [(d, es)]"
      "\<forall>b\<in>set bs. length (snd b) = N" "linked (bs @ [(d, es)])" "D = full_data bs @ take N es"
      "iod_list st = [0..<Suc (length bs)]"
      "map (Some \<circ> fst) (iod_blocks st) = map (\<lambda>k. map_option fst (pa k)) [0..<Suc (length bs)]"
    by (auto simp: prp_inv_def)
  let ?old = "(d, es[N - 1 := ucast d'])" and ?new = "(d', es'[0 := es ! (N - 1)])"
  let ?st' = "st\<lparr>iod_list := [0..<Suc (Suc (length bs))],
      iod_npages := int (Suc (Suc (length bs))), iod_blocks := bs @ [?old, ?new]\<rparr>"
  have "put_at (iod_list st) (nat (iod_npages st)) (length (iod_blocks st))
      = [0..<Suc (Suc (length bs))]"
    using np b(1,5) by (simp add: put_at_def)
  then have "prp_chain st N (d', es') = Some ?st'"
    using len np by (auto simp: prp_chain_def b(1))
  moreover have "linked (bs @ [?old, ?new])"
    using len linked_last_any [OF b(3), of "es[N - 1 := ucast d']"]
    by (auto simp: linked_snoc2 last_list_update simp flip: length_greater_0_conv)
  moreover have "D = full_data (bs @ [?old]) @ take 1 (snd ?new)"
    using len b(4)
    by (cases es'; cases es rule: rev_cases) (auto simp: full_data_def butlast_list_update)
  ultimately show ?thesis
    using len b(1,2,6) pa
    by (intro exI [of _ ?st']) (auto simp: prp_inv_def intro!: exI [of _ "bs @ [?old]"])
qed

section \<open>The fill loop\<close>

lemma seg_pages_step:
  assumes "0 < l" "ps \<noteq> 0"
  shows "seg_pages ps a l = a # seg_pages ps (a + ucast ps) (l - uint ps)"
proof -
  from assms(2) have ps: "0 < uint ps" by (simp add: word_neq_0_conv word_less_def)
  define n where "n = nat ((l - uint ps + uint ps - 1) div uint ps)"
  have "l + uint ps - 1 = (l - uint ps + uint ps - 1) + uint ps" by simp
  then have "(l + uint ps - 1) div uint ps = (l - uint ps + uint ps - 1) div uint ps + 1"
    using ps by (metis div_add_self2 less_irrefl)
  moreover have "0 \<le> (l - uint ps + uint ps - 1) div uint ps"
    using assms(1) ps by (simp add: pos_imp_zdiv_nonneg_iff)
  ultimately have "nat ((l + uint ps - 1) div uint ps) = Suc n"
    by (simp add: n_def)
  moreover have "map (\<lambda>j. a + of_nat j * ucast ps) [0..<Suc n]
      = a # map (\<lambda>j. a + ucast ps + of_nat j * ucast ps) [0..<n]"
    by (simp add: upt_conv_Cons map_Suc_upt [symmetric] algebra_simps del: upt_Suc)
  ultimately show ?thesis
    by (simp only: seg_pages_def n_def)
qed

lemma seg_pages_nil: "l \<le> 0 \<Longrightarrow> seg_pages ps a l = []"
proof -
  assume "l \<le> 0"
  show ?thesis
  proof (cases "uint ps = 0")
    case False
    then have "0 < uint ps" using uint_ge_0 [of ps] by linarith
    then have "(l + uint ps - 1) div uint ps \<le> 0"
      using \<open>l \<le> 0\<close> zdiv_mono1 [of "l + uint ps - 1" "uint ps - 1" "uint ps"] by simp
    then show ?thesis by (simp add: seg_pages_def)
  qed (simp add: seg_pages_def)
qed

lemma pages_for_step:
  assumes "0 < len" "ps \<noteq> 0"
  shows "pages_for ps len = Suc (pages_for ps (len - uint ps))"
proof -
  have "length (seg_pages ps 0 len) = Suc (length (seg_pages ps (0 + ucast ps) (len - uint ps)))"
    using seg_pages_step [OF assms, of 0] by simp
  then show ?thesis by (simp add: seg_pages_def)
qed

text \<open>
  Either the list grows by whole pages (\<open>pg\<close>: npages counts them), or it is one block of the
  small pool and what is left fits there.
\<close>

definition prp_fit ::
  "bool \<Rightarrow> pool_alloc \<Rightarrow> nat \<Rightarrow> u32 \<Rightarrow> nat \<Rightarrow> u64 list \<Rightarrow> int \<Rightarrow> 'a prp_state_scheme \<Rightarrow> bool" where
  "prp_fit pg pa N ps i es len st \<longleftrightarrow>
     (if pg then length es = N \<and> iod_npages st = int (length (iod_blocks st))
               \<and> (\<forall>k d es'. pa k = Some (d, es') \<longrightarrow> length es' = N)
      else iod_npages st = 0 \<and> length (iod_blocks st) = 1 \<and> length es = 32
               \<and> i + pages_for ps len \<le> min (length es) N)"

lemma prp_slot:
  assumes "prp_inv pa N i es D st" "1 < N" "prp_fit pg pa N ps i es len st" "0 < len" "ps \<noteq> 0"
    "\<not> (i = N \<and> pa (length (iod_blocks st)) = None)"
  shows "\<exists>st1 i1 es1.
     (if i = N then Option.bind (prp_chain st i (the (pa (length (iod_blocks st)))))
                      (\<lambda>st'. Some (st', 1))
      else Some (st, i)) = Some (st1, i1)
     \<and> prp_inv pa N i1 es1 D st1 \<and> i1 < length es1 \<and> prp_fit pg pa N ps i1 es1 len st1
     \<and> prp_state.more st1 = prp_state.more st"
proof (cases "i = N")
  case True
  with assms(6) obtain d' es' where pa: "pa (length (iod_blocks st)) = Some (d', es')" by auto
  have "0 < pages_for ps len" using pages_for_step [OF assms(4,5)] by simp
  with assms(3) True have fit: "length es = N" "iod_npages st = int (length (iod_blocks st))"
      "\<forall>k d es'. pa k = Some (d, es') \<longrightarrow> length es' = N"
    by (auto simp: prp_fit_def split: if_splits)
  with pa have "length es' = N" by blast
  have "prp_inv pa N N es D st" using assms(1) True by simp
  from prp_chain_inv [OF this fit(1) assms(2) \<open>length es' = N\<close> fit(2) pa]
  obtain st' where "prp_chain st N (d', es') = Some st'"
      "prp_inv pa N 1 (es'[0 := es ! (N - 1)]) D st'"
      "iod_npages st' = int (length (iod_blocks st'))"
      "prp_state.more st' = prp_state.more st"
    by blast
  moreover have pg using assms(3) True \<open>0 < pages_for ps len\<close>
    by (auto simp: prp_fit_def split: if_splits)
  ultimately show ?thesis using True pa fit(3) assms(2) \<open>length es' = N\<close>
    by (auto simp: prp_fit_def intro!: exI [of _ "es'[0 := es ! (N - 1)]"])
next
  case False
  from assms(1) have "i \<le> length es" by (auto simp: prp_inv_def)
  moreover have "0 < pages_for ps len" using pages_for_step [OF assms(4,5)] by simp
  ultimately have "i < length es" using assms(3) False by (auto simp: prp_fit_def split: if_splits)
  with False assms show ?thesis by auto
qed

text \<open>What the loop establishes, from data D and with \<open>len\<close> bytes on \<open>pages\<close> to go.\<close>

definition fill_post ::
  "bool \<Rightarrow> pool_alloc \<Rightarrow> nat \<Rightarrow> u32 \<Rightarrow> u64 list \<Rightarrow> int \<Rightarrow> u64 list \<Rightarrow> 'a
     \<Rightarrow> ((int + unit) \<times> 'a prp_state_scheme) option \<Rightarrow> bool" where
  "fill_post pg pa N ps D len pages m out \<longleftrightarrow>
     (\<exists>r st' i' es' D'. out = Some (r, st') \<and> prp_inv pa N i' es' D' st'
        \<and> prp_state.more st' = m
        \<and> prp_fit pg pa N ps i' es' (case r of Inl rest \<Rightarrow> rest | Inr _ \<Rightarrow> 0) st'
        \<and> (length (iod_blocks st') = 1 \<or> 2 \<le> i')
        \<and> length D' \<le> length D + pages_for ps len
        \<and> (case r of Inl rest \<Rightarrow> 0 < rest \<and> rest \<le> len \<and> i' = N \<and> pa (length (iod_blocks st')) = None
            | Inr _ \<Rightarrow> D' = D @ take (pages_for ps len) pages))"

lemma fill_post_step:
  assumes "fill_post pg pa N ps (D @ [a]) (len - uint ps) pages m out" "0 < len" "ps \<noteq> 0"
  shows "fill_post pg pa N ps D len (a # pages) m out"
proof -
  from assms(1) obtain r st' i' es' D' where r: "out = Some (r, st')" "prp_inv pa N i' es' D' st'"
      "prp_state.more st' = m"
      "prp_fit pg pa N ps i' es' (case r of Inl rest \<Rightarrow> rest | Inr _ \<Rightarrow> 0) st'"
      "length (iod_blocks st') = 1 \<or> 2 \<le> i'"
      "length D' \<le> length (D @ [a]) + pages_for ps (len - uint ps)"
      "case r of Inl rest \<Rightarrow> 0 < rest \<and> rest \<le> len - uint ps \<and> i' = N \<and> pa (length (iod_blocks st')) = None
       | Inr _ \<Rightarrow> D' = (D @ [a]) @ take (pages_for ps (len - uint ps)) pages"
    unfolding fill_post_def by blast
  have weaken: "rest \<le> len - uint ps \<Longrightarrow> rest \<le> len" for rest
    using uint_ge_0 [of ps] by linarith
  from r(7) have "case r of Inl rest \<Rightarrow> 0 < rest \<and> rest \<le> len \<and> i' = N \<and> pa (length (iod_blocks st')) = None
       | Inr _ \<Rightarrow> D' = D @ take (pages_for ps len) (a # pages)"
    using pages_for_step [OF assms(2,3)] by (cases r) (auto intro: weaken)
  moreover have "length D' \<le> length D + pages_for ps len"
    using r(6) pages_for_step [OF assms(2,3)] by simp
  ultimately show ?thesis unfolding fill_post_def using r(1-5) by blast
qed

lemma prp_fill_inv:
  assumes "prp_inv pa N i es D st" "ps \<noteq> 0" "N = unat (drop_bit 3 ps)" "1 < N"
    "prp_fit pg pa N ps i es len st" "sg_ok (uint ps) (dl # sg_lens (tl sg)) len" "0 < len"
  shows "fill_post pg pa N ps D len (seg_pages ps da dl @ sg_pages ps (tl sg)) (prp_state.more st)
     (prp_fill pa ps st i sg dl da len)"
  using assms
proof (induction "nat len" arbitrary: len i es D st sg dl da rule: less_induct)
  case less
  note inv = less.prems(1) and ps = less.prems(2) and N = less.prems(3)
    and fit = less.prems(5) and ok = less.prems(6) and len = less.prems(7)
  have ps0: "0 < uint ps" using ps by (simp add: word_neq_0_conv word_less_def)
  show ?case
  proof (cases "i = N \<and> pa (length (iod_blocks st)) = None")
    case True
    then have "prp_fill pa ps st i sg dl da len = Some (Inl len, st)"
      using ps N by (subst prp_fill.simps) auto
    moreover have "2 \<le> i" "length D \<le> length D + pages_for ps len" using True less.prems(4) by auto
    ultimately show ?thesis unfolding fill_post_def using inv fit len True
      by (intro exI [of _ "Inl len"]) fastforce
  next
    case False
    from prp_slot [OF inv less.prems(4) fit len ps False]
    obtain st1 i1 es1 where slot: "(if i = N then Option.bind (prp_chain st i
          (the (pa (length (iod_blocks st))))) (\<lambda>st'. Some (st', 1)) else Some (st, i)) = Some (st1, i1)"
        and s1: "prp_inv pa N i1 es1 D st1" "i1 < length es1" "prp_fit pg pa N ps i1 es1 len st1"
        "prp_state.more st1 = prp_state.more st"
      by blast
    from prp_store_inv [OF s1(1,2), of da]
    obtain st2 where store: "prp_store st1 i1 da = Some st2"
        and s2: "prp_inv pa N (Suc i1) (es1[i1 := da]) (D @ [da]) st2"
        "iod_npages st2 = iod_npages st1" "length (iod_blocks st2) = length (iod_blocks st1)"
        "prp_state.more st2 = prp_state.more st1" "length (iod_blocks st2) = 1 \<or> 2 \<le> Suc i1"
      by blast
    have fit2: "prp_fit pg pa N ps (Suc i1) (es1[i1 := da]) (len - uint ps) st2"
      using s1(3) s2(2,3) pages_for_step [OF len ps] by (auto simp: prp_fit_def split: if_splits)
    have fill: "prp_fill pa ps st i sg dl da len =
        (if len - uint ps \<le> 0 then Some (Inr (), st2)
         else if dl - uint ps > 0
         then prp_fill pa ps st2 (Suc i1) sg (dl - uint ps) (da + ucast ps) (len - uint ps)
         else if dl - uint ps < 0 then None
         else (case tl sg of [] \<Rightarrow> None
               | (a, l) # sg' \<Rightarrow>
                   prp_fill pa ps st2 (Suc i1) ((a, l) # sg') (int l) (ucast a) (len - uint ps)))"
      using False ps N slot store by (subst prp_fill.simps) (auto simp: Let_def)
    have "0 < dl" using ok by simp
    note pages = seg_pages_step [OF \<open>0 < dl\<close> ps, of da]
    note step = fill_post_step [OF _ len ps]
    show ?thesis
    proof (cases "len \<le> uint ps")
      case True
      have "seg_pages ps 0 (len - uint ps) = []" using True by (simp add: seg_pages_nil)
      then have "pages_for ps (len - uint ps) = 0" by (simp add: seg_pages_def)
      with True have "prp_fit pg pa N ps (Suc i1) (es1[i1 := da]) 0 st2"
        using fit2 ps0 by (auto simp: prp_fit_def split: if_splits)
      with True fill s2(1,5) \<open>pages_for ps (len - uint ps) = 0\<close>
      have "fill_post pg pa N ps (D @ [da]) (len - uint ps)
          (seg_pages ps (da + ucast ps) (dl - uint ps) @ sg_pages ps (tl sg))
          (prp_state.more st2) (prp_fill pa ps st i sg dl da len)"
        unfolding fill_post_def by (intro exI [of _ "Inr ()"]) fastforce
      from step [OF this] s1(4) s2(4) pages show ?thesis by simp
    next
      case False
      then have shorter: "nat (len - uint ps) < nat len" "0 < len - uint ps"
        using len ps0 by auto
      show ?thesis
      proof (cases "0 < dl - uint ps")
        case True
        have "sg_ok (uint ps) ((dl - uint ps) # sg_lens (tl sg)) (len - uint ps)"
          using ok True by (auto simp: dvd_diff)
        from less.hyps [OF shorter(1) s2(1) ps N less.prems(4) fit2 this shorter(2), of "da + ucast ps"]
        have "fill_post pg pa N ps (D @ [da]) (len - uint ps)
            (seg_pages ps (da + ucast ps) (dl - uint ps) @ sg_pages ps (tl sg))
            (prp_state.more st2) (prp_fill pa ps st i sg dl da len)"
          using fill False True by simp
        from step [OF this] s1(4) s2(4) pages show ?thesis by simp
      next
        case notpos: False
        with ok False have dvd: "uint ps dvd dl" "sg_ok (uint ps) (sg_lens (tl sg)) (len - dl)"
          by auto
        from dvd(1) \<open>0 < dl\<close> notpos have dl: "dl = uint ps"
          using zdvd_imp_le by fastforce
        with dvd(2) obtain a l sg' where sg: "tl sg = (a, l) # sg'" by (cases "tl sg") auto
        with dvd(2) dl have "sg_ok (uint ps) (int l # sg_lens (tl ((a, l) # sg'))) (len - uint ps)"
          by simp
        from less.hyps [OF shorter(1) s2(1) ps N less.prems(4) fit2 this shorter(2), of "ucast a"]
        have "fill_post pg pa N ps (D @ [da]) (len - uint ps) (sg_pages ps (tl sg))
            (prp_state.more st2) (prp_fill pa ps st i sg dl da len)"
          using fill False notpos dl sg by (simp add: sg_pages_def)
        from step [OF this] s1(4) s2(4) pages dl show ?thesis by (simp add: seg_pages_nil)
      qed
    qed
  qed
qed

section \<open>Reading and freeing what the loop built\<close>

lemma linked_nth:
  "linked bs \<Longrightarrow> Suc j < length bs \<Longrightarrow>
     snd (bs ! j) \<noteq> [] \<and> last (snd (bs ! j)) = ucast (fst (bs ! Suc j))"
proof (induction bs arbitrary: j rule: linked.induct)
  case (1 b c bs)
  then show ?case by (cases j) auto
qed auto

lemma linked_tl: "linked (b # bs) \<Longrightarrow> linked bs"
  by (cases bs) auto

lemma prp_walk_linked:
  assumes "linked (bs @ [(d, es)])" "\<forall>b\<in>set bs. length (snd b) = N" "1 < N" "i \<le> length es"
    "bs = [] \<or> 2 \<le> i" "\<forall>b\<in>set (bs @ [(d, es)]). mem (fst b) = Some (snd b)"
  shows "prp_walk mem (length (full_data bs) + i) (fst (hd (bs @ [(d, es)])))
    = Some (full_data bs @ take i es)"
  using assms
proof (induction bs)
  case Nil
  then show ?case by (subst prp_walk.simps) (simp add: full_data_def)
next
  case (Cons b bs)
  have lb: "length (snd b) = N" "mem (fst b) = Some (snd b)" using Cons.prems by auto
  have next_b: "ucast (last (snd b)) = fst (hd (bs @ [(d, es)]))"
    using Cons.prems(1) by (cases bs) auto
  have "prp_walk mem (length (full_data bs) + i) (fst (hd (bs @ [(d, es)])))
      = Some (full_data bs @ take i es)"
    using Cons.prems by (intro Cons.IH) (auto dest: linked_tl)
  moreover have "length (full_data (b # bs)) + i - (N - 1) = length (full_data bs) + i"
    using lb by (simp add: full_data_def)
  moreover have "\<not> length (full_data (b # bs)) + i \<le> N"
    using lb Cons.prems(3,5) by (simp add: full_data_def)
  ultimately show ?case
    using lb next_b Cons.prems(3)
    by (subst prp_walk.simps) (simp add: full_data_def)
qed

text \<open>The pool never hands out a block that is still in use: live blocks have distinct addresses.\<close>

definition pool_distinct :: "pool_alloc \<Rightarrow> bool" where
  "pool_distinct pa \<longleftrightarrow>
     (\<forall>i j d es es'. pa i = Some (d, es) \<and> pa j = Some (d, es') \<longrightarrow> i = j)"

lemma distinct_dmas:
  assumes "map (Some \<circ> fst) bs = map (\<lambda>k. map_option fst (pa k)) [0..<n]" "pool_distinct pa"
  shows "distinct (map fst bs)"
proof -
  have len: "length bs = n" using arg_cong [OF assms(1), of length] by simp
  have "map_option fst (pa k) = Some (fst (bs ! k))" if "k < n" for k
    using nth_map [of k bs "Some \<circ> fst"] nth_map [of k "[0..<n]" "\<lambda>k. map_option fst (pa k)"]
      that len assms(1) by simp
  then have block: "\<exists>es. pa k = Some (fst (bs ! k), es)" if "k < n" for k
    using that by simp
  have "j = k" if "j < n" "k < n" "fst (bs ! j) = fst (bs ! k)" for j k
    using block [OF that(1)] block [OF that(2)] that(3) assms(2)
    unfolding pool_distinct_def by metis
  with len show ?thesis by (auto simp: distinct_conv_nth)
qed

lemma prp_walk_inv:
  assumes "prp_inv pa N i es D st" "1 < N" "length (iod_blocks st) = 1 \<or> 2 \<le> i"
    "pool_distinct pa"
  shows "prp_walk (map_of (iod_blocks st)) (length D) (fst (hd (iod_blocks st))) = Some D"
proof -
  from assms(1) obtain bs d where b: "iod_blocks st = bs @ [(d, es)]"
      "\<forall>b\<in>set bs. length (snd b) = N" "linked (bs @ [(d, es)])" "i \<le> length es"
      "D = full_data bs @ take i es"
      "map (Some \<circ> fst) (iod_blocks st) = map (\<lambda>k. map_option fst (pa k)) [0..<Suc (length bs)]"
    by (auto simp: prp_inv_def)
  have "distinct (map fst (iod_blocks st))"
    using distinct_dmas [OF b(6) assms(4)] .
  then have "\<forall>c\<in>set (iod_blocks st). map_of (iod_blocks st) (fst c) = Some (snd c)"
    by (simp add: map_of_is_SomeI)
  with prp_walk_linked [OF b(3,2) assms(2) b(4), of "map_of (iod_blocks st)"] assms(3) b
  show ?thesis by (auto simp: min_absorb2)
qed

lemma free_prp_pages_linked:
  assumes "linked bs" "\<forall>b\<in>set bs. length (snd b) = N" "1 < N" "j < length bs"
  shows "free_prp_pages (N - 1) bs [j..<length bs] (fst (bs ! j))
    = Some (map (\<lambda>k. PoolFree PagePool k (fst (bs ! k))) [j..<length bs])"
  using assms(4)
proof (induction "length bs - j" arbitrary: j)
  case (Suc n)
  have sj: "length (snd (bs ! j)) = N" using Suc.prems assms(2) by simp
  have upt: "[j..<length bs] = j # [Suc j..<length bs]" using Suc.prems by (simp add: upt_conv_Cons)
  show ?case
  proof (cases "Suc j = length bs")
    case True
    then show ?thesis using Suc.prems sj assms(3) upt by simp
  next
    case False
    with Suc.prems have "Suc j < length bs" by simp
    from linked_nth [OF assms(1) this] have "snd (bs ! j) ! (N - 1) = ucast (fst (bs ! Suc j))"
      using sj by (auto simp: last_conv_nth)
    with Suc.hyps(1) [of "Suc j"] Suc.hyps(2) \<open>Suc j < length bs\<close> sj assms(3) upt Suc.prems
    show ?thesis by simp
  qed
qed simp

section \<open>The contract of the two descriptors\<close>

text \<open>
  What the driver relies on of dma_pool_alloc: blocks have the size the pool was created with
  (256 bytes and one page) and live blocks do not overlap.
\<close>

definition pool_ok :: "(prp_pool \<Rightarrow> pool_alloc) \<Rightarrow> bool" where
  "pool_ok palloc \<longleftrightarrow>
     (\<forall>k d es. palloc SmallPool k = Some (d, es) \<longrightarrow> length es = 32)
     \<and> (\<forall>k d es. palloc PagePool k = Some (d, es) \<longrightarrow> length es = 512)
     \<and> pool_distinct (palloc SmallPool) \<and> pool_distinct (palloc PagePool)"

text \<open>
  A descriptor after a set-up: it holds no block, or the list the loop built in one pool, with
  the address of the first block in its second PRP field.
\<close>

definition descr_inv ::
  "(prp_pool \<Rightarrow> pool_alloc) \<Rightarrow> ('a prp_state_scheme \<Rightarrow> dma_addr) \<Rightarrow> 'a prp_state_scheme \<Rightarrow> bool" where
  "descr_inv palloc prp2 st \<longleftrightarrow>
     iod_npages st = -1
     \<or> (\<exists>pool i es D. prp_inv (palloc pool) 512 i es D st \<and> prp2 st = fst (hd (iod_blocks st))
          \<and> (if pool = SmallPool then iod_npages st = 0 \<and> length (iod_blocks st) = 1
             else iod_npages st = int (length (iod_blocks st)) \<and> length es = 512))"

definition blocks_of :: "'a prp_state_scheme \<Rightarrow> free_event list" where
  "blocks_of st =
     (if iod_npages st = -1 then []
      else map (\<lambda>k. PoolFree (if iod_npages st = 0 then SmallPool else PagePool) k
                      (fst (iod_blocks st ! k))) [0..<length (iod_blocks st)])"

lemma free_blocks_inv:
  assumes "descr_inv palloc prp2 st"
  shows "free_prp_blocks 4096 (iod_npages st) (iod_blocks st) (iod_list st) (prp2 st)
    = Some (blocks_of st)"
proof (cases "iod_npages st = -1")
  case True
  then show ?thesis by (simp add: free_prp_blocks_def blocks_of_def)
next
  case False
  with assms obtain pool i es D where inv: "prp_inv (palloc pool) 512 i es D st"
      and p2: "prp2 st = fst (hd (iod_blocks st))"
      and mode: "if pool = SmallPool then iod_npages st = 0 \<and> length (iod_blocks st) = 1
             else iod_npages st = int (length (iod_blocks st)) \<and> length es = 512"
    unfolding descr_inv_def by blast
  from inv obtain bs d where b: "iod_blocks st = bs @ [(d, es)]"
      "\<forall>b\<in>set bs. length (snd b) = 512" "linked (bs @ [(d, es)])"
      "iod_list st = [0..<Suc (length bs)]"
    by (auto simp: prp_inv_def)
  show ?thesis
  proof (cases "pool = SmallPool")
    case True
    then show ?thesis using mode b p2 by (auto simp: free_prp_blocks_def blocks_of_def)
  next
    case page: False
    with mode have np: "iod_npages st = int (length (iod_blocks st))" "length es = 512" by auto
    have hd: "fst (hd (iod_blocks st)) = fst (iod_blocks st ! 0)" using b(1) by (simp add: hd_conv_nth)
    have "free_prp_pages (512 - 1) (iod_blocks st) [0..<length (iod_blocks st)] (fst (iod_blocks st ! 0))
        = Some (map (\<lambda>k. PoolFree PagePool k (fst (iod_blocks st ! k))) [0..<length (iod_blocks st)])"
      using b np by (intro free_prp_pages_linked) auto
    moreover have "take (nat (iod_npages st)) (iod_list st) = [0..<length (iod_blocks st)]"
      using np b(1,4) by simp
    ultimately show ?thesis
      using np b(1,4) p2 hd by (simp add: free_prp_blocks_def blocks_of_def)
  qed
qed

end
