(* ===== verification/Prp_Setup.thy ===== *)
theory Prp_Setup
  imports Prp_Correct
begin

text \<open>
  The properties of \<open>nvme_setup_prps\<close>, \<open>nvme_setup_phys_prps\<close>, \<open>nvme_free_iod\<close> and
  \<open>nvme_free_phys_iod\<close>, with the page size of the platform (4096, see \<open>Nvme_Ctrl\<close>).
\<close>

section \<open>Specification\<close>

abbreviation first_bytes :: "dma_addr \<Rightarrow> int" where
  "first_bytes a \<equiv> 4096 - uint a mod 4096"

text \<open>
  A scatterlist that describes \<open>tot\<close> bytes: the first entry reaches the end of its page unless
  it holds all the data, the inner entries are whole pages, no entry wraps around the bus
  address space.
\<close>

definition sg_covers :: "scatterlist \<Rightarrow> int \<Rightarrow> bool" where
  "sg_covers sg tot \<longleftrightarrow>
     (\<forall>(a, l)\<in>set sg. unat a + l \<le> 2 ^ 32) \<and>
     (case sg of [] \<Rightarrow> False
      | (a, l) # sgs \<Rightarrow>
          tot \<le> first_bytes a
          \<or> int l = first_bytes a \<and> sg_ok 4096 (sg_lens sgs) (tot - first_bytes a)
          \<or> first_bytes a < int l
              \<and> sg_ok 4096 ((int l - first_bytes a) # sg_lens sgs) (tot - first_bytes a))"

text \<open>The addresses the controller must use for \<open>tot\<close> bytes: the first one with its offset, then pages.\<close>

fun sg_expected :: "scatterlist \<Rightarrow> int \<Rightarrow> u64 list" where
  "sg_expected [] tot = []"
| "sg_expected ((a, l) # sgs) tot =
     ucast a # take (pages_for 4096 (tot - first_bytes a))
       (seg_pages 4096 (ucast a + of_int (first_bytes a)) (int l - first_bytes a)
          @ sg_pages 4096 sgs)"

text \<open>
  How the controller finds the data of a command (NVMe, Physical Region Page entries): PRP1
  is the first address; PRP2 is unused, or the second page, or the address of a PRP list.
\<close>

definition controller_pages ::
  "(dma_addr \<rightharpoonup> u64 list) \<Rightarrow> dma_addr \<Rightarrow> dma_addr \<Rightarrow> int \<Rightarrow> u64 list option" where
  "controller_pages mem prp1 prp2 tot =
     (let n = pages_for 4096 (tot - first_bytes prp1)
      in if n = 0 then Some [ucast prp1]
         else if n = 1 then Some [ucast prp1, ucast prp2]
         else map_option ((#) (ucast prp1)) (prp_walk mem n prp2))"

section \<open>The offset arithmetic\<close>

lemma page_offset:
  "uint ((ucast (a :: dma_addr) :: u64) AND ucast ((4096 :: u32) - 1)) = uint a mod 4096"
proof -
  have "(ucast a :: u64) AND 4095 = take_bit 12 (ucast a)"
    by (simp add: take_bit_eq_mask mask_eq_exp_minus_1)
  then have "uint ((ucast a :: u64) AND 4095) = take_bit 12 (uint a)"
    by (simp add: unsigned_take_bit_eq unsigned_ucast_eq take_bit_word_eq_self)
  then show ?thesis by (simp add: take_bit_eq_mod)
qed

lemma first_bytes_pos: "0 < first_bytes a" "first_bytes a \<le> 4096"
  using pos_mod_bound [of 4096 "uint a"] pos_mod_sign [of 4096 "uint a"] by linarith+

lemma drop_bit_page: "unat (drop_bit 3 (4096 :: u32)) = 512"
  by code_simp

lemma uint_page: "uint (4096 :: u32) = 4096"
  by simp

lemma pages_for_le: "len \<le> 0 \<Longrightarrow> pages_for 4096 len = 0"
  by simp

lemma pages_for_one: "0 < len \<Longrightarrow> len \<le> 4096 \<Longrightarrow> pages_for 4096 len = 1"
proof -
  assume "0 < len" "len \<le> 4096"
  then have "(len + 4096 - 1) div 4096 = 1"
    by (intro int_div_pos_eq [of _ _ _ "len - 1"]) auto
  then show ?thesis by simp
qed

lemma pages_for_many: "4096 < len \<Longrightarrow> 1 < pages_for 4096 len"
proof -
  assume "4096 < len"
  then have "(4096 + 4096) div 4096 \<le> (len + 4096 - 1) div (4096 :: int)"
    by (intro zdiv_mono1) auto
  then show ?thesis by simp
qed

lemma seg_pages_fst: "0 < l \<Longrightarrow> \<exists>ps. seg_pages 4096 a l = a # ps"
  using seg_pages_step [of l 4096 a] by auto

lemma dma_after_first:
  assumes "unat (a :: dma_addr) + l \<le> 2 ^ 32" "first_bytes a < int l"
  shows "ucast (ucast (ucast a + of_int (first_bytes a) :: u64) :: dma_addr)
    = (ucast a + of_int (first_bytes a) :: u64)"
proof (rule ucast_u64_dma)
  have "(of_int (first_bytes a) :: u64) = of_nat (nat (first_bytes a))"
    using first_bytes_pos(1) [of a] by (metis of_int_of_nat_eq int_nat_eq less_imp_le)
  moreover have "nat (first_bytes a) < 2 ^ LENGTH(64)" using first_bytes_pos(2) [of a] by simp
  ultimately have "unat (of_int (first_bytes a) :: u64) = nat (first_bytes a)"
    by (metis of_nat_inverse)
  moreover have "unat (ucast a :: u64) = unat a"
    using unsigned_less [of a, where ?'a = nat]
    by (simp add: unsigned_ucast_eq take_bit_nat_eq_self)
  ultimately have "unat (ucast a + of_int (first_bytes a) :: u64) \<le> unat a + nat (first_bytes a)"
    by (simp add: unat_word_ariths(1) mod_less_eq_dividend)
  also have "\<dots> < 2 ^ 32" using assms first_bytes_pos(1) [of a] by linarith
  finally show "(ucast a + of_int (first_bytes a) :: u64) < 2 ^ 32"
    by (simp add: word_less_nat_alt)
qed

section \<open>Running the loop from a fresh list\<close>

lemma fresh_list_inv:
  assumes "pa 0 = Some (d, es)" "iod_list st = [0]" "iod_blocks st = [(d, es)]"
    "iod_npages st = 0 \<or> iod_npages st = 1"
  shows "prp_inv pa N 0 es [] st"
  unfolding prp_inv_def using assms
  by (intro exI [of _ "[]"] exI [of _ d]) (auto simp: full_data_def)

lemma fresh_list_fit:
  assumes "pool_ok palloc" "palloc pool 0 = Some (d, es)" "iod_blocks st = [(d, es)]"
    "pool = prp_pool_of ((len + 4096 - 1) div 4096)"
    "iod_npages st = (if pool = SmallPool then 0 else 1)"
  shows "prp_fit (pool = PagePool) (palloc pool) 512 4096 0 es len st"
  using assms by (cases pool) (auto simp: prp_fit_def pool_ok_def prp_pool_of_def split: if_splits)

lemma prp_inv_first:
  assumes "prp_inv pa N i es D st"
  shows "map_option fst (pa 0) = Some (fst (hd (iod_blocks st)))"
proof -
  from assms obtain n where ne: "iod_blocks st \<noteq> []"
      and eq: "map (Some \<circ> fst) (iod_blocks st) = map (\<lambda>k. map_option fst (pa k)) [0..<Suc n]"
    unfolding prp_inv_def by (metis append_is_Nil_conv list.distinct(1))
  have "hd (map (Some \<circ> fst) (iod_blocks st)) = map_option fst (pa 0)"
    unfolding eq by (simp add: upt_conv_Cons del: upt_Suc)
  with ne show ?thesis by (simp add: hd_map)
qed

text \<open>The list pages hold exactly the pointers D, from the block whose address is in PRP2 on.\<close>

definition list_layout ::
  "(prp_pool \<Rightarrow> pool_alloc) \<Rightarrow> ('a prp_state_scheme \<Rightarrow> dma_addr) \<Rightarrow> u64 list \<Rightarrow> 'a prp_state_scheme \<Rightarrow> bool" where
  "list_layout palloc prp2 D st \<longleftrightarrow>
     (\<exists>pool i es. prp_inv (palloc pool) 512 i es D st \<and> prp2 st = fst (hd (iod_blocks st))
        \<and> (length (iod_blocks st) = 1 \<or> 2 \<le> i)
        \<and> (if pool = SmallPool then iod_npages st = 0 \<and> length (iod_blocks st) = 1 \<and> length es = 32
           else iod_npages st = int (length (iod_blocks st)) \<and> length es = 512))"

lemma prp_inv_npages:
  assumes "prp_inv pa 512 i es D st" "length D \<le> n"
  shows "iod_npages st \<le> int n div 511 + 1"
proof -
  from assms(1) obtain bs where bs: "\<forall>b\<in>set bs. length (snd b) = 512"
      "D = full_data bs @ take i es" "iod_npages st \<le> int (Suc (length bs))"
    unfolding prp_inv_def by fastforce
  have "length (full_data bs) = 511 * length bs"
    using bs(1) by (induction bs) (auto simp: full_data_def)
  with assms(2) bs(2) have "511 * length bs \<le> n" by simp
  then have "length bs \<le> n div 511" by linarith
  with bs(3) show ?thesis by (simp flip: zdiv_int)
qed

lemma prp_inv_full_blocks:
  assumes "prp_inv pa 512 512 es D st" "length D \<le> n"
  shows "int (length (iod_blocks st)) \<le> int n div 511"
proof -
  from assms(1) obtain bs where bs: "\<forall>b\<in>set bs. length (snd b) = 512" "512 \<le> length es"
      "D = full_data bs @ take 512 es" "length (iod_blocks st) = Suc (length bs)"
    unfolding prp_inv_def by auto
  have "length (full_data bs) = 511 * length bs"
    using bs(1) by (induction bs) (auto simp: full_data_def)
  with assms(2) bs(2,3) have "511 * Suc (length bs) \<le> n" by simp
  from div_le_mono [OF this, of 511] have "Suc (length bs) \<le> n div 511" by simp
  with bs(4) show ?thesis by (simp flip: zdiv_int)
qed

lemma fill_post_descr:
  assumes "fill_post (pool = PagePool) (palloc pool) 512 4096 [] len pages m out" "pool_ok palloc"
    "4096 < len" "pages_for 4096 len \<le> length pages"
  obtains rest st where "out = Some (Inl rest, st)" "0 < rest" "prp_state.more st = m"
      "\<And>prp2. prp2 st = fst (hd (iod_blocks st)) \<Longrightarrow> descr_inv palloc prp2 st"
      "map_option fst (palloc pool 0) = Some (fst (hd (iod_blocks st)))"
      "iod_npages st \<le> int (pages_for 4096 len) div 511 + 1"
      "palloc pool (length (iod_blocks st)) = None"
      "int (length (iod_blocks st)) \<le> int (pages_for 4096 len) div 511"
  | st where "out = Some (Inr (), st)" "prp_state.more st = m"
      "\<And>prp2. prp2 st = fst (hd (iod_blocks st)) \<Longrightarrow> descr_inv palloc prp2 st"
      "map_option fst (palloc pool 0) = Some (fst (hd (iod_blocks st)))"
      "prp_walk (map_of (iod_blocks st)) (pages_for 4096 len) (fst (hd (iod_blocks st)))
         = Some (take (pages_for 4096 len) pages)"
      "iod_npages st \<le> int (pages_for 4096 len) div 511 + 1"
      "\<And>prp2. prp2 st = fst (hd (iod_blocks st)) \<Longrightarrow>
         list_layout palloc prp2 (take (pages_for 4096 len) pages) st"
proof -
  from assms(1) obtain r st i' es' D' where r: "out = Some (r, st)"
      "prp_inv (palloc pool) 512 i' es' D' st" "prp_state.more st = m"
      "prp_fit (pool = PagePool) (palloc pool) 512 4096 i' es'
         (case r of Inl rest \<Rightarrow> rest | Inr _ \<Rightarrow> 0) st"
      "length (iod_blocks st) = 1 \<or> 2 \<le> i'" "length D' \<le> length ([] :: u64 list) + pages_for 4096 len"
      "case r of Inl rest \<Rightarrow> 0 < rest \<and> rest \<le> len \<and> i' = 512
           \<and> palloc pool (length (iod_blocks st)) = None
       | Inr _ \<Rightarrow> D' = [] @ take (pages_for 4096 len) pages"
    unfolding fill_post_def by blast
  have d: "descr_inv palloc prp2 st" if "prp2 st = fst (hd (iod_blocks st))" for prp2
    using that r(2,4) unfolding descr_inv_def
    by (intro disjI2 exI [of _ pool] exI [of _ i'] exI [of _ es'] exI [of _ D'])
      (cases pool; auto simp: prp_fit_def)
  note h = prp_inv_first [OF r(2)]
  have c: "iod_npages st \<le> int (pages_for 4096 len) div 511 + 1"
    using r(6) by (intro prp_inv_npages [OF r(2)]) simp
  show ?thesis
  proof (cases r)
    case (Inl rest)
    with r have "prp_inv (palloc pool) 512 512 es' D' st" by simp
    from prp_inv_full_blocks [OF this, of "pages_for 4096 len"] r(6)
    have "int (length (iod_blocks st)) \<le> int (pages_for 4096 len) div 511" by simp
    with Inl r d h c show ?thesis by (intro that(1)) auto
  next
    case (Inr u)
    have dist: "pool_distinct (palloc pool)" using assms(2) by (cases pool) (auto simp: pool_ok_def)
    have "prp_walk (map_of (iod_blocks st)) (length D') (fst (hd (iod_blocks st))) = Some D'"
      using r(5) by (intro prp_walk_inv [OF r(2) _ _ dist]) auto
    with Inr r assms(4) have "prp_walk (map_of (iod_blocks st)) (pages_for 4096 len)
        (fst (hd (iod_blocks st))) = Some (take (pages_for 4096 len) pages)"
      by simp
    moreover have "list_layout palloc prp2 D' st" if "prp2 st = fst (hd (iod_blocks st))" for prp2
      using that r(2,4,5) unfolding list_layout_def
      by (intro exI [of _ pool] exI [of _ i'] exI [of _ es']) (cases pool; auto simp: prp_fit_def)
    ultimately show ?thesis using Inr r d h c by (intro that(2)) auto
  qed
qed

lemma sg_ok_pages:
  assumes "sg_ok 4096 (l # sg_lens sg) len"
  shows "pages_for 4096 len \<le> length (seg_pages 4096 a l @ sg_pages 4096 sg)"
  using assms
proof (induction sg arbitrary: a l len)
  case Nil
  then have "(len + 4096 - 1) div 4096 \<le> (l + 4096 - 1) div 4096" by (intro zdiv_mono1) auto
  then show ?case by (simp add: seg_pages_def)
next
  case (Cons x sg)
  obtain b m where x: "x = (b, m)" by force
  show ?case
  proof (cases "len \<le> l")
    case True
    then have "(len + 4096 - 1) div 4096 \<le> (l + 4096 - 1) div 4096" by (intro zdiv_mono1) auto
    then show ?thesis by (simp add: seg_pages_def)
  next
    case False
    with Cons.prems x have "4096 dvd l" "sg_ok 4096 (int m # sg_lens sg) (len - l)"
      by (auto simp: comp_def)
    from this(1) obtain k where k: "l = 4096 * k" ..
    have "pages_for 4096 (len - l) \<le> length (sg_pages 4096 (x # sg))"
      using Cons.IH [OF \<open>sg_ok 4096 (int m # sg_lens sg) (len - l)\<close>, of "ucast b"] x
      by (simp add: sg_pages_def)
    moreover have "pages_for 4096 len \<le> length (seg_pages 4096 a l) + pages_for 4096 (len - l)"
      unfolding seg_pages_def using k by simp
    ultimately show ?thesis by simp
  qed
qed

section \<open>Setting up a descriptor\<close>

lemma iod_more_cong:
  assumes "prp_state.more (r :: nvme_iod) = prp_state.more s"
  shows "iod_first_dma r = iod_first_dma s" "iod_private r = iod_private s" "iod_sg r = iod_sg s"
  using assms by (cases r; cases s; simp)+

text \<open>What a set-up of \<open>tot\<close> bytes promises: the result, given what the data is.\<close>

definition setup_post ::
  "(prp_pool \<Rightarrow> pool_alloc) \<Rightarrow> ('a prp_state_scheme \<Rightarrow> dma_addr) \<Rightarrow> dma_addr \<Rightarrow> u64 list \<Rightarrow> int
     \<Rightarrow> (int \<times> 'a prp_state_scheme) \<Rightarrow> bool" where
  "setup_post palloc prp2 prp1 pages tot out \<longleftrightarrow>
     (let (ret, iod') = out
      in ret \<le> tot \<and> descr_inv palloc prp2 iod'
        \<and> (ret = tot \<longrightarrow>
             controller_pages (map_of (iod_blocks iod')) prp1 (prp2 iod') tot = Some pages)
        \<and> (ret = tot \<and> 1 < pages_for 4096 (tot - first_bytes prp1) \<longrightarrow>
             list_layout palloc prp2 (tl pages) iod')
        \<and> ((\<forall>pool k. int k \<le> (tot + 4095) div 4096 div 511 \<longrightarrow> palloc pool k \<noteq> None)
             \<longrightarrow> ret = tot)
        \<and> (0 \<le> tot \<longrightarrow> iod_npages iod' \<le> (tot + 4095) div 4096 div 511 + 1))"

text \<open>The part of the two functions after the first page: a list that starts at \<open>da\<close>.\<close>

lemma setup_list_post:
  fixes iod :: "'a prp_state_scheme"
  assumes ok: "pool_ok palloc" and len: "4096 < len" "len = tot - first_bytes a"
    and sg: "sg_ok 4096 (dl # sg_lens (tl sg)) len"
    and pages: "pages = ucast a # take (pages_for 4096 len)
          (seg_pages 4096 da dl @ sg_pages 4096 (tl sg))"
    and pool: "pool = prp_pool_of ((len + 4096 - 1) div 4096)" "palloc pool 0 = Some (d, es)"
    and st: "iod_list st = [0]" "iod_blocks st = [(d, es)]" "prp2 st = d"
      "iod_npages st = (if pool = SmallPool then 0 else 1)"
    and prp2: "\<And>s. prp_state.more s = prp_state.more st \<Longrightarrow> prp2 s = d"
  shows "\<exists>r st'. prp_fill (palloc pool) 4096 st 0 sg dl da len = Some (r, st')
     \<and> prp_state.more st' = prp_state.more st
     \<and> setup_post palloc prp2 a pages tot ((case r of Inl rest \<Rightarrow> tot - rest | Inr _ \<Rightarrow> tot), st')"
proof -
  have inv: "prp_inv (palloc pool) 512 0 es [] st"
    using fresh_list_inv [of "palloc pool", OF pool(2) st(1,2)] st(4) by auto
  note fit = fresh_list_fit [OF ok pool(2) st(2) pool(1) st(4)]
  have post: "fill_post (pool = PagePool) (palloc pool) 512 4096 [] len
      (seg_pages 4096 da dl @ sg_pages 4096 (tl sg)) (prp_state.more st)
      (prp_fill (palloc pool) 4096 st 0 sg dl da len)"
    using inv fit sg len by (intro prp_fill_inv) (auto simp: drop_bit_page)
  have "(len + 4096 - 1) div 4096 \<le> (tot + 4095) div 4096"
    using first_bytes_pos(1) [of a] len(2) by (intro zdiv_mono1) auto
  moreover have "0 \<le> (len + 4096 - 1) div 4096"
    using len(1) by (simp add: pos_imp_zdiv_nonneg_iff)
  ultimately have cap: "x \<le> int (pages_for 4096 len) div 511 + 1 \<Longrightarrow> x \<le> (tot + 4095) div 4096 div 511 + 1"
    for x using zdiv_mono1 [of "(len + 4096 - 1) div 4096" "(tot + 4095) div 4096" 511] by simp
  show ?thesis
  proof (rule fill_post_descr [OF post ok len(1) sg_ok_pages [OF sg]])
    fix rest st' assume r: "prp_fill (palloc pool) 4096 st 0 sg dl da len = Some (Inl rest, st')"
      "0 < rest" "prp_state.more st' = prp_state.more st"
      "\<And>prp2. prp2 st' = fst (hd (iod_blocks st')) \<Longrightarrow> descr_inv palloc prp2 st'"
      "map_option fst (palloc pool 0) = Some (fst (hd (iod_blocks st')))"
      "iod_npages st' \<le> int (pages_for 4096 len) div 511 + 1"
      "palloc pool (length (iod_blocks st')) = None"
      "int (length (iod_blocks st')) \<le> int (pages_for 4096 len) div 511"
    have "int (length (iod_blocks st')) \<le> (tot + 4095) div 4096 div 511"
      using r(8) cap [of "int (length (iod_blocks st')) + 1"] by simp
    then have "\<not> (\<forall>pool k. int k \<le> (tot + 4095) div 4096 div 511 \<longrightarrow> palloc pool k \<noteq> None)"
      using r(7) by blast
    with r pool(2) prp2 cap show ?thesis by (auto simp: setup_post_def)
  next
    fix st' assume r: "prp_fill (palloc pool) 4096 st 0 sg dl da len = Some (Inr (), st')"
      "prp_state.more st' = prp_state.more st"
      "\<And>prp2. prp2 st' = fst (hd (iod_blocks st')) \<Longrightarrow> descr_inv palloc prp2 st'"
      "map_option fst (palloc pool 0) = Some (fst (hd (iod_blocks st')))"
      "prp_walk (map_of (iod_blocks st')) (pages_for 4096 len) (fst (hd (iod_blocks st')))
        = Some (take (pages_for 4096 len) (seg_pages 4096 da dl @ sg_pages 4096 (tl sg)))"
      "iod_npages st' \<le> int (pages_for 4096 len) div 511 + 1"
      "\<And>prp2. prp2 st' = fst (hd (iod_blocks st')) \<Longrightarrow> list_layout palloc prp2
         (take (pages_for 4096 len) (seg_pages 4096 da dl @ sg_pages 4096 (tl sg))) st'"
    have "controller_pages (map_of (iod_blocks st')) a (prp2 st') tot = Some pages"
      using r(2,4,5) pool(2) prp2 pages len pages_for_many [OF len(1)]
      by (simp add: controller_pages_def Let_def)
    moreover have "list_layout palloc prp2 (tl pages) st'"
      using r(2,4,7) pool(2) prp2 pages by simp
    ultimately show ?thesis using r(1-4,6) pool(2) prp2 cap by (auto simp: setup_post_def)
  qed
qed

lemma npages_free: "0 \<le> (tot :: int) \<Longrightarrow> - 1 \<le> (tot + 4095) div 4096 div 511 + 1"
  by (smt (verit) pos_imp_zdiv_nonneg_iff)

lemma setup_short_post:
  assumes "iod_npages iod = -1" "\<not> 1 < pages_for 4096 (tot - first_bytes a)"
    "controller_pages (map_of (iod_blocks iod)) a (prp2 iod) tot = Some pages"
  shows "setup_post palloc prp2 a pages tot (tot, iod)"
  using assms by (simp add: setup_post_def descr_inv_def npages_free)

lemma setup_no_pool_post:
  assumes "iod_npages iod = -1" "ret < tot" "palloc pool 0 = None" "0 \<le> tot"
  shows "setup_post palloc prp2 a pages tot (ret, iod)"
proof -
  have "int 0 \<le> (tot + 4095) div 4096 div 511" using assms(4) by (simp add: pos_imp_zdiv_nonneg_iff)
  with assms(3)
  have "\<not> (\<forall>pool k. int k \<le> (tot + 4095) div 4096 div 511 \<longrightarrow> palloc pool k \<noteq> None)" by blast
  with assms show ?thesis by (auto simp: setup_post_def descr_inv_def npages_free)
qed

lemma setup_prps_post:
  assumes ok: "pool_ok palloc" and np: "iod_npages iod = -1" and sg: "iod_sg iod = (a, l) # sgs"
    and cov: "sg_covers (iod_sg iod) tot"
  shows "\<exists>out. nvme_setup_prps palloc 4096 iod tot = Some out
    \<and> setup_post palloc iod_first_dma a (sg_expected (iod_sg iod) tot) tot out
    \<and> iod_private (snd out) = iod_private iod \<and> iod_sg (snd out) = iod_sg iod"
proof -
  let ?len = "tot - first_bytes a"
  have off: "uint ((ucast a :: u64) AND ucast ((4096 :: u32) - 1)) = uint a mod 4096"
    by (rule page_offset)
  show ?thesis
  proof (cases "?len \<le> 0")
    case True
    then have "nvme_setup_prps palloc 4096 iod tot = Some (tot, iod)"
      unfolding nvme_setup_prps_def sg list.case prod.case off Let_def uint_page by simp
    moreover have "setup_post palloc iod_first_dma a (sg_expected (iod_sg iod) tot) tot (tot, iod)"
      using np sg pages_for_le [OF True]
      by (intro setup_short_post) (simp_all add: controller_pages_def)
    ultimately show ?thesis by auto
  next
    case pos: False
    define sg' da dl where "sg' = (if int l \<noteq> first_bytes a then (a, l) # sgs else sgs)"
      and "da = (if int l \<noteq> first_bytes a then ucast a + of_int (first_bytes a)
                 else ucast (fst (hd sgs)) :: u64)"
      and "dl = (if int l \<noteq> first_bytes a then int l - first_bytes a else int (snd (hd sgs)))"
    have sgok: "sg_ok 4096 (dl # sg_lens (tl sg')) ?len"
      using cov pos unfolding sg sg_covers_def sg'_def dl_def
      by (cases sgs) (auto simp: comp_def split: if_splits)
    have ne: "int l = first_bytes a \<Longrightarrow> sgs \<noteq> []"
      using cov pos unfolding sg sg_covers_def by (cases sgs) auto
    have pages: "sg_expected (iod_sg iod) tot = ucast a # take (pages_for 4096 ?len)
        (seg_pages 4096 da dl @ sg_pages 4096 (tl sg'))"
      using ne unfolding sg sg'_def da_def dl_def
      by (cases sgs) (auto simp: seg_pages_nil sg_pages_def split: prod.splits)
    have da: "ucast (ucast da :: dma_addr) = da"
      using cov pos dma_after_first [of a l] unfolding sg sg_covers_def da_def
      by auto
    have first: "(case (if int l - first_bytes a \<noteq> 0
          then Some ((a, l) # sgs, ucast a + of_int (first_bytes a), int l - first_bytes a)
          else case sgs of [] \<Rightarrow> None | (a', l') # sgs' \<Rightarrow> Some (sgs, ucast a', int l')) of
          None \<Rightarrow> None | Some (x, y, z) \<Rightarrow> f x y z) = f sg' da dl"
      for f :: "scatterlist \<Rightarrow> u64 \<Rightarrow> int \<Rightarrow> (int \<times> nvme_iod) option"
      using ne unfolding sg'_def da_def dl_def by (cases sgs) auto
    note unf = nvme_setup_prps_def [of palloc 4096 iod tot, unfolded sg list.case prod.case off Let_def
        uint_page first]
    show ?thesis
    proof (cases "?len \<le> 4096")
      case True
      let ?iod = "iod\<lparr>iod_first_dma := ucast da\<rparr>"
      have "nvme_setup_prps palloc 4096 iod tot = Some (tot, ?iod)"
        using pos True by (simp add: unf)
      moreover obtain ps where "seg_pages 4096 da dl @ sg_pages 4096 (tl sg') = da # ps"
        using seg_pages_fst [of dl da] sgok by auto
      then have "setup_post palloc iod_first_dma a (sg_expected (iod_sg iod) tot) tot (tot, ?iod)"
        using np pages pages_for_one [of ?len] pos True da
        by (intro setup_short_post) (simp_all add: controller_pages_def)
      ultimately show ?thesis by auto
    next
      case big: False
      define pool where "pool = prp_pool_of ((?len + 4096 - 1) div 4096)"
      note unf2 = unf [folded pool_def]
      show ?thesis
      proof (cases "palloc pool 0")
        case None
        with pos big have "nvme_setup_prps palloc 4096 iod tot
            = Some (tot - ?len + 4096, iod\<lparr>iod_first_dma := ucast da, iod_npages := -1\<rparr>)"
          unfolding unf2 by simp
        with None big show ?thesis by (auto intro!: setup_no_pool_post [of _ _ _ _ pool])
      next
        case (Some b)
        obtain d es where b: "palloc pool 0 = Some (d, es)" using Some by (cases b) auto
        define st where "st = iod\<lparr>iod_npages := (if pool = SmallPool then 0 else 1), iod_list := [0],
            iod_blocks := [(d, es)], iod_first_dma := d\<rparr>"
        have "\<exists>r st'. prp_fill (palloc pool) 4096 st 0 sg' dl da ?len = Some (r, st')
           \<and> prp_state.more st' = prp_state.more st
           \<and> setup_post palloc iod_first_dma a (sg_expected (iod_sg iod) tot) tot
               ((case r of Inl rest \<Rightarrow> tot - rest | Inr _ \<Rightarrow> tot), st')"
          using big by (intro setup_list_post [OF ok _ refl sgok pages pool_def b])
            (auto simp: st_def dest: iod_more_cong(1))
        then obtain r st' where r: "prp_fill (palloc pool) 4096 st 0 sg' dl da ?len = Some (r, st')"
            "prp_state.more st' = prp_state.more st"
            "setup_post palloc iod_first_dma a (sg_expected (iod_sg iod) tot) tot
               ((case r of Inl rest \<Rightarrow> tot - rest | Inr _ \<Rightarrow> tot), st')"
          by blast
        then show ?thesis
          using pos big b iod_more_cong(2,3) [OF r(2)]
          unfolding unf2 st_def by (cases r) simp_all
      qed
    qed
  qed
qed

text \<open>
  The loop of the physically addressed set-up does what the other loop does on one segment that
  holds all the data.
\<close>

lemma phys_prp_fill_eq:
  fixes st :: "'a prp_state_scheme"
  shows "len \<le> dl \<Longrightarrow> phys_prp_fill pa ps st i dl da len = prp_fill pa ps st i [] dl da len"
proof (induction "nat len" arbitrary: st i dl da len rule: less_induct)
  case less
  show ?case
  proof (cases "ps = 0")
    case True
    then show ?thesis by (subst prp_fill.simps, subst phys_prp_fill.simps) simp
  next
    case False
    then have "0 < uint ps" by (simp add: word_neq_0_conv word_less_def)
    then have "nat (len - uint ps) < nat len" if "\<not> len - uint ps \<le> 0" using that by linarith
    note IH = less.hyps [OF this]
    have "phys_prp_fill pa ps st' j (dl - uint ps) (da + ucast ps) (len - uint ps)
        = prp_fill pa ps st' j [] (dl - uint ps) (da + ucast ps) (len - uint ps)"
      if "\<not> len - uint ps \<le> 0" for st' :: "'a prp_state_scheme" and j
      using IH [OF that, of "dl - uint ps"] less.prems by simp
    then show ?thesis
      using less.prems
      by (subst prp_fill.simps, subst phys_prp_fill.simps)
        (auto simp: Let_def split: option.splits)
  qed
qed

definition phys_ok :: "dma_addr \<Rightarrow> int \<Rightarrow> bool" where
  "phys_ok a tot \<longleftrightarrow> 0 < tot \<and> uint a mod 4096 = 0 \<and> uint a + tot \<le> 2 ^ 32"

lemma phys_next:
  assumes "phys_ok a tot" "4096 < tot"
  shows "(ucast (a + 4096) :: u64) = ucast a + 4096"
proof -
  have "uint (a + 4096) = uint a + 4096"
    using assms uint_add_bounded [of a 4096] by (simp add: phys_ok_def)
  then have "uint (ucast (a + 4096) :: u64) = uint a + 4096"
    using unsigned_less [of a, where ?'a = int] by (simp add: unsigned_ucast_eq take_bit_int_eq_self)
  moreover have "uint (ucast a + 4096 :: u64) = uint a + 4096"
  proof -
    have "uint (ucast a :: u64) = uint a"
      using unsigned_less [of a, where ?'a = int] by (simp add: unsigned_ucast_eq take_bit_int_eq_self)
    then show ?thesis
      using uint_add_bounded [of "ucast a :: u64" 4096] unsigned_less [of a, where ?'a = int] by simp
  qed
  ultimately show ?thesis by (intro word_uint_eq_iff [THEN iffD2]) simp
qed

lemma pio_more_cong:
  assumes "prp_state.more (r :: nvme_phys_iod) = prp_state.more s"
  shows "pio_prp1 r = pio_prp1 s" "pio_prp2 r = pio_prp2 s"
  using assms by (cases r; cases s; simp)+

lemma setup_phys_prps_post:
  assumes ok: "pool_ok palloc" and np: "iod_npages iod = -1" and phys: "phys_ok a tot"
  shows "\<exists>out. nvme_setup_phys_prps palloc 4096 iod tot a = Some out
    \<and> setup_post palloc pio_prp2 a (seg_pages 4096 (ucast a) tot) tot out
    \<and> pio_prp1 (snd out) = a"
proof -
  let ?len = "tot - 4096"
  have al: "uint a mod 4096 = 0" "0 < tot" using phys by (auto simp: phys_ok_def)
  have off: "uint ((ucast a :: u64) AND ucast ((4096 :: u32) - 1)) = 0"
    using page_offset [of a] al(1) by simp
  note unf = nvme_setup_phys_prps_def [of palloc 4096 iod tot a, unfolded off Let_def uint_page
      diff_0_right]
  have step: "seg_pages 4096 (ucast a) tot = ucast a # seg_pages 4096 (ucast a + 4096) ?len"
    using seg_pages_step [of tot 4096 "ucast a"] al(2) by simp
  show ?thesis
  proof (cases "?len \<le> 0")
    case True
    then have "nvme_setup_phys_prps palloc 4096 iod tot a = Some (tot, iod\<lparr>pio_prp1 := a\<rparr>)"
      unfolding unf by simp
    moreover have "setup_post palloc pio_prp2 a (seg_pages 4096 (ucast a) tot) tot
        (tot, iod\<lparr>pio_prp1 := a\<rparr>)"
      using np True al step pages_for_le [OF True]
      by (intro setup_short_post) (simp_all add: controller_pages_def seg_pages_nil)
    ultimately show ?thesis by auto
  next
    case pos: False
    then have next_a: "(ucast (a + 4096) :: u64) = ucast a + 4096" using phys_next [OF phys] by simp
    show ?thesis
    proof (cases "?len \<le> 4096")
      case True
      let ?iod = "iod\<lparr>pio_prp1 := a, pio_prp2 := a + 4096\<rparr>"
      have "nvme_setup_phys_prps palloc 4096 iod tot a = Some (tot, ?iod)"
        using pos True unfolding unf by simp
      moreover have "setup_post palloc pio_prp2 a (seg_pages 4096 (ucast a) tot) tot (tot, ?iod)"
        using np step pages_for_one [of ?len] pos True al next_a
        by (intro setup_short_post) (simp_all add: controller_pages_def seg_pages_def)
      ultimately show ?thesis by auto
    next
      case big: False
      define pool where "pool = prp_pool_of ((?len + 4096 - 1) div 4096)"
      note unf2 = unf [folded pool_def]
      show ?thesis
      proof (cases "palloc pool 0")
        case None
        with pos big have "nvme_setup_phys_prps palloc 4096 iod tot a = Some (tot - ?len + 4096,
            iod\<lparr>pio_prp1 := a, pio_prp2 := a + 4096, iod_npages := -1\<rparr>)"
          unfolding unf2 by simp
        with None big show ?thesis by (auto intro!: setup_no_pool_post [of _ _ _ _ pool])
      next
        case (Some b)
        obtain d es where b: "palloc pool 0 = Some (d, es)" using Some by (cases b) auto
        define st where "st = iod\<lparr>iod_npages := (if pool = SmallPool then 0 else 1), iod_list := [0],
            iod_blocks := [(d, es)], pio_prp1 := a, pio_prp2 := d\<rparr>"
        have "\<exists>r st'. prp_fill (palloc pool) 4096 st 0 [] ?len (ucast (a + 4096)) ?len = Some (r, st')
           \<and> prp_state.more st' = prp_state.more st
           \<and> setup_post palloc pio_prp2 a (seg_pages 4096 (ucast a) tot) tot
               ((case r of Inl rest \<Rightarrow> tot - rest | Inr _ \<Rightarrow> tot), st')"
          using big step next_a al
          by (intro setup_list_post [OF ok _ _ _ _ pool_def b])
            (auto simp: st_def sg_pages_def seg_pages_def dest: pio_more_cong(2))
        then obtain r st' where r:
            "phys_prp_fill (palloc pool) 4096 st 0 ?len (ucast (a + 4096)) ?len = Some (r, st')"
            "prp_state.more st' = prp_state.more st"
            "setup_post palloc pio_prp2 a (seg_pages 4096 (ucast a) tot) tot
               ((case r of Inl rest \<Rightarrow> tot - rest | Inr _ \<Rightarrow> tot), st')"
          by (auto simp: phys_prp_fill_eq)
        have "pio_prp1 st' = a" using pio_more_cong(1) [OF r(2)] by (simp add: st_def)
        then show ?thesis
          using pos big b r unfolding unf2 st_def by (cases r) simp_all
      qed
    qed
  qed
qed

section \<open>The contract of the two descriptors\<close>

lemma uint_div_round_up:
  assumes "uint n + uint d < 2 ^ 32" "0 < uint d"
  shows "uint (div_round_up n d) = (uint n + uint d - 1) div uint d"
proof -
  have sum: "uint (n + d) = uint n + uint d" using assms(1) uint_add_bounded [of n d] by simp
  moreover have "0 \<le> uint n" by simp
  ultimately have "1 \<le> uint (n + d)" using assms(2) by linarith
  then have "uint (n + d - 1) = uint n + uint d - 1"
    using sum uint_sub_lem [of "1 :: u32" "n + d"] by simp
  then show ?thesis by (simp add: div_round_up_def uint_div_distrib)
qed

lemma nvme_npages_eq:
  assumes "0 \<le> len" "len \<le> 2 ^ 30"
  shows "uint (nvme_npages (of_int len) 4096) = (len + 4095) div 4096 div 511 + 1"
proof -
  define m where "m = (len + 4095) div 4096"
  have m: "0 \<le> m" "m \<le> 2 ^ 19" using assms by (auto simp: m_def)
  have "uint (of_int len :: u32) = len" using assms by (simp add: uint_word_of_int_eq take_bit_int_eq_self)
  then have "uint (of_int len + 4096 :: u32) = len + 4096"
    using uint_add_bounded [of "of_int len :: u32" 4096] assms by simp
  then have "uint (div_round_up (of_int len + 4096) 4096) = m + 1"
    using assms by (simp add: uint_div_round_up m_def)
  then have "uint (8 * div_round_up (of_int len + 4096) 4096) = 8 * (m + 1)"
    using m uint_mult_lem [of "8 :: u32" "div_round_up (of_int len + 4096) 4096"] by simp
  then have "uint (nvme_npages (of_int len) 4096) = (8 * (m + 1) + 4087) div 4088"
    using m by (simp add: nvme_npages_def uint_div_round_up)
  also have "\<dots> = m div 511 + 1"
  proof -
    obtain q r where qr: "q = m div 511" "m = 511 * q + r" "0 \<le> r" "r < 511"
      using mult_div_mod_eq [of 511 m] pos_mod_sign [of 511 m] pos_mod_bound [of 511 m]
      by (metis zero_less_numeral)
    have "(8 * (m + 1) + 4087) div 4088 = q + 1"
      by (rule int_div_pos_eq [of _ _ _ "8 * r + 7"]) (use qr(2-4) in auto)
    then show ?thesis by (simp add: qr(1))
  qed
  finally show ?thesis by (simp add: m_def)
qed

text \<open>
  The interface of a descriptor: a set-up that meets \<open>setup_post\<close> where its data is described
  correctly, and a release. Both lemmas hold of every such pair.
\<close>

locale prp_descriptor =
  fixes build :: "(prp_pool \<Rightarrow> pool_alloc) \<Rightarrow> 'a prp_state_scheme \<Rightarrow> int
      \<Rightarrow> (int \<times> 'a prp_state_scheme) option"
    and prp1 :: "'a prp_state_scheme \<Rightarrow> dma_addr"
    and prp2 :: "'a prp_state_scheme \<Rightarrow> dma_addr"
    and pages :: "'a prp_state_scheme \<Rightarrow> int \<Rightarrow> u64 list"
    and data_ok :: "'a prp_state_scheme \<Rightarrow> int \<Rightarrow> bool"
    and release :: "'a prp_state_scheme \<Rightarrow> free_event list option"
    and tail_events :: "'a prp_state_scheme \<Rightarrow> free_event list"
  assumes build_post: "pool_ok palloc \<Longrightarrow> iod_npages iod = -1 \<Longrightarrow> data_ok iod len \<Longrightarrow>
      \<exists>out. build palloc iod len = Some out \<and> setup_post palloc prp2 (prp1 iod) (pages iod len) len out
        \<and> tail_events (snd out) = tail_events iod"
    and release_eq: "release iod =
      map_option (\<lambda>evs. evs @ tail_events iod)
        (free_prp_blocks 4096 (iod_npages iod) (iod_blocks iod) (iod_list iod) (prp2 iod))"
begin

lemma build_then_release:
  assumes "pool_ok palloc" "iod_npages iod = -1" "data_ok iod len"
  shows "\<exists>ret iod'. build palloc iod len = Some (ret, iod') \<and> ret \<le> len
    \<and> release iod' = Some (blocks_of iod' @ tail_events iod)"
proof -
  from build_post [OF assms] obtain ret iod' where "build palloc iod len = Some (ret, iod')"
      "ret \<le> len" "descr_inv palloc prp2 iod'" "tail_events iod' = tail_events iod"
    by (auto simp: setup_post_def)
  with free_blocks_inv show ?thesis by (fastforce simp: release_eq)
qed

lemma build_complete:
  assumes "pool_ok palloc" "iod_npages iod = -1" "data_ok iod len"
  shows "\<exists>ret iod'. build palloc iod len = Some (ret, iod')
    \<and> (ret = len \<longrightarrow> controller_pages (map_of (iod_blocks iod')) (prp1 iod) (prp2 iod') len
                     = Some (pages iod len))
    \<and> ((\<forall>pool k. int k \<le> (len + 4095) div 4096 div 511 \<longrightarrow> palloc pool k \<noteq> None)
          \<longrightarrow> ret = len)"
proof -
  from build_post [OF assms] obtain ret iod' where "build palloc iod len = Some (ret, iod')"
      "setup_post palloc prp2 (prp1 iod) (pages iod len) len (ret, iod')"
    by force
  then show ?thesis unfolding setup_post_def Let_def prod.case by blast
qed

lemma build_capacity:
  assumes "pool_ok palloc" "iod_npages iod = -1" "data_ok iod len" "0 \<le> len" "len \<le> 2 ^ 30"
  shows "\<exists>ret iod'. build palloc iod len = Some (ret, iod')
    \<and> iod_npages iod' \<le> uint (nvme_npages (of_int len) 4096)"
  using build_post [OF assms(1-3)] nvme_npages_eq [OF assms(4,5)] assms(4)
  by (auto simp: setup_post_def)

end

lemma sg_covers_Cons: "sg_covers sg tot \<Longrightarrow> \<exists>a l sgs. sg = (a, l) # sgs"
  by (cases sg) (auto simp: sg_covers_def)

interpretation sg_descr: prp_descriptor
  "\<lambda>palloc. nvme_setup_prps palloc 4096" "\<lambda>iod. fst (hd (iod_sg iod))" iod_first_dma
  "\<lambda>iod. sg_expected (iod_sg iod)" "\<lambda>iod. sg_covers (iod_sg iod)" "nvme_free_iod 4096"
  "\<lambda>iod. if iod_should_kfree iod then [KfreeIod] else []"
proof (unfold_locales, goal_cases)
  case (1 palloc iod len)
  from sg_covers_Cons [OF 1(3)] obtain a l sgs where "iod_sg iod = (a, l) # sgs" by blast
  note sg = this
  from setup_prps_post [OF 1(1,2) sg 1(3)]
  obtain out where "nvme_setup_prps palloc 4096 iod len = Some out"
      "setup_post palloc iod_first_dma a (sg_expected (iod_sg iod) len) len out"
      "iod_private (snd out) = iod_private iod"
    by blast
  then show ?case by (intro exI [of _ out]) (simp add: sg iod_should_kfree_def)
next
  case (2 iod)
  then show ?case by (simp add: nvme_free_iod_def)
qed

interpretation phys_descr: prp_descriptor
  "\<lambda>palloc iod tot. nvme_setup_phys_prps palloc 4096 iod tot a" "\<lambda>iod. a" pio_prp2
  "\<lambda>iod. seg_pages 4096 (ucast a)" "\<lambda>iod. phys_ok a" "nvme_free_phys_iod 4096" "\<lambda>iod. [KfreeIod]"
  for a
proof (unfold_locales, goal_cases)
  case (1 palloc iod len)
  then show ?case using setup_phys_prps_post by fastforce
next
  case (2 iod)
  then show ?case by (simp add: nvme_free_phys_iod_def)
qed

section \<open>Properties\<close>

text \<open>A pool of two blocks and a descriptor of three segments, for the examples.\<close>

definition sample_pool :: "prp_pool \<Rightarrow> pool_alloc" where
  "sample_pool pool k =
     (case pool of
        SmallPool \<Rightarrow> if k = 0 then Some (0x100, replicate 32 0) else None
      | PagePool \<Rightarrow> if k = 0 then Some (0x1000, replicate 512 0)
                     else if k = 1 then Some (0x2000, replicate 512 0) else None)"

definition sample_iod :: nvme_iod where
  "sample_iod = \<lparr>iod_npages = -1, iod_blocks = [], iod_list = [], iod_private = 0, iod_offset = 0,
     iod_nents = 3, iod_length = 12132, iod_first_dma = 0,
     iod_sg = [(0x11100, 3840), (0x18000, 8192), (0x20000, 100)]\<rparr>"

definition sample_phys_iod :: nvme_phys_iod where
  "sample_phys_iod = \<lparr>iod_npages = -1, iod_blocks = [], iod_list = [], pio_offset = 0,
     pio_length = 0, pio_prp1 = 0, pio_prp2 = 0\<rparr>"

lemma sample_pool_ok: "pool_ok sample_pool"
  by (auto simp: pool_ok_def pool_distinct_def sample_pool_def split: if_splits)

lemma sample_iod_covers: "iod_npages sample_iod = -1" "sg_covers (iod_sg sample_iod) 12132"
  by (simp_all add: sample_iod_def sg_covers_def)

lemma sample_pool_first: "int k \<le> 0 \<Longrightarrow> sample_pool pool k \<noteq> None"
  by (auto simp: sample_pool_def split: prp_pool.split)

text \<open>
  C4: \<open>nvme_setup_prps\<close> is correct. For a scatterlist that describes \<open>tot\<close> bytes, while the pools
  have blocks, it returns the whole length, and the controller that follows PRP1, PRP2 and the
  linked list pages finds exactly the pages of the scatterlist, in order.
\<close>

theorem nvme_setup_prps_correct:
  assumes "pool_ok palloc" "iod_npages iod = -1" "sg_covers (iod_sg iod) tot"
    "\<And>pool k. int k \<le> (tot + 4095) div 4096 div 511 \<Longrightarrow> palloc pool k \<noteq> None"
  shows "\<exists>iod'. nvme_setup_prps palloc 4096 iod tot = Some (tot, iod')
    \<and> controller_pages (map_of (iod_blocks iod')) (fst (hd (iod_sg iod))) (iod_first_dma iod') tot
        = Some (sg_expected (iod_sg iod) tot)"
  using sg_descr.build_complete [OF assms(1-3)] assms(4) by metis

theorem nvme_setup_prps_correct_witness:
  "\<exists>iod'. nvme_setup_prps sample_pool 4096 sample_iod 12132 = Some (12132, iod')
    \<and> controller_pages (map_of (iod_blocks iod')) (fst (hd (iod_sg sample_iod)))
        (iod_first_dma iod') 12132
      = Some (sg_expected (iod_sg sample_iod) 12132)"
  by (rule nvme_setup_prps_correct [OF sample_pool_ok sample_iod_covers sample_pool_first]) simp

text \<open>
  C10: \<open>nvme_setup_phys_prps\<close> is correct on a page-aligned physical address: the controller finds
  the consecutive pages from that address.
\<close>

theorem nvme_setup_phys_prps_correct:
  assumes "pool_ok palloc" "iod_npages iod = -1" "phys_ok a tot"
    "\<And>pool k. int k \<le> (tot + 4095) div 4096 div 511 \<Longrightarrow> palloc pool k \<noteq> None"
  shows "\<exists>iod'. nvme_setup_phys_prps palloc 4096 iod tot a = Some (tot, iod')
    \<and> controller_pages (map_of (iod_blocks iod')) a (pio_prp2 iod') tot
        = Some (seg_pages 4096 (ucast a) tot)"
  using phys_descr.build_complete [OF assms(1-3)] assms(4) by metis

theorem nvme_setup_phys_prps_correct_witness:
  "\<exists>iod'. nvme_setup_phys_prps sample_pool 4096 sample_phys_iod 20000 0x10000 = Some (20000, iod')
    \<and> controller_pages (map_of (iod_blocks iod')) 0x10000 (pio_prp2 iod') 20000
      = Some (seg_pages 4096 (ucast (0x10000 :: dma_addr)) 20000)"
proof (rule nvme_setup_phys_prps_correct [OF sample_pool_ok])
  show "iod_npages sample_phys_iod = -1" by (simp add: sample_phys_iod_def)
  show "phys_ok 0x10000 20000" by (simp add: phys_ok_def)
qed (rule sample_pool_first, simp)



text \<open>
  The physically addressed descriptor: set-up never crashes and
  \<open>nvme_free_phys_iod\<close> returns exactly the allocated blocks and the descriptor.
\<close>

lemma nvme_setup_free_phys_iod:
  assumes "pool_ok palloc" "iod_npages iod = -1" "phys_ok a tot"
  shows "\<exists>ret iod'. nvme_setup_phys_prps palloc 4096 iod tot a = Some (ret, iod') \<and> ret \<le> tot
    \<and> nvme_free_phys_iod 4096 iod' = Some (blocks_of iod' @ [KfreeIod])"
  by (rule phys_descr.build_then_release [OF assms])

lemma nvme_setup_free_phys_iod_witness:
  "\<exists>ret iod'. nvme_setup_phys_prps sample_pool 4096 sample_phys_iod 20000 0x10000 = Some (ret, iod')
    \<and> ret \<le> 20000 \<and> nvme_free_phys_iod 4096 iod' = Some (blocks_of iod' @ [KfreeIod])"
proof (rule nvme_setup_free_phys_iod [OF sample_pool_ok])
  show "iod_npages sample_phys_iod = -1" by (simp add: sample_phys_iod_def)
  show "phys_ok 0x10000 20000" by (simp add: phys_ok_def)
qed

text \<open>
  C11: the pointer array behind the scatterlist is large enough. \<open>nvme_setup_prps\<close> never counts
  more list pages than \<open>nvme_npages\<close>, for which \<open>__nvme_alloc_iod\<close> reserves room.
\<close>

theorem nvme_iod_list_capacity:
  assumes "pool_ok palloc" "iod_npages iod = -1" "sg_covers (iod_sg iod) tot" "0 \<le> tot" "tot \<le> 2 ^ 30"
  shows "\<exists>ret iod'. nvme_setup_prps palloc 4096 iod tot = Some (ret, iod')
    \<and> iod_npages iod' \<le> uint (nvme_npages (of_int tot) 4096)"
  by (rule sg_descr.build_capacity [OF assms])

theorem nvme_iod_list_capacity_witness:
  "\<exists>ret iod'. nvme_setup_prps sample_pool 4096 sample_iod 12132 = Some (ret, iod')
    \<and> iod_npages iod' \<le> uint (nvme_npages (of_int 12132) 4096)"
  by (rule nvme_iod_list_capacity [OF sample_pool_ok sample_iod_covers]) simp_all

text \<open>
  The page-aligned address is needed. At an address that is not page aligned
  \<open>nvme_setup_phys_prps\<close> puts the unaligned address one page on into PRP2, where the controller
  expects the offset 0 of the second page.
\<close>

lemma phys_prp2_unaligned:
  assumes "uint a mod 4096 \<noteq> 0" "first_bytes a < tot" "tot \<le> first_bytes a + 4096"
  shows "nvme_setup_phys_prps palloc 4096 iod tot a
      = Some (tot, iod\<lparr>pio_prp1 := a, pio_prp2 := a + 4096\<rparr>)
    \<and> uint (a + 4096) mod 4096 \<noteq> 0"
proof
  show "nvme_setup_phys_prps palloc 4096 iod tot a
      = Some (tot, iod\<lparr>pio_prp1 := a, pio_prp2 := a + 4096\<rparr>)"
    unfolding nvme_setup_phys_prps_def page_offset Let_def uint_page using assms(2,3) by simp
  have "uint (a + 4096) mod 4096 = (uint a + 4096) mod 2 ^ 32 mod 4096"
    by (simp add: uint_word_ariths)
  also have "\<dots> = (uint a + 4096) mod 4096" by (rule mod_mod_cancel) simp
  finally show "uint (a + 4096) mod 4096 \<noteq> 0" using assms(1) by simp
qed

lemma phys_prp2_unaligned_witness:
  "nvme_setup_phys_prps sample_pool 4096 sample_phys_iod 4096 0x10010
      = Some (4096, sample_phys_iod\<lparr>pio_prp1 := 0x10010, pio_prp2 := 0x10010 + 4096\<rparr>)
    \<and> uint (0x10010 + 4096 :: dma_addr) mod 4096 \<noteq> 0"
  by (rule phys_prp2_unaligned) simp_all

end
