(* ===== verification/Nvme_Block.thy ===== *)
theory Nvme_Block
  imports Nvme_Complete Prp_Setup
begin

text \<open>
  The block-layer path of src/nvme-core.c: descriptors for requests (\<open>nvme_alloc_iod\<close>), the three
  command builders that write straight into the submission ring (\<open>nvme_submit_discard\<close>,
  \<open>nvme_submit_flush\<close>, \<open>nvme_submit_iod\<close>) and \<open>nvme_queue_rq\<close> with all its error exits.

  What the kernel returns to \<open>nvme_queue_rq\<close> (kmalloc, the DMA pools, the scatterlist that
  blk_rq_map_sg and dma_map_sg produce) is the record \<open>rq_env\<close>.
\<close>

abbreviation NVME_RW_LR :: u16 where "NVME_RW_LR \<equiv> 0x8000"
abbreviation NVME_RW_FUA :: u16 where "NVME_RW_FUA \<equiv> 0x4000"
abbreviation NVME_RW_PRINFO_PRACT :: u16 where "NVME_RW_PRINFO_PRACT \<equiv> 0x2000"
abbreviation NVME_RW_PRINFO_PRCHK_GUARD :: u16 where "NVME_RW_PRINFO_PRCHK_GUARD \<equiv> 0x1000"
abbreviation NVME_RW_PRINFO_PRCHK_REF :: u16 where "NVME_RW_PRINFO_PRCHK_REF \<equiv> 0x400"
abbreviation NVME_RW_DSM_FREQ_PREFETCH :: u32 where "NVME_RW_DSM_FREQ_PREFETCH \<equiv> 7"
abbreviation NVME_DSMGMT_AD :: u32 where "NVME_DSMGMT_AD \<equiv> 4"
abbreviation NVME_NS_DPS_PI_TYPE1 :: u8 where "NVME_NS_DPS_PI_TYPE1 \<equiv> 1"
abbreviation NVME_NS_DPS_PI_TYPE2 :: u8 where "NVME_NS_DPS_PI_TYPE2 \<equiv> 2"
abbreviation NVME_NS_DPS_PI_TYPE3 :: u8 where "NVME_NS_DPS_PI_TYPE3 \<equiv> 3"

record rq_env =
  env_kmalloc :: "u32 \<Rightarrow> nvme_iod option"
  env_pdu_iod :: nvme_iod
  env_palloc :: "prp_pool \<Rightarrow> pool_alloc"
  env_sg :: scatterlist
  env_dma_map_sg :: bool
  env_count_integrity_sg :: int
  env_map_integrity_sg :: int
  env_dma_map_meta :: bool

section \<open>Descriptors of requests\<close>

definition nvme_alloc_iod :: "rq_env \<Rightarrow> rq_ptr \<Rightarrow> request \<Rightarrow> u32 \<Rightarrow> nvme_iod option" where
  "nvme_alloc_iod env r rq page_size =
     (let bytes = (if REQ_DISCARD \<notin> rq_flags rq then rq_bytes rq else 16)
      in if rq_nr_phys_segments rq \<le> NVME_INT_PAGES \<and> bytes \<le> NVME_INT_PAGES * page_size
         then Some (iod_init (env_pdu_iod env) bytes (rq_nr_phys_segments rq) (r OR NVME_INT_MASK))
         else alloc_iod (env_kmalloc env) (rq_nr_phys_segments rq) bytes page_size r)"

section \<open>Commands written into the ring\<close>

definition nvme_block_nr :: "nvme_ns \<Rightarrow> u64 \<Rightarrow> u64" where
  "nvme_block_nr ns sector = drop_bit (nat (ns_lba_shift ns - 9)) sector"

text \<open>
  \<open>nvme_submit_discard\<close> fills the 16-byte range in the pool block (cattr and nlb are the halves of
  the first word) and writes the command.
\<close>

definition discard_range :: "nvme_ns \<Rightarrow> request \<Rightarrow> nvme_iod \<Rightarrow> nvme_iod option" where
  "discard_range ns req iod =
     (case iod_blocks iod of
        (d, w0 # w1 # ws) # bs \<Rightarrow>
          Some (iod\<lparr>iod_blocks :=
            (d, push_bit 32 (ucast (drop_bit (nat (ns_lba_shift ns)) (rq_bytes req)))
                # nvme_block_nr ns (rq_pos req) # ws) # bs\<rparr>)
      | _ \<Rightarrow> None)"

definition nvme_submit_discard ::
  "nat \<Rightarrow> nvme_ns \<Rightarrow> request \<Rightarrow> nvme_iod \<Rightarrow> nvme_dev \<Rightarrow> nvme_dev option" where
  "nvme_submit_discard i ns req iod dev =
     do { q \<leftarrow> get_queue dev i;
          q' \<leftarrow> sq_push (CmdDsm (zero_dsm\<lparr>dsm_opcode := nvme_cmd_dsm, dsm_command_id := rq_tag req,
                  dsm_nsid := ns_id ns, dsm_prp1 := ucast (iod_first_dma iod), dsm_nr := 0,
                  dsm_attributes := NVME_DSMGMT_AD\<rparr>)) q;
          Some (kernel_log [Writel (q_db q) (ucast (q_sq_tail q'))] (put_queue i q' dev)) }"

definition nvme_submit_flush :: "nat \<Rightarrow> nvme_ns \<Rightarrow> u16 \<Rightarrow> nvme_dev \<Rightarrow> nvme_dev option" where
  "nvme_submit_flush i ns cmdid dev =
     do { q \<leftarrow> get_queue dev i;
          q' \<leftarrow> sq_push (CmdCommon (zero_common\<lparr>common_opcode := nvme_cmd_flush,
                  common_command_id := cmdid, common_nsid := ns_id ns\<rparr>)) q;
          Some (kernel_log [Writel (q_db q) (ucast (q_sq_tail q'))] (put_queue i q' dev)) }"

definition rw_control_flags :: "nvme_ns \<Rightarrow> request \<Rightarrow> u16" where
  "rw_control_flags ns req =
     (let control = (if REQ_FUA \<in> rq_flags req then NVME_RW_FUA else 0)
            OR (if REQ_FAILFAST_DEV \<in> rq_flags req \<or> REQ_RAHEAD \<in> rq_flags req then NVME_RW_LR else 0)
      in if rq_integrity req
         then (if ns_pi_type ns = NVME_NS_DPS_PI_TYPE3 then control OR NVME_RW_PRINFO_PRCHK_GUARD
               else if ns_pi_type ns = NVME_NS_DPS_PI_TYPE1 \<or> ns_pi_type ns = NVME_NS_DPS_PI_TYPE2
               then control OR (NVME_RW_PRINFO_PRCHK_GUARD OR NVME_RW_PRINFO_PRCHK_REF)
               else control)
         else if ns_ms ns \<noteq> 0 then control OR NVME_RW_PRINFO_PRACT else control)"

definition rw_of_request :: "nvme_ns \<Rightarrow> request \<Rightarrow> nvme_iod \<Rightarrow> nvme_rw_command" where
  "rw_of_request ns req iod =
     zero_rw\<lparr>rw_opcode := (if rq_write req then nvme_cmd_write else nvme_cmd_read),
       rw_command_id := rq_tag req,
       rw_nsid := ns_id ns,
       rw_prp1 := ucast (fst (hd (iod_sg iod))),
       rw_prp2 := ucast (iod_first_dma iod),
       rw_slba := nvme_block_nr ns (rq_pos req),
       rw_length := ucast (drop_bit (nat (ns_lba_shift ns)) (rq_bytes req) - 1),
       rw_metadata := (if rq_integrity req then ucast (rq_meta_dma req) else 0),
       rw_reftag := (if rq_integrity req
                        \<and> (ns_pi_type ns = NVME_NS_DPS_PI_TYPE1 \<or> ns_pi_type ns = NVME_NS_DPS_PI_TYPE2)
                     then ucast (nvme_block_nr ns (rq_pos req)) else 0),
       rw_control := rw_control_flags ns req,
       rw_dsmgmt := (if REQ_RAHEAD \<in> rq_flags req then NVME_RW_DSM_FREQ_PREFETCH else 0)\<rparr>"

definition nvme_submit_iod ::
  "nat \<Rightarrow> nvme_iod \<Rightarrow> nvme_ns \<Rightarrow> nvme_dev \<Rightarrow> (int \<times> nvme_dev) option" where
  "nvme_submit_iod i iod ns dev =
     do { q \<leftarrow> get_queue dev i;
          req \<leftarrow> d_requests dev (iod_get_private iod);
          q' \<leftarrow> sq_push (CmdRw (rw_of_request ns req iod)) q;
          Some (0, kernel_log [Writel (q_db q) (ucast (q_sq_tail q'))] (put_queue i q' dev)) }"

section \<open>nvme_queue_rq\<close>

datatype queue_rq_result = BLK_MQ_RQ_QUEUE_OK | BLK_MQ_RQ_QUEUE_BUSY | BLK_MQ_RQ_QUEUE_ERROR

text \<open>
  The set-up of the descriptor: Inl is one of the exits \<open>retry_cmd\<close> and \<open>error_cmd\<close> with the
  descriptor and the events so far, Inr the descriptor ready to submit.
\<close>

definition queue_rq_map ::
  "rq_env \<Rightarrow> rq_ptr \<Rightarrow> request \<Rightarrow> u32 \<Rightarrow> nvme_iod
     \<Rightarrow> ((queue_rq_result \<times> nvme_iod) + nvme_iod) option \<times> kevent list" where
  "queue_rq_map env r req page_size iod =
     (if REQ_DISCARD \<in> rq_flags req
      then (case env_palloc env SmallPool 0 of
              None \<Rightarrow> (Some (Inl (BLK_MQ_RQ_QUEUE_BUSY, iod)), [])
            | Some (d, es) \<Rightarrow>
                (Some (Inr (iod\<lparr>iod_first_dma := d, iod_blocks := [(d, es)], iod_list := [0],
                               iod_npages := 0\<rparr>)), []))
      else if rq_nr_phys_segments req \<noteq> 0
      then (let iod1 = iod\<lparr>iod_sg := env_sg env, iod_nents := int (length (env_sg env))\<rparr>
            in if iod_nents iod1 = 0 then (Some (Inl (BLK_MQ_RQ_QUEUE_ERROR, iod1)), [])
               else if \<not> env_dma_map_sg env then (Some (Inl (BLK_MQ_RQ_QUEUE_BUSY, iod1)), [])
               else case nvme_setup_prps (env_palloc env) page_size iod1 (uint (rq_bytes req)) of
                      None \<Rightarrow> (None, [])
                    | Some (ret, iod2) \<Rightarrow>
                        if uint (rq_bytes req) \<noteq> ret
                        then (Some (Inl (BLK_MQ_RQ_QUEUE_BUSY, iod2)), [DmaUnmapSg r (rq_write req)])
                        else if rq_integrity req
                        then (if env_count_integrity_sg env \<noteq> 1
                              then (Some (Inl (BLK_MQ_RQ_QUEUE_ERROR, iod2)), [])
                              else if env_map_integrity_sg env \<noteq> 1
                              then (Some (Inl (BLK_MQ_RQ_QUEUE_ERROR, iod2)), [])
                              else if \<not> env_dma_map_meta env
                              then (Some (Inl (BLK_MQ_RQ_QUEUE_ERROR, iod2)),
                                    if rq_write req then [DifPrep r] else [])
                              else (Some (Inr iod2), if rq_write req then [DifPrep r] else []))
                        else (Some (Inr iod2), []))
      else (Some (Inr iod), []))"

definition queue_rq_submit ::
  "nat \<Rightarrow> nvme_ns \<Rightarrow> rq_ptr \<Rightarrow> request \<Rightarrow> nvme_iod \<Rightarrow> nvme_dev \<Rightarrow> nvme_dev option" where
  "queue_rq_submit i ns r req iod dev =
     do { iod1 \<leftarrow> (if REQ_DISCARD \<in> rq_flags req then discard_range ns req iod else Some iod);
          dev1 \<leftarrow> nvme_set_info r (CtxIod iod1) req_completion_fn dev;
          dev2 \<leftarrow> (if REQ_DISCARD \<in> rq_flags req then nvme_submit_discard i ns req iod1 dev1
                  else if REQ_FLUSH \<in> rq_flags req then nvme_submit_flush i ns (rq_tag req) dev1
                  else map_option snd (nvme_submit_iod i iod1 ns dev1));
          map_option snd (nvme_process_cq i dev2) }"

definition nvme_queue_rq ::
  "rq_env \<Rightarrow> nvme_ns \<Rightarrow> nat \<Rightarrow> rq_ptr \<Rightarrow> nvme_dev \<Rightarrow> (queue_rq_result \<times> nvme_dev) option" where
  "nvme_queue_rq env ns hctx r dev =
     do { i \<leftarrow> d_hctx_driver dev hctx;
          req \<leftarrow> d_requests dev r;
          if ns_ms ns \<noteq> 0 \<and> \<not> rq_integrity req \<and> \<not> (ns_pi_type ns \<noteq> 0 \<and> ns_ms ns = 8)
          then Some (BLK_MQ_RQ_QUEUE_OK,
                 kernel_log [CompleteRequest r] (put_request r (req\<lparr>rq_errors := - EFAULT\<rparr>) dev))
          else case nvme_alloc_iod env r req (d_page_size dev) of
                 None \<Rightarrow> Some (BLK_MQ_RQ_QUEUE_BUSY, dev)
               | Some iod \<Rightarrow>
                   (let (res, evs) = queue_rq_map env r req (d_page_size dev) iod
                    in case res of
                         None \<Rightarrow> None
                       | Some (Inl (ret, iod')) \<Rightarrow>
                           do { frees \<leftarrow> nvme_free_iod (d_page_size dev) iod';
                                Some (ret, kernel_log (evs @ map Freed frees) dev) }
                       | Some (Inr iod') \<Rightarrow>
                           do { dev' \<leftarrow> queue_rq_submit i ns r req iod' (kernel_log evs dev);
                                Some (BLK_MQ_RQ_QUEUE_OK, dev') }) }"

definition nvme_admin_queue_rq :: "nvme_dev \<Rightarrow> queue_rq_result \<times> nvme_dev" where
  "nvme_admin_queue_rq dev = (BLK_MQ_RQ_QUEUE_ERROR, dev)"

section \<open>Properties\<close>

text \<open>
  C13: a command is completed at most once. After \<open>nvme_set_info\<close> the first completion with the tag
  of the request finds exactly the handler and context that were stored, and every later one
  finds \<open>special_completion\<close> with CMD_CTX_COMPLETED, which only warns. (The tag is above 31, or the
  queue is the admin queue: see the slots of the character device.)
\<close>

theorem set_info_finish_once:
  assumes "get_queue dev i = Some q" "q_hctx q = Some hctx" "d_tag_to_rq dev hctx tag = Some r"
    "tag < unat (q_depth q)" "q_qid q = 0 \<or> 31 < tag" "d_requests dev r = Some req"
  shows "\<exists>dev1 dev2. nvme_set_info r ctx h dev = Some dev1
    \<and> nvme_finish_cmd i tag dev1 = Some (ctx, Some h, dev2)
    \<and> (\<exists>dev3. nvme_finish_cmd i tag dev2 = Some (CMD_CTX_COMPLETED, Some special_completion_fn, dev3)
        \<and> d_requests dev3 = d_requests dev2 \<and> get_queue dev3 = get_queue dev2)"
  using assms
  by (auto simp: nvme_set_info_def nvme_finish_cmd_def get_cmd_from_tag_def finished_def fun_eq_iff)

definition sample_rq_dev :: nvme_dev where
  "sample_rq_dev = sample_dev\<lparr>d_queues := [None, Some (sample_queue\<lparr>q_depth := 64, q_hctx := Some 0\<rparr>)],
     d_requests := [0x8000 \<mapsto> sample_req], d_hctx_driver := [0 \<mapsto> 1],
     d_tag_to_rq := (\<lambda>h t. if t = 40 then Some 0x8000 else None)\<rparr>"

theorem set_info_finish_once_witness:
  "\<exists>dev1 dev2. nvme_set_info 0x8000 (CtxSync 5) sync_completion_fn sample_rq_dev = Some dev1
    \<and> nvme_finish_cmd 1 40 dev1 = Some (CtxSync 5, Some sync_completion_fn, dev2)
    \<and> (\<exists>dev3. nvme_finish_cmd 1 40 dev2 = Some (CMD_CTX_COMPLETED, Some special_completion_fn, dev3)
        \<and> d_requests dev3 = d_requests dev2 \<and> get_queue dev3 = get_queue dev2)"
  by (rule set_info_finish_once [of _ _ "sample_queue\<lparr>q_depth := 64, q_hctx := Some 0\<rparr>" 0])
    (simp_all add: sample_rq_dev_def get_queue_def)

lemma unat_push_drop:
  assumes "2 ^ n dvd unat (w :: 'a::len word)"
  shows "unat (drop_bit n w) * 2 ^ n = unat w"
proof -
  have "unat (drop_bit n w) = drop_bit n (unat w)"
    using unsigned_less [of w, where ?'a = nat]
    by (simp add: unsigned_drop_bit_eq take_bit_nat_eq_self)
  then show ?thesis using assms by (simp add: drop_bit_eq_div)
qed

text \<open>
  C17: the read or write command of a request covers exactly its data: the start block times the
  block size is the byte position of the request, and the (zero-based) block count times the
  block size is its length.
\<close>

theorem rw_of_request_exact:
  assumes "9 \<le> ns_lba_shift ns" "ns_lba_shift ns < 32"
    "2 ^ nat (ns_lba_shift ns) dvd unat (rq_pos req) * 512"
    "2 ^ nat (ns_lba_shift ns) dvd unat (rq_bytes req)" "0 < rq_bytes req"
    "unat (rq_bytes req) \<le> 65536 * 2 ^ nat (ns_lba_shift ns)"
  shows "unat (rw_slba (rw_of_request ns req iod)) * 2 ^ nat (ns_lba_shift ns) = unat (rq_pos req) * 512
    \<and> (unat (rw_length (rw_of_request ns req iod)) + 1) * 2 ^ nat (ns_lba_shift ns) = unat (rq_bytes req)"
proof
  let ?s = "nat (ns_lba_shift ns)"
  obtain k where k: "?s = k + 9" "nat (ns_lba_shift ns - 9) = k"
    using assms(1) by (metis add.commute le_add_diff_inverse nat_diff_distrib' nat_le_eq_zle
        nat_numeral zero_le_numeral order_trans)
  have "(2 :: nat) ^ ?s = 2 ^ k * 512" by (simp add: k(1) power_add)
  then have "2 ^ k dvd unat (rq_pos req)" using assms(3) by simp
  then have "unat (drop_bit k (rq_pos req)) * 2 ^ k = unat (rq_pos req)" by (rule unat_push_drop)
  then show "unat (rw_slba (rw_of_request ns req iod)) * 2 ^ ?s = unat (rq_pos req) * 512"
    using \<open>(2 :: nat) ^ ?s = 2 ^ k * 512\<close> by (simp add: rw_of_request_def nvme_block_nr_def k(2))
  let ?n = "drop_bit ?s (rq_bytes req)"
  have n: "unat ?n * 2 ^ ?s = unat (rq_bytes req)" by (rule unat_push_drop [OF assms(4)])
  have "0 < unat (rq_bytes req)" using assms(5) by (simp add: word_less_nat_alt)
  with n have n0: "0 < unat ?n" by (metis mult_is_0 neq0_conv)
  then have "unat (?n - 1) = unat ?n - 1" by (simp add: unat_minus_one word_neq_0_conv word_less_nat_alt)
  moreover have "unat ?n \<le> 65536" using n assms(6) by (metis mult_le_cancel2 zero_less_power zero_less_numeral)
  ultimately have "unat (ucast (?n - 1) :: u16) = unat ?n - 1"
    using n0 by (simp add: unsigned_ucast_eq take_bit_nat_eq_self)
  then show "(unat (rw_length (rw_of_request ns req iod)) + 1) * 2 ^ ?s = unat (rq_bytes req)"
    using n n0 by (simp add: rw_of_request_def)
qed

definition sample_ns :: nvme_ns where
  "sample_ns = \<lparr>ns_id = 1, ns_lba_shift = 12, ns_ms = 0, ns_ext = False, ns_pi_type = 0, ns_queue = 3\<rparr>"

theorem rw_of_request_exact_witness:
  "unat (rw_slba (rw_of_request sample_ns sample_req sample_done_iod)) * 2 ^ nat (ns_lba_shift sample_ns)
      = unat (rq_pos sample_req) * 512
    \<and> (unat (rw_length (rw_of_request sample_ns sample_req sample_done_iod)) + 1)
        * 2 ^ nat (ns_lba_shift sample_ns) = unat (rq_bytes sample_req)"
  by (rule rw_of_request_exact) (simp_all add: sample_ns_def sample_req_def)

text \<open>
  C19: when the PRP pools run dry \<open>nvme_queue_rq\<close> backs out completely: the data is unmapped, every
  block that was allocated is returned with the descriptor, the queue and the request are as
  before, and the block layer is told to try again.
\<close>

theorem nvme_queue_rq_backs_out:
  assumes "d_hctx_driver dev hctx = Some i" "d_requests dev r = Some req" "ns_ms ns = 0"
    "d_page_size dev = 4096" "REQ_DISCARD \<notin> rq_flags req" "rq_nr_phys_segments req \<noteq> 0"
    "nvme_alloc_iod env r req 4096 = Some iod" "env_dma_map_sg env" "pool_ok (env_palloc env)"
    "sg_covers (env_sg env) (uint (rq_bytes req))"
    "nvme_setup_prps (env_palloc env) 4096
       (iod\<lparr>iod_sg := env_sg env, iod_nents := int (length (env_sg env))\<rparr>) (uint (rq_bytes req))
       = Some (ret, iod')" "ret \<noteq> uint (rq_bytes req)"
  shows "nvme_queue_rq env ns hctx r dev = Some (BLK_MQ_RQ_QUEUE_BUSY,
    kernel_log (DmaUnmapSg r (rq_write req)
      # map Freed (blocks_of iod' @ (if iod_should_kfree iod then [KfreeIod] else []))) dev)"
proof -
  let ?iod = "iod\<lparr>iod_sg := env_sg env, iod_nents := int (length (env_sg env))\<rparr>"
  from sg_covers_Cons [OF assms(10)] have ne: "env_sg env \<noteq> []" by auto
  have "iod_npages iod = -1"
    using assms(7) by (auto simp: nvme_alloc_iod_def alloc_iod_def iod_init_def Let_def
        split: if_splits option.splits)
  then have np: "iod_npages ?iod = -1" by simp
  from sg_descr.build_then_release [OF assms(9) np, of "uint (rq_bytes req)"] assms(10,11)
  have "nvme_free_iod 4096 iod' = Some (blocks_of iod' @ (if iod_should_kfree ?iod then [KfreeIod] else []))"
    by simp
  moreover have "iod_should_kfree ?iod = iod_should_kfree iod" by (simp add: iod_should_kfree_def)
  moreover have "queue_rq_map env r req 4096 iod
      = (Some (Inl (BLK_MQ_RQ_QUEUE_BUSY, iod')), [DmaUnmapSg r (rq_write req)])"
    using assms ne by (simp add: queue_rq_map_def Let_def)
  ultimately show ?thesis using assms by (simp add: nvme_queue_rq_def)
qed

definition dry_env :: rq_env where
  "dry_env = \<lparr>env_kmalloc = (\<lambda>_. Some sample_iod), env_pdu_iod = sample_iod,
     env_palloc = (\<lambda>pool k. None), env_sg = iod_sg sample_iod, env_dma_map_sg = True,
     env_count_integrity_sg = 0, env_map_integrity_sg = 0, env_dma_map_meta = False\<rparr>"

definition big_req :: request where
  "big_req = sample_req\<lparr>rq_bytes := 12132, rq_nr_phys_segments := 3\<rparr>"

theorem nvme_queue_rq_backs_out_witness:
  "\<exists>(iod :: nvme_iod) (iod' :: nvme_iod). nvme_queue_rq dry_env sample_ns 0 0x8000
      (sample_rq_dev\<lparr>d_requests := [0x8000 \<mapsto> big_req]\<rparr>) = Some (BLK_MQ_RQ_QUEUE_BUSY,
    kernel_log (DmaUnmapSg 0x8000 (rq_write big_req)
      # map Freed (blocks_of iod' @ (if iod_should_kfree iod then [KfreeIod] else [])))
      (sample_rq_dev\<lparr>d_requests := [0x8000 \<mapsto> big_req]\<rparr>))"
proof -
  define iod where "iod = iod_init sample_iod 12132 3 0x8000"
  have a: "nvme_alloc_iod dry_env 0x8000 big_req 4096 = Some iod"
    by (simp add: nvme_alloc_iod_def big_req_def sample_req_def dry_env_def alloc_iod_def iod_def)
  let ?iod = "iod\<lparr>iod_sg := env_sg dry_env, iod_nents := int (length (env_sg dry_env))\<rparr>"
  have ok: "pool_ok (env_palloc dry_env)" by (simp add: pool_ok_def dry_env_def pool_distinct_def)
  have sg: "sg_covers (env_sg dry_env) (uint (rq_bytes big_req))"
    using sample_iod_covers by (simp add: dry_env_def big_req_def sample_req_def)
  have b: "uint (rq_bytes big_req) = 12132" by (simp add: big_req_def)
  have "nvme_setup_prps (env_palloc dry_env) 4096 ?iod 12132
      = Some (7936, ?iod\<lparr>iod_first_dma := 0x18000, iod_npages := -1\<rparr>)"
    by (simp add: nvme_setup_prps_def dry_env_def sample_iod_def iod_def iod_init_def prp_pool_of_def)
  then obtain ret iod' where
      s: "nvme_setup_prps (env_palloc dry_env) 4096 ?iod (uint (rq_bytes big_req)) = Some (ret, iod')"
        "ret \<noteq> uint (rq_bytes big_req)"
    by (simp add: b)
  have "nvme_queue_rq dry_env sample_ns 0 0x8000
      (sample_rq_dev\<lparr>d_requests := [0x8000 \<mapsto> big_req]\<rparr>) = Some (BLK_MQ_RQ_QUEUE_BUSY,
    kernel_log (DmaUnmapSg 0x8000 (rq_write big_req)
      # map Freed (blocks_of iod' @ (if iod_should_kfree iod then [KfreeIod] else [])))
      (sample_rq_dev\<lparr>d_requests := [0x8000 \<mapsto> big_req]\<rparr>))"
    by (rule nvme_queue_rq_backs_out [OF _ _ _ _ _ _ a _ ok sg s])
      (simp_all add: sample_rq_dev_def sample_dev_def sample_ns_def big_req_def sample_req_def dry_env_def)
  then show ?thesis by blast
qed

end
