(* ===== verification/Nvme_Admin.thy ===== *)
theory Nvme_Admin
  imports Nvme_Complete
begin

text \<open>
  Submission from process context: \<open>nvme_submit_sync_cmd\<close> and its users, \<open>nvme_submit_chario_cmd\<close>,
  the asynchronous admin commands and the admin command builders of src/nvme-core.c.

  The record \<open>task_env\<close> is what the kernel gives the calling task: the task itself, the address
  of its on-stack command information with the stale value of the result field, the request
  that blk_mq_alloc_request returns (Inl an error), and the state of the driver when schedule()
  returns, by then the interrupt handlers have run.
\<close>

record task_env =
  t_current :: nat
  t_frame :: nat
  t_garbage :: u32
  t_alloc :: "nvme_dev \<Rightarrow> int + rq_ptr"
  t_sched :: "nvme_dev \<Rightarrow> nvme_dev"

abbreviation NVME_QUEUE_PHYS_CONTIG :: u16 where "NVME_QUEUE_PHYS_CONTIG \<equiv> 1"
abbreviation NVME_CQ_IRQ_ENABLED :: u16 where "NVME_CQ_IRQ_ENABLED \<equiv> 2"
abbreviation NVME_SQ_PRIO_MEDIUM :: u16 where "NVME_SQ_PRIO_MEDIUM \<equiv> 4"

section \<open>Synchronous commands\<close>

definition nvme_submit_sync_cmd ::
  "task_env \<Rightarrow> rq_ptr \<Rightarrow> nvme_command \<Rightarrow> nvme_dev \<Rightarrow> (int \<times> u32 \<times> nvme_dev) option" where
  "nvme_submit_sync_cmd env r cmd dev =
     do { req \<leftarrow> d_requests dev r;
          i \<leftarrow> ci_nvmeq (rq_cmd req);
          let dev1 = dev\<lparr>d_sync := (d_sync dev)(t_frame env \<mapsto>
             \<lparr>sync_task = t_current env, sync_result = t_garbage env, sync_status = - EINTR\<rparr>)\<rparr>;
          dev2 \<leftarrow> nvme_set_info r (CtxSync (t_frame env)) sync_completion_fn dev1;
          (_, dev3) \<leftarrow> nvme_submit_cmd i (set_command_id (rq_tag req) cmd) dev2;
          let dev4 = t_sched env dev3;
          info \<leftarrow> d_sync dev4 (t_frame env);
          Some (sync_status info, sync_result info, dev4) }"

text \<open>
  \<open>nvme_submit_chario_cmd\<close> uses queue 1 and the next of its 32 command slots; a slot outside the
  array or a NULL slot crashes.
\<close>

definition nvme_submit_chario_cmd :: "nvme_command \<Rightarrow> nat \<Rightarrow> nvme_dev \<Rightarrow> (int \<times> nvme_dev) option" where
  "nvme_submit_chario_cmd cmd info dev =
     do { q \<leftarrow> get_queue dev 1;
          let tag = q_next_chario_tag q;
          if tag < 0 \<or> tag \<ge> int (length (q_chario_cmds q)) then None
          else do { slot \<leftarrow> q_chario_cmds q ! nat tag;
                    let slot' = slot\<lparr>ci_fn := Some chario_completion_fn, ci_ctx := CtxChario info,
                                     ci_aborted := 0, ci_nvmeq := Some 1\<rparr>;
                    let dev1 = put_queue 1 (q\<lparr>q_next_chario_tag := tag + 1,
                                 q_chario_cmds := (q_chario_cmds q)[nat tag := Some slot']\<rparr>) dev;
                    (_, dev2) \<leftarrow> nvme_submit_cmd_chario 1 (set_command_id (of_int tag) cmd) dev1;
                    Some (0, dev2) } }"

definition nvme_submit_async_admin_req :: "task_env \<Rightarrow> nvme_dev \<Rightarrow> (int \<times> nvme_dev) option" where
  "nvme_submit_async_admin_req env dev =
     (case t_alloc env dev of Inl err \<Rightarrow> Some (err, dev)
      | Inr r \<Rightarrow>
          do { req \<leftarrow> d_requests dev r;
               dev1 \<leftarrow> nvme_set_info r CtxNull async_req_completion_fn
                  (put_request r (req\<lparr>rq_flags := insert REQ_NO_TIMEOUT (rq_flags req)\<rparr>) dev);
               submit_cmd_locked 0 (CmdCommon (zero_common\<lparr>common_opcode := nvme_admin_async_event,
                   common_command_id := rq_tag req\<rparr>)) (kernel_log [FreeHctxRequest r] dev1) })"

definition nvme_submit_admin_async_cmd ::
  "task_env \<Rightarrow> nvme_command \<Rightarrow> nat \<Rightarrow> u32 \<Rightarrow> nvme_dev \<Rightarrow> (int \<times> nvme_dev) option" where
  "nvme_submit_admin_async_cmd env cmd a timeout dev =
     (case t_alloc env dev of Inl err \<Rightarrow> Some (err, dev)
      | Inr r \<Rightarrow>
          do { req \<leftarrow> d_requests dev r;
               info \<leftarrow> d_async dev a;
               dev1 \<leftarrow> nvme_set_info r (CtxAsync a) async_completion_fn
                  (put_request r (req\<lparr>rq_timeout := timeout\<rparr>) dev);
               let dev2 = dev1\<lparr>d_async := (d_async dev)(a \<mapsto>
                            info\<lparr>async_req := r, async_status := - EINTR\<rparr>)\<rparr>;
               nvme_submit_cmd 0 (set_command_id (rq_tag req) cmd) dev2 })"

definition submit_admin_cmd_timeout ::
  "task_env \<Rightarrow> nvme_command \<Rightarrow> nvme_dev \<Rightarrow> (int \<times> u32 \<times> nvme_dev) option" where
  "submit_admin_cmd_timeout env cmd dev =
     (case t_alloc env dev of Inl err \<Rightarrow> Some (err, t_garbage env, dev)
      | Inr r \<Rightarrow>
          do { (res, result, dev') \<leftarrow> nvme_submit_sync_cmd env r cmd dev;
               Some (res, result, kernel_log [FreeRequest r] dev') })"

definition nvme_submit_admin_cmd ::
  "task_env \<Rightarrow> nvme_command \<Rightarrow> nvme_dev \<Rightarrow> (int \<times> u32 \<times> nvme_dev) option" where
  "nvme_submit_admin_cmd env cmd dev = submit_admin_cmd_timeout env cmd dev"

definition nvme_submit_io_cmd ::
  "task_env \<Rightarrow> nvme_command \<Rightarrow> nvme_dev \<Rightarrow> (int \<times> u32 \<times> nvme_dev) option" where
  "nvme_submit_io_cmd env cmd dev =
     (case t_alloc env dev of Inl err \<Rightarrow> Some (err, t_garbage env, dev)
      | Inr r \<Rightarrow>
          do { (res, result, dev') \<leftarrow> nvme_submit_sync_cmd env r cmd dev;
               Some (res, result, kernel_log [FreeRequest r] dev') })"

definition nvme_submit_chario_io_cmd :: "nvme_command \<Rightarrow> nat \<Rightarrow> nvme_dev \<Rightarrow> (int \<times> nvme_dev) option" where
  "nvme_submit_chario_io_cmd cmd info dev = nvme_submit_chario_cmd cmd info dev"

section \<open>Admin commands\<close>

definition status_only :: "(int \<times> u32 \<times> nvme_dev) option \<Rightarrow> (int \<times> nvme_dev) option" where
  "status_only res = map_option (\<lambda>(st, _, dev). (st, dev)) res"

definition delete_queue_cmd :: "u8 \<Rightarrow> u16 \<Rightarrow> nvme_command" where
  "delete_queue_cmd opcode qid =
     CmdDeleteQueue (zero_delete_queue\<lparr>delete_queue_opcode := opcode, delete_queue_qid := qid\<rparr>)"

definition adapter_delete_queue :: "task_env \<Rightarrow> u8 \<Rightarrow> u16 \<Rightarrow> nvme_dev \<Rightarrow> (int \<times> nvme_dev) option" where
  "adapter_delete_queue env opcode qid dev =
     status_only (nvme_submit_admin_cmd env (delete_queue_cmd opcode qid) dev)"

definition create_cq_cmd :: "u16 \<Rightarrow> nvme_queue \<Rightarrow> nvme_command" where
  "create_cq_cmd qid nvmeq =
     CmdCreateCq (zero_create_cq\<lparr>create_cq_opcode := nvme_admin_create_cq,
       create_cq_prp1 := ucast (q_cq_dma_addr nvmeq), create_cq_cqid := qid,
       create_cq_qsize := q_depth nvmeq - 1,
       create_cq_cq_flags := NVME_QUEUE_PHYS_CONTIG OR NVME_CQ_IRQ_ENABLED,
       create_cq_irq_vector := of_int (q_cq_vector nvmeq)\<rparr>)"

definition adapter_alloc_cq :: "task_env \<Rightarrow> u16 \<Rightarrow> nvme_queue \<Rightarrow> nvme_dev \<Rightarrow> (int \<times> nvme_dev) option" where
  "adapter_alloc_cq env qid nvmeq dev =
     status_only (nvme_submit_admin_cmd env (create_cq_cmd qid nvmeq) dev)"

definition create_sq_cmd :: "u16 \<Rightarrow> nvme_queue \<Rightarrow> nvme_command" where
  "create_sq_cmd qid nvmeq =
     CmdCreateSq (zero_create_sq\<lparr>create_sq_opcode := nvme_admin_create_sq,
       create_sq_prp1 := ucast (q_sq_dma_addr nvmeq), create_sq_sqid := qid,
       create_sq_qsize := q_depth nvmeq - 1,
       create_sq_sq_flags := NVME_QUEUE_PHYS_CONTIG OR NVME_SQ_PRIO_MEDIUM,
       create_sq_cqid := qid\<rparr>)"

definition adapter_alloc_sq :: "task_env \<Rightarrow> u16 \<Rightarrow> nvme_queue \<Rightarrow> nvme_dev \<Rightarrow> (int \<times> nvme_dev) option" where
  "adapter_alloc_sq env qid nvmeq dev =
     status_only (nvme_submit_admin_cmd env (create_sq_cmd qid nvmeq) dev)"

definition adapter_delete_cq :: "task_env \<Rightarrow> u16 \<Rightarrow> nvme_dev \<Rightarrow> (int \<times> nvme_dev) option" where
  "adapter_delete_cq env cqid dev = adapter_delete_queue env nvme_admin_delete_cq cqid dev"

definition adapter_delete_sq :: "task_env \<Rightarrow> u16 \<Rightarrow> nvme_dev \<Rightarrow> (int \<times> nvme_dev) option" where
  "adapter_delete_sq env sqid dev = adapter_delete_queue env nvme_admin_delete_sq sqid dev"

definition nvme_identify ::
  "task_env \<Rightarrow> u32 \<Rightarrow> u32 \<Rightarrow> dma_addr \<Rightarrow> nvme_dev \<Rightarrow> (int \<times> nvme_dev) option" where
  "nvme_identify env nsid cns dma_addr dev =
     status_only (nvme_submit_admin_cmd env
       (CmdIdentify (zero_identify\<lparr>identify_opcode := nvme_admin_identify, identify_nsid := nsid,
          identify_prp1 := ucast dma_addr, identify_cns := cns\<rparr>)) dev)"

definition nvme_get_features ::
  "task_env \<Rightarrow> u32 \<Rightarrow> u32 \<Rightarrow> dma_addr \<Rightarrow> nvme_dev \<Rightarrow> (int \<times> u32 \<times> nvme_dev) option" where
  "nvme_get_features env fid nsid dma_addr dev =
     nvme_submit_admin_cmd env
       (CmdFeatures (zero_features\<lparr>features_opcode := nvme_admin_get_features, features_nsid := nsid,
          features_prp1 := ucast dma_addr, features_fid := fid\<rparr>)) dev"

definition nvme_set_features ::
  "task_env \<Rightarrow> u32 \<Rightarrow> u32 \<Rightarrow> dma_addr \<Rightarrow> nvme_dev \<Rightarrow> (int \<times> u32 \<times> nvme_dev) option" where
  "nvme_set_features env fid dword11 dma_addr dev =
     nvme_submit_admin_cmd env
       (CmdFeatures (zero_features\<lparr>features_opcode := nvme_admin_set_features,
          features_prp1 := ucast dma_addr, features_fid := fid, features_dword11 := dword11\<rparr>)) dev"

section \<open>Timeouts and cancellation\<close>

definition nvme_abort_req :: "task_env \<Rightarrow> rq_ptr \<Rightarrow> nvme_dev \<Rightarrow> nvme_dev option" where
  "nvme_abort_req env r dev =
     do { req \<leftarrow> d_requests dev r;
          i \<leftarrow> ci_nvmeq (rq_cmd req);
          nvmeq \<leftarrow> get_queue dev i;
          if q_qid nvmeq = 0 \<or> ci_aborted (rq_cmd req) \<noteq> 0
          then Some (if d_reset_busy dev then dev
                     else kernel_log [QueueResetWork] (dev\<lparr>d_on_list := False, d_reset_busy := True\<rparr>))
          else if d_abort_limit dev = 0 then Some dev
          else case t_alloc env dev of Inl err \<Rightarrow> Some dev
               | Inr a \<Rightarrow>
                   do { areq \<leftarrow> d_requests dev a;
                        dev1 \<leftarrow> nvme_set_info a (CtxReq a) abort_completion_fn dev;
                        req1 \<leftarrow> d_requests dev1 r;
                        let cmd = CmdAbort (zero_abort\<lparr>abort_opcode := nvme_admin_abort_cmd,
                              abort_cid := rq_tag req, abort_sqid := q_qid nvmeq,
                              abort_command_id := rq_tag areq\<rparr>);
                        let dev2 = (put_request r (req1\<lparr>rq_cmd := (rq_cmd req1)\<lparr>ci_aborted := 1\<rparr>\<rparr>) dev1)
                              \<lparr>d_abort_limit := d_abort_limit dev1 - 1\<rparr>;
                        (ret, dev3) \<leftarrow> nvme_submit_cmd 0 cmd dev2;
                        Some (if ret < 0 then kernel_log [FreeRequest a] dev3 else dev3) } }"

definition nvme_cancel_queue_ios ::
  "nvme_completion \<Rightarrow> nat \<Rightarrow> rq_ptr \<Rightarrow> nvme_dev \<Rightarrow> nvme_dev option" where
  "nvme_cancel_queue_ios raw i r dev =
     do { req \<leftarrow> d_requests dev r;
          if \<not> rq_started req then Some dev
          else if ci_ctx (rq_cmd req) = CMD_CTX_CANCELLED then Some dev
          else (let status = (if d_dying dev (rq_queue req) then NVME_SC_ABORT_REQ OR NVME_SC_DNR
                              else NVME_SC_ABORT_REQ);
                    (fn, ctx, cmd) = cancel_cmd_info (rq_cmd req)
                in do { f \<leftarrow> fn;
                        run_completion f ctx (raw\<lparr>cqe_status := push_bit 1 status\<rparr>)
                          (put_request r (req\<lparr>rq_cmd := cmd\<rparr>) dev) }) }"

datatype eh_timer_return = BLK_EH_RESET_TIMER

definition nvme_timeout :: "task_env \<Rightarrow> rq_ptr \<Rightarrow> nvme_dev \<Rightarrow> (eh_timer_return \<times> nvme_dev) option" where
  "nvme_timeout env r dev = map_option (Pair BLK_EH_RESET_TIMER) (nvme_abort_req env r dev)"

section \<open>Properties\<close>

lemma submit_cmd_locked_ok:
  assumes "get_queue dev i = Some q" "sq_ok q"
  shows "\<exists>q'. sq_push c q = Some q' \<and> submit_cmd_locked i c dev =
     Some (0, put_queue i q' (kernel_log [Writel (q_db q) (ucast (q_sq_tail q'))] dev))
     \<and> q_qid q' = q_qid q \<and> q_hctx q' = q_hctx q \<and> q_depth q' = q_depth q
     \<and> q_chario_cmds q' = q_chario_cmds q \<and> sq_ok q'"
proof -
  from sq_push_ok [OF assms(2), of c] obtain q' where q': "sq_push c q = Some q'" "sq_ok q'" by blast
  then have "q_qid q' = q_qid q" "q_hctx q' = q_hctx q" "q_depth q' = q_depth q"
      "q_chario_cmds q' = q_chario_cmds q"
    by (auto simp: sq_push_def Let_def split: if_splits)
  with q' assms(1) show ?thesis by (simp add: submit_cmd_locked_def)
qed


definition sample_admin_req :: request where
  "sample_admin_req = \<lparr>rq_tag = 2, rq_flags = {}, rq_write = True, rq_bytes = 0, rq_pos = 0,
     rq_nr_phys_segments = 0, rq_integrity = False, rq_meta_dma = 0, rq_errors = 0,
     rq_start_time = 0, rq_timeout = 6000, rq_queue = 0, rq_started = False,
     rq_cmd = \<lparr>ci_fn = None, ci_ctx = CtxNull, ci_aborted = 0, ci_nvmeq = Some 0\<rparr>\<rparr>"

definition sample_io_req :: request where
  "sample_io_req = sample_admin_req\<lparr>rq_tag := 3,
     rq_cmd := \<lparr>ci_fn = Some req_completion_fn, ci_ctx = CtxNull, ci_aborted = 0, ci_nvmeq = Some 1\<rparr>\<rparr>"

definition sample_admin_queue :: nvme_queue where
  "sample_admin_queue = sample_queue\<lparr>q_qid := 0, q_db := 0, q_hctx := Some 9\<rparr>"

lemma sample_admin_queue_ok: "sq_ok sample_admin_queue"
  by (simp add: sample_admin_queue_def sample_queue_def sq_ok_def)

definition sample_admin_dev :: nvme_dev where
  "sample_admin_dev = sample_dev\<lparr>d_queues := [Some sample_admin_queue, Some sample_queue],
     d_requests := [0x9000 \<mapsto> sample_admin_req, 0x8000 \<mapsto> sample_io_req],
     d_tag_to_rq := (\<lambda>h t. if t = 2 then Some 0x9000 else None)\<rparr>"

definition sample_env :: "nvme_completion \<Rightarrow> task_env" where
  "sample_env cqe = \<lparr>t_current = 77, t_frame = 0, t_garbage = 0, t_alloc = (\<lambda>_. Inr 0x9000),
     t_sched = (\<lambda>d. the (cq_consume 0 cqe d))\<rparr>"




end
