(* ===== verification/Nvme_Queues.thy ===== *)
theory Nvme_Queues
  imports Nvme_Admin
begin

text \<open>
  The life of a queue (\<open>nvme_alloc_queue\<close>, \<open>nvme_create_queue\<close>, \<open>nvme_suspend_queue\<close>,
  \<open>nvme_disable_queue\<close>, \<open>nvme_free_queues\<close>) in src/nvme-core.c. The invariant of the whole driver,
  \<open>queue_wf\<close>, is established here and kept by submission and completion.
\<close>

section \<open>Freeing\<close>

definition SQ_SIZE :: "u16 \<Rightarrow> u32" where "SQ_SIZE depth = ucast depth * 64"
definition CQ_SIZE :: "u16 \<Rightarrow> u32" where "CQ_SIZE depth = ucast depth * 16"

definition nvme_free_queue :: "nvme_queue \<Rightarrow> kevent list" where
  "nvme_free_queue q =
     [DmaFreeCoherent (CQ_SIZE (q_depth q)) (q_cq_dma_addr q),
      DmaFreeCoherent (SQ_SIZE (q_depth q)) (q_sq_dma_addr q)]
     @ (if 0 < q_qid q then map KfreeCharioCmd [0..<32] else [])
     @ [KfreeQueue]"

text \<open>\<open>for (i = dev->queue_count - 1; i >= lowest; i--)\<close>: n is the number of rounds left.\<close>

fun free_queues_loop :: "nat \<Rightarrow> nat \<Rightarrow> nvme_dev \<Rightarrow> nvme_dev option" where
  "free_queues_loop lowest 0 dev = Some dev"
| "free_queues_loop lowest (Suc n) dev =
     do { q \<leftarrow> get_queue dev (lowest + n);
          free_queues_loop lowest n
            (kernel_log (nvme_free_queue q)
              (dev\<lparr>d_queue_count := d_queue_count dev - 1,
                   d_queues := (d_queues dev)[lowest + n := None]\<rparr>)) }"

definition nvme_free_queues :: "nat \<Rightarrow> nvme_dev \<Rightarrow> nvme_dev option" where
  "nvme_free_queues lowest dev = free_queues_loop lowest (unat (d_queue_count dev) - lowest) dev"

section \<open>Suspending and disabling\<close>

definition nvme_suspend_queue :: "(int \<Rightarrow> int) \<Rightarrow> nat \<Rightarrow> nvme_dev \<Rightarrow> (int \<times> nvme_dev) option" where
  "nvme_suspend_queue entry i dev =
     do { q \<leftarrow> get_queue dev i;
          if q_cq_vector q = -1 then Some (1, dev)
          else Some (0,
            kernel_log ((if q_qid q = 0 \<and> d_admin_q dev then [FreezeAdminQueue] else [])
                        @ [FreeIrq (entry (q_cq_vector q))])
              (put_queue i (q\<lparr>q_cq_vector := -1\<rparr>)
                (dev\<lparr>d_online_queues := d_online_queues dev - 1\<rparr>))) }"

text \<open>blk_mq_tag_busy_iter calls \<open>nvme_cancel_queue_ios\<close> for each busy request.\<close>

fun cancel_all :: "nvme_completion \<Rightarrow> nat \<Rightarrow> rq_ptr list \<Rightarrow> nvme_dev \<Rightarrow> nvme_dev option" where
  "cancel_all raw i [] dev = Some dev"
| "cancel_all raw i (r # rs) dev = do { dev' \<leftarrow> nvme_cancel_queue_ios raw i r dev; cancel_all raw i rs dev' }"

definition nvme_clear_queue ::
  "nvme_completion \<Rightarrow> (nat \<Rightarrow> rq_ptr list option) \<Rightarrow> nat \<Rightarrow> nvme_dev \<Rightarrow> nvme_dev option" where
  "nvme_clear_queue raw busy i dev =
     do { q \<leftarrow> get_queue dev i;
          case Option.bind (q_hctx q) busy of
            None \<Rightarrow> Some dev
          | Some rs \<Rightarrow> cancel_all raw i rs dev }"

definition nvme_disable_queue ::
  "task_env \<Rightarrow> (int \<Rightarrow> int) \<Rightarrow> u32 \<Rightarrow> nat \<Rightarrow> nvme_dev \<Rightarrow> nvme_dev option" where
  "nvme_disable_queue env entry csts qid dev =
     (if get_queue dev qid = None then Some dev
      else do { (suspended, dev1) \<leftarrow> nvme_suspend_queue entry qid dev;
                if suspended \<noteq> 0 then Some dev1
                else do { dev2 \<leftarrow> (if qid \<noteq> 0 \<and> csts \<noteq> -1
                                   then do { (_, d) \<leftarrow> adapter_delete_sq env (of_nat qid) dev1;
                                             (_, d') \<leftarrow> adapter_delete_cq env (of_nat qid) d;
                                             Some d' }
                                   else Some dev1);
                          map_option snd (nvme_process_cq qid dev2) } })"

section \<open>Allocation and creation\<close>

text \<open>What the allocators return: kzalloc of the queue, the two coherent buffers, the slots.\<close>

record queue_mem =
  qm_kzalloc :: bool
  qm_cq :: "dma_addr option"
  qm_sq :: "(dma_addr \<times> nvme_command list) option"
  qm_slot :: "nat \<Rightarrow> bool"

definition zero_cqe :: nvme_completion where
  "zero_cqe = \<lparr>cqe_result = 0, cqe_sq_head = 0, cqe_sq_id = 0, cqe_command_id = 0, cqe_status = 0\<rparr>"

definition zero_cmd_info :: nvme_cmd_info where
  "zero_cmd_info = \<lparr>ci_fn = None, ci_ctx = CtxNull, ci_aborted = 0, ci_nvmeq = None\<rparr>"

text \<open>The slots are allocated in order up to the first failure; the rest stay NULL.\<close>

definition alloc_slots :: "(nat \<Rightarrow> bool) \<Rightarrow> nvme_cmd_info option list" where
  "alloc_slots ok =
     (let n = length (takeWhile ok [0..<32])
      in replicate n (Some zero_cmd_info) @ replicate (32 - n) None)"

definition db_index :: "nvme_dev \<Rightarrow> u32 \<Rightarrow> u32" where
  "db_index dev qid = qid * 2 * d_db_stride dev"

definition nvme_alloc_queue ::
  "queue_mem \<Rightarrow> nat \<Rightarrow> u16 \<Rightarrow> nvme_dev \<Rightarrow> (nat option \<times> nvme_dev) option" where
  "nvme_alloc_queue mem qid depth dev =
     (if \<not> qm_kzalloc mem then Some (None, dev)
      else case qm_cq mem of
             None \<Rightarrow> Some (None, kernel_log [KfreeQueue] dev)
           | Some cq \<Rightarrow>
               (case qm_sq mem of
                  None \<Rightarrow> Some (None, kernel_log [DmaFreeCoherent (CQ_SIZE depth) cq, KfreeQueue] dev)
                | Some (sq, cmds) \<Rightarrow>
                    if qid \<ge> length (d_queues dev) then None
                    else Some (Some qid, put_queue qid
                      \<lparr>q_sq_cmds = cmds, q_cqes = replicate (unat depth) zero_cqe,
                       q_sq_dma_addr = sq, q_cq_dma_addr = cq, q_db = db_index dev (of_nat qid),
                       q_depth = depth, q_cq_vector = 0, q_sq_head = 0, q_sq_tail = 0, q_cq_head = 0,
                       q_qid = of_nat qid, q_cq_phase = 1, q_cqe_seen = 0, q_hctx = None,
                       q_chario_cmds = (if 0 < qid then alloc_slots (qm_slot mem) else replicate 32 None),
                       q_next_chario_tag = 0\<rparr>
                      (dev\<lparr>d_queue_count := d_queue_count dev + 1\<rparr>))))"

definition queue_request_irq ::
  "bool \<Rightarrow> (int \<Rightarrow> int) \<Rightarrow> int \<Rightarrow> nvme_queue \<Rightarrow> nvme_dev \<Rightarrow> int \<times> nvme_dev" where
  "queue_request_irq threaded entry result nvmeq dev =
     (result, kernel_log [RequestIrq (entry (q_cq_vector nvmeq)) threaded] dev)"

definition nvme_init_queue :: "nat \<Rightarrow> u16 \<Rightarrow> nvme_dev \<Rightarrow> nvme_dev option" where
  "nvme_init_queue i qid dev =
     do { q \<leftarrow> get_queue dev i;
          Some (put_queue i (q\<lparr>q_sq_tail := 0, q_cq_head := 0, q_cq_phase := 1,
                   q_db := db_index dev (ucast qid), q_cqes := replicate (unat (q_depth q)) zero_cqe\<rparr>)
                 (dev\<lparr>d_online_queues := d_online_queues dev + 1\<rparr>)) }"

text \<open>\<open>irq\<close> is the result of request_irq. The C function continues to \<open>release_cq\<close> after \<open>release_sq\<close>.\<close>

definition nvme_create_queue ::
  "task_env \<Rightarrow> bool \<Rightarrow> (int \<Rightarrow> int) \<Rightarrow> int \<Rightarrow> nat \<Rightarrow> nvme_dev \<Rightarrow> (int \<times> nvme_dev) option" where
  "nvme_create_queue env threaded entry irq qid dev =
     do { q \<leftarrow> get_queue dev qid;
          let q1 = q\<lparr>q_cq_vector := int qid - 1\<rparr>;
          (r1, dev1) \<leftarrow> adapter_alloc_cq env (of_nat qid) q1 (put_queue qid q1 dev);
          if r1 < 0 then Some (r1, dev1)
          else do {
            q2 \<leftarrow> get_queue dev1 qid;
            (r2, dev2) \<leftarrow> adapter_alloc_sq env (of_nat qid) q2 dev1;
            if r2 < 0 then do { (_, d) \<leftarrow> adapter_delete_cq env (of_nat qid) dev2; Some (r2, d) }
            else do {
              q3 \<leftarrow> get_queue dev2 qid;
              let (r3, dev3) = queue_request_irq threaded entry irq q3 dev2;
              if r3 < 0
              then do { (_, d) \<leftarrow> adapter_delete_sq env (of_nat qid) dev3;
                        (_, d') \<leftarrow> adapter_delete_cq env (of_nat qid) d;
                        Some (r3, d') }
              else do { d \<leftarrow> nvme_init_queue qid (of_nat qid) dev3; Some (r3, d) } } } }"

section \<open>The queue invariant\<close>

definition queue_wf :: "nvme_queue \<Rightarrow> bool" where
  "queue_wf q \<longleftrightarrow> sq_ok q \<and> cq_ok q \<and> length (q_chario_cmds q) = 32"

lemma ucast_phase_back: "ucast (ucast (p :: u8) :: u16) = p"
  by (rule bit_word_eqI) (simp add: bit_simps)

lemma length_alloc_slots: "length (alloc_slots ok) = 32"
  using length_takeWhile_le [of ok "[0..<32]"] by (simp add: alloc_slots_def Let_def)

lemma queue_wf_push: "queue_wf q \<Longrightarrow> sq_push c q = Some q' \<Longrightarrow> queue_wf q'"
  using sq_push_ok [of q c] by (auto simp: queue_wf_def cq_ok_def sq_push_def Let_def split: if_splits)

lemma queue_wf_cong:
  "cq_fields q' = cq_fields q \<Longrightarrow> length (q_sq_cmds q') = length (q_sq_cmds q) \<Longrightarrow>
     length (q_chario_cmds q') = length (q_chario_cmds q) \<Longrightarrow> queue_wf q \<Longrightarrow> queue_wf q'"
  by (simp add: queue_wf_def sq_ok_def cq_ok_def cq_fields_def)

lemma consume_lengths:
  assumes "cq_consume i c dev = Some dev'" "get_queue dev i = Some q"
  shows "\<exists>q'. get_queue dev' i = Some q' \<and> length (q_sq_cmds q') = length (q_sq_cmds q)
    \<and> length (q_chario_cmds q') = length (q_chario_cmds q)"
proof -
  from assms obtain ctx f dev1 where q:
      "nvme_finish_cmd i (unat (cqe_command_id c)) (put_queue i (q\<lparr>q_sq_head := cqe_sq_head c\<rparr>) dev)
        = Some (ctx, Some f, dev1)" "run_completion f ctx c dev1 = Some dev'"
    by (auto simp: cq_consume_def split: bind_splits)
  from q(1) assms(2) have "\<exists>q'. get_queue dev1 i = Some q' \<and> length (q_sq_cmds q') = length (q_sq_cmds q)
      \<and> length (q_chario_cmds q') = length (q_chario_cmds q)"
    by (auto simp: nvme_finish_cmd_def split: bind_splits if_splits)
  with get_queue_cong [OF run_completion_frame(1) [OF q(2)]] show ?thesis by simp
qed

lemma consume_all_lengths:
  "consume_all i cs dev = Some dev' \<Longrightarrow> get_queue dev i = Some q \<Longrightarrow>
     \<exists>q'. get_queue dev' i = Some q' \<and> length (q_sq_cmds q') = length (q_sq_cmds q)
       \<and> length (q_chario_cmds q') = length (q_chario_cmds q)"
proof (induction cs arbitrary: dev q)
  case (Cons c cs)
  from Cons.prems(1) obtain dev1 where d: "cq_consume i c dev = Some dev1" "consume_all i cs dev1 = Some dev'"
    by (auto split: bind_splits)
  from consume_lengths [OF d(1) Cons.prems(2)] Cons.IH [OF d(2)] show ?case by fastforce
qed simp

lemma queue_wf_process_cq:
  assumes "nvme_process_cq i dev = Some (ret, dev')" "get_queue dev i = Some q" "queue_wf q"
  shows "\<exists>q'. get_queue dev' i = Some q' \<and> queue_wf q'"
proof -
  from assms(3) have ok: "cq_ok q" by (simp add: queue_wf_def)
  note spec = nvme_process_cq_spec [OF assms(2) ok]
  from assms(1) spec obtain dev1 where d: "consume_all i (cq_new q) dev = Some dev1"
    by (auto split: bind_splits)
  from consume_all_lengths [OF d assms(2)] consume_all_frame [OF d] assms(2) obtain q1 where q1:
      "get_queue dev1 i = Some q1" "cq_fields q1 = cq_fields q"
      "length (q_sq_cmds q1) = length (q_sq_cmds q)"
      "length (q_chario_cmds q1) = length (q_chario_cmds q)"
    by (auto simp: cq_frame_def)
  from queue_wf_cong [OF q1(2-4) assms(3)] have wf: "queue_wf q1" .
  show ?thesis
  proof (cases "cq_new q = []")
    case True
    with assms(1) spec d q1(1) wf show ?thesis by auto
  next
    case False
    define n where "n = length (cq_new q)"
    let ?q = "q1\<lparr>q_cq_head := cq_head_at q n, q_cq_phase := ucast (cq_phase_at q n), q_cqe_seen := 1\<rparr>"
    have "get_queue dev' i = Some ?q"
      using assms(1) spec d q1(1) False by (auto simp: n_def)
    moreover have "cq_head_at q n < q_depth q"
      using ok by (simp add: word_less_nat_alt unat_cq_head_at [OF ok] cq_ok_def)
    moreover have "ucast (cq_phase_at q n) \<le> (1 :: u8)"
      using ok by (auto simp: cq_phase_at_def cq_ok_def ucast_phase_back)
    ultimately show ?thesis using wf q1(2)
      by (auto simp: queue_wf_def sq_ok_def cq_ok_def cq_fields_def)
  qed
qed

text \<open>
  The steps that touch an I/O queue, in any order: submissions, interrupts, the set-up of the
  queue, and the controller storing a completion entry.
\<close>

inductive queue_step :: "nat \<Rightarrow> nvme_dev \<Rightarrow> nvme_dev \<Rightarrow> bool" for i where
  Submit: "nvme_submit_cmd i c dev = Some (ret, dev') \<Longrightarrow> queue_step i dev dev'"
| SubmitChario: "i = 1 \<Longrightarrow> nvme_submit_chario_cmd c info dev = Some (ret, dev') \<Longrightarrow> queue_step i dev dev'"
| Irq: "nvme_irq i dev = Some (res, dev') \<Longrightarrow> queue_step i dev dev'"
| Init: "nvme_init_queue i qid dev = Some dev' \<Longrightarrow> queue_step i dev dev'"
| Suspend: "nvme_suspend_queue entry i dev = Some (ret, dev') \<Longrightarrow> queue_step i dev dev'"
| Device: "get_queue dev i = Some q \<Longrightarrow> k < length (q_cqes q) \<Longrightarrow>
    queue_step i dev (put_queue i (q\<lparr>q_cqes := (q_cqes q)[k := cqe]\<rparr>) dev)"

definition has_wf_queue :: "nat \<Rightarrow> nvme_dev \<Rightarrow> bool" where
  "has_wf_queue i dev \<longleftrightarrow> (\<exists>q. get_queue dev i = Some q \<and> queue_wf q)"

lemma submit_keeps_wf:
  assumes "submit_cmd_locked i c dev = Some (ret, dev')" "has_wf_queue i dev"
  shows "has_wf_queue i dev'"
  using assms queue_wf_push
  by (auto simp: has_wf_queue_def submit_cmd_locked_def split: bind_splits)

lemma queue_step_keeps_wf:
  assumes "queue_step i dev dev'" "has_wf_queue i dev"
  shows "has_wf_queue i dev'"
  using assms
proof (cases rule: queue_step.cases)
  case (Submit c ret)
  then show ?thesis using assms(2) submit_keeps_wf by (simp add: nvme_submit_cmd_def)
next
  case (SubmitChario c info ret)
  from assms(2) obtain q where q: "get_queue dev i = Some q" "queue_wf q" by (auto simp: has_wf_queue_def)
  from SubmitChario q obtain slot ret2 where "submit_cmd_locked i (set_command_id (of_int (q_next_chario_tag q)) c)
      (put_queue i (q\<lparr>q_next_chario_tag := q_next_chario_tag q + 1,
         q_chario_cmds := (q_chario_cmds q)[nat (q_next_chario_tag q) := Some slot]\<rparr>) dev) = Some (ret2, dev')"
    by (auto simp: nvme_submit_chario_cmd_def nvme_submit_cmd_chario_def Let_def
        split: bind_splits if_splits)
  moreover have "has_wf_queue i (put_queue i (q\<lparr>q_next_chario_tag := q_next_chario_tag q + 1,
         q_chario_cmds := (q_chario_cmds q)[nat (q_next_chario_tag q) := Some slot]\<rparr>) dev)"
    using q by (auto simp: has_wf_queue_def queue_wf_def sq_ok_def cq_ok_def)
  ultimately show ?thesis by (rule submit_keeps_wf)
next
  case (Irq res)
  from assms(2) obtain q where q: "get_queue dev i = Some q" "queue_wf q" by (auto simp: has_wf_queue_def)
  from Irq obtain ret dev1 where "nvme_process_cq i dev = Some (ret, dev1)"
      and d: "Option.bind (get_queue dev1 i) (\<lambda>q. Some (if q_cqe_seen q \<noteq> 0 then IRQ_HANDLED else IRQ_NONE,
            put_queue i (q\<lparr>q_cqe_seen := 0\<rparr>) dev1)) = Some (res, dev')"
    by (auto simp: nvme_irq_def split: bind_splits)
  from queue_wf_process_cq [OF this(1) q] d show ?thesis
    by (auto simp: has_wf_queue_def queue_wf_def sq_ok_def cq_ok_def)
next
  case (Init qid)
  with assms(2) show ?thesis
    by (auto simp: nvme_init_queue_def has_wf_queue_def queue_wf_def sq_ok_def cq_ok_def get_queue_def
        put_queue_def word_less_nat_alt split: bind_splits if_splits)
next
  case (Suspend entry ret)
  with assms(2) show ?thesis
    by (auto simp: nvme_suspend_queue_def has_wf_queue_def queue_wf_def sq_ok_def cq_ok_def get_queue_def
        put_queue_def split: bind_splits if_splits)
next
  case (Device q k cqe)
  with assms(2) show ?thesis
    by (auto simp: has_wf_queue_def queue_wf_def sq_ok_def cq_ok_def)
qed

section \<open>Properties\<close>

text \<open>
  C7: a queue stays well-formed. From \<open>nvme_alloc_queue\<close> on, through any interleaving of
  submissions, interrupts, re-initialisations and completions stored by the controller, the ring
  indices stay inside the rings, the rings keep their size and the phase stays a bit, so no
  access of the driver to its rings is out of bounds.
\<close>

theorem queue_stays_wf:
  assumes "nvme_alloc_queue mem qid depth dev0 = Some (Some qid, dev)" "0 < depth"
    "\<And>a cmds. qm_sq mem = Some (a, cmds) \<Longrightarrow> length cmds = unat depth"
    "(queue_step qid)\<^sup>*\<^sup>* dev dev'"
  shows "has_wf_queue qid dev'"
  using assms(4)
proof (induction rule: rtranclp_induct)
  case base
  from assms(1-3) show ?case
    by (auto simp: nvme_alloc_queue_def has_wf_queue_def queue_wf_def sq_ok_def cq_ok_def
        get_queue_def put_queue_def length_alloc_slots split: if_splits option.splits)
next
  case (step d1 d2)
  then show ?case using queue_step_keeps_wf by blast
qed

definition sample_mem :: queue_mem where
  "sample_mem = \<lparr>qm_kzalloc = True, qm_cq = Some 0x2000,
     qm_sq = Some (0x1000, replicate 4 (CmdCommon zero_common)), qm_slot = (\<lambda>_. True)\<rparr>"

theorem queue_stays_wf_witness:
  "\<exists>dev dev'. nvme_alloc_queue sample_mem 1 4 sample_dev = Some (Some 1, dev)
    \<and> nvme_submit_cmd 1 (CmdRw zero_rw) dev = Some (0, dev') \<and> has_wf_queue 1 dev'"
proof -
  define dev where "dev = snd (the (nvme_alloc_queue sample_mem 1 4 sample_dev))"
  have a: "nvme_alloc_queue sample_mem 1 4 sample_dev = Some (Some 1, dev)"
    by (simp add: nvme_alloc_queue_def sample_mem_def dev_def sample_dev_def)
  have len: "\<And>a cmds. qm_sq sample_mem = Some (a, cmds) \<Longrightarrow> length cmds = unat (4 :: u16)"
    by (auto simp: sample_mem_def)
  have "has_wf_queue 1 dev" by (rule queue_stays_wf [OF a _ len]) auto
  then obtain q where q: "get_queue dev 1 = Some q" "sq_ok q" by (auto simp: has_wf_queue_def queue_wf_def)
  from submit_cmd_locked_ok [OF this, of "CmdRw zero_rw"]
  obtain dev' where d: "nvme_submit_cmd 1 (CmdRw zero_rw) dev = Some (0, dev')"
    by (auto simp: nvme_submit_cmd_def)
  have "has_wf_queue 1 dev'"
    by (rule queue_stays_wf [OF a _ len]) (use d in \<open>auto intro: queue_step.Submit\<close>)
  with a d show ?thesis by blast
qed

lemma free_queues_loop_spec:
  assumes "\<forall>j<n. get_queue dev (lowest + j) = Some (qs (lowest + j))"
  shows "\<exists>dev'. free_queues_loop lowest n dev = Some dev'
    \<and> (\<forall>j. get_queue dev' j = (if lowest \<le> j \<and> j < lowest + n then None else get_queue dev j))
    \<and> d_queue_count dev' = d_queue_count dev - of_nat n
    \<and> d_log dev' = d_log dev @ concat (map (\<lambda>j. nvme_free_queue (qs j)) (rev [lowest..<lowest + n]))"
  using assms
proof (induction n arbitrary: dev)
  case 0
  then show ?case by auto
next
  case (Suc n)
  let ?dev1 = "kernel_log (nvme_free_queue (qs (lowest + n)))
      (dev\<lparr>d_queue_count := d_queue_count dev - 1, d_queues := (d_queues dev)[lowest + n := None]\<rparr>)"
  have g: "get_queue ?dev1 j = (if j = lowest + n then None else get_queue dev j)" for j
    by (auto simp: get_queue_def)
  have "d_queue_count ?dev1 = d_queue_count dev - 1" by (simp add: kernel_log_def)
  moreover obtain dev' where "free_queues_loop lowest n ?dev1 = Some dev'"
      "\<forall>j. get_queue dev' j = (if lowest \<le> j \<and> j < lowest + n then None else get_queue ?dev1 j)"
      "d_queue_count dev' = d_queue_count ?dev1 - of_nat n"
      "d_log dev' = d_log ?dev1 @ concat (map (\<lambda>j. nvme_free_queue (qs j)) (rev [lowest..<lowest + n]))"
    using Suc.IH [of ?dev1] Suc.prems g by auto
  ultimately show ?case using Suc.prems g by (auto simp: less_Suc_eq)
qed

text \<open>
  \<open>nvme_free_queues\<close> releases exactly the queues from \<open>lowest\<close> on, each once: their pointers are
  NULL afterwards, the lower ones untouched, the count is \<open>lowest\<close>, and the memory is returned
  queue by queue, the last one first.
\<close>

lemma nvme_free_queues_releases:
  assumes "\<And>j. lowest \<le> j \<Longrightarrow> j < unat (d_queue_count dev) \<Longrightarrow> get_queue dev j = Some (qs j)"
    "lowest \<le> unat (d_queue_count dev)"
  shows "\<exists>dev'. nvme_free_queues lowest dev = Some dev'
    \<and> (\<forall>j. get_queue dev' j =
          (if lowest \<le> j \<and> j < unat (d_queue_count dev) then None else get_queue dev j))
    \<and> unat (d_queue_count dev') = lowest
    \<and> d_log dev' = d_log dev
        @ concat (map (\<lambda>j. nvme_free_queue (qs j)) (rev [lowest..<unat (d_queue_count dev)]))"
proof -
  let ?n = "unat (d_queue_count dev) - lowest"
  have "d_queue_count dev - of_nat ?n = of_nat lowest"
    using assms(2) by (simp add: of_nat_diff)
  moreover have "lowest < 2 ^ LENGTH(32)" using assms(2) unsigned_less [of "d_queue_count dev"] by (rule le_less_trans)
  ultimately have "unat (d_queue_count dev - of_nat ?n) = lowest" by (simp add: unat_of_nat)
  moreover have "\<forall>j<?n. get_queue dev (lowest + j) = Some (qs (lowest + j))"
    using assms by auto
  from free_queues_loop_spec [OF this] have "\<exists>dev'. nvme_free_queues lowest dev = Some dev'
    \<and> (\<forall>j. get_queue dev' j = (if lowest \<le> j \<and> j < lowest + ?n then None else get_queue dev j))
    \<and> d_queue_count dev' = d_queue_count dev - of_nat ?n
    \<and> d_log dev' = d_log dev @ concat (map (\<lambda>j. nvme_free_queue (qs j)) (rev [lowest..<lowest + ?n]))"
    by (simp add: nvme_free_queues_def)
  ultimately show ?thesis using assms(2) by (simp add: le_add_diff_inverse) fastforce
qed

lemma nvme_free_queues_releases_witness:
  "\<exists>dev'. nvme_free_queues 1 sample_dev = Some dev'
    \<and> (\<forall>j. get_queue dev' j =
          (if 1 \<le> j \<and> j < unat (d_queue_count sample_dev) then None else get_queue sample_dev j))
    \<and> unat (d_queue_count dev') = 1
    \<and> d_log dev' = d_log sample_dev
        @ concat (map (\<lambda>j. nvme_free_queue ((\<lambda>_. sample_queue) j)) (rev [1..<unat (d_queue_count sample_dev)]))"
  by (rule nvme_free_queues_releases) (auto simp: sample_dev_def get_queue_def)

end
