(* ===== verification/Nvme_Ctrl.thy ===== *)
theory Nvme_Ctrl
  imports Nvme_Queues
begin

text \<open>
  The controller registers (src/nvme-core.c, \<open>nvme_wait_ready\<close> to \<open>nvme_configure_admin_queue\<close>). The
  polling loops read what the device and the clock show: \<open>polls k\<close> is the status register at the
  k-th test, and the pending-signal flag and jiffies after the k-th msleep.
\<close>

abbreviation HZ :: u64 where "HZ \<equiv> 100"
abbreviation NVME_CC_ENABLE :: u32 where "NVME_CC_ENABLE \<equiv> 1"
abbreviation NVME_CC_SHN_MASK :: u32 where "NVME_CC_SHN_MASK \<equiv> 0xC000"
abbreviation NVME_CC_SHN_NORMAL :: u32 where "NVME_CC_SHN_NORMAL \<equiv> 0x4000"
abbreviation NVME_CC_IOSQES :: u32 where "NVME_CC_IOSQES \<equiv> 0x60000"
abbreviation NVME_CC_IOCQES :: u32 where "NVME_CC_IOCQES \<equiv> 0x400000"
abbreviation NVME_CSTS_RDY :: u32 where "NVME_CSTS_RDY \<equiv> 1"
abbreviation NVME_CSTS_SHST_CMPLT :: u32 where "NVME_CSTS_SHST_CMPLT \<equiv> 8"
abbreviation NVME_CSTS_SHST_MASK :: u32 where "NVME_CSTS_SHST_MASK \<equiv> 12"
abbreviation NVME_AQ_DEPTH :: u16 where "NVME_AQ_DEPTH \<equiv> 256"
abbreviation PAGE_SHIFT :: u32 where "PAGE_SHIFT \<equiv> 12"
abbreviation SHUTDOWN_TIMEOUT :: u32 where "SHUTDOWN_TIMEOUT \<equiv> 500"

record poll =
  poll_csts :: u32
  poll_signal :: bool
  poll_jiffies :: u32

definition cap_timeout :: "u64 \<Rightarrow> u64" where "cap_timeout cap = drop_bit 24 cap AND 0xff"
definition cap_mpsmin :: "u64 \<Rightarrow> u32" where "cap_mpsmin cap = ucast (drop_bit 48 cap AND 0xf)"
definition cap_mpsmax :: "u64 \<Rightarrow> u32" where "cap_mpsmax cap = ucast (drop_bit 52 cap AND 0xf)"

definition time_after :: "u32 \<Rightarrow> u32 \<Rightarrow> bool" where
  "time_after a b \<longleftrightarrow> sint (b - a) < 0"

text \<open>The two waiting loops have the same shape; None is an exhausted fuel.\<close>

fun poll_loop :: "nat \<Rightarrow> (nat \<Rightarrow> poll) \<Rightarrow> nat \<Rightarrow> u32 \<Rightarrow> u32 \<Rightarrow> u32 \<Rightarrow> int option" where
  "poll_loop 0 polls k msk want timeout = None"
| "poll_loop (Suc fuel) polls k msk want timeout =
     (if poll_csts (polls k) AND msk = want then Some 0
      else if poll_signal (polls k) then Some (- EINTR)
      else if time_after (poll_jiffies (polls k)) timeout then Some (- ENODEV)
      else poll_loop fuel polls (Suc k) msk want timeout)"

text \<open>Rounds that are enough: one per 100 ms (10 ticks) of the longest timeout, and one more.\<close>

definition poll_fuel :: nat where "poll_fuel = 1300"

definition ready_timeout :: "u64 \<Rightarrow> u32 \<Rightarrow> u32" where
  "ready_timeout cap jiffies = ucast ((cap_timeout cap + 1) * HZ div 2 + ucast jiffies)"

definition nvme_wait_ready :: "(nat \<Rightarrow> poll) \<Rightarrow> u64 \<Rightarrow> bool \<Rightarrow> nvme_dev \<Rightarrow> int option" where
  "nvme_wait_ready polls cap enabled dev =
     poll_loop poll_fuel polls 0 NVME_CSTS_RDY (if enabled then NVME_CSTS_RDY else 0)
       (ready_timeout cap (d_jiffies dev))"

definition nvme_disable_ctrl :: "(nat \<Rightarrow> poll) \<Rightarrow> u64 \<Rightarrow> nvme_dev \<Rightarrow> (int \<times> nvme_dev) option" where
  "nvme_disable_ctrl polls cap dev =
     (let cc = d_ctrl_config dev AND NOT NVME_CC_SHN_MASK AND NOT NVME_CC_ENABLE;
          dev1 = kernel_log [WriteBar BarCc (ucast cc)] (dev\<lparr>d_ctrl_config := cc\<rparr>)
      in map_option (\<lambda>r. (r, dev1)) (nvme_wait_ready polls cap False dev1))"

definition nvme_enable_ctrl :: "(nat \<Rightarrow> poll) \<Rightarrow> u64 \<Rightarrow> nvme_dev \<Rightarrow> (int \<times> nvme_dev) option" where
  "nvme_enable_ctrl polls cap dev =
     (let cc = (d_ctrl_config dev AND NOT NVME_CC_SHN_MASK) OR NVME_CC_ENABLE;
          dev1 = kernel_log [WriteBar BarCc (ucast cc)] (dev\<lparr>d_ctrl_config := cc\<rparr>)
      in map_option (\<lambda>r. (r, dev1)) (nvme_wait_ready polls cap True dev1))"

definition nvme_shutdown_ctrl :: "(nat \<Rightarrow> poll) \<Rightarrow> nvme_dev \<Rightarrow> (int \<times> nvme_dev) option" where
  "nvme_shutdown_ctrl polls dev =
     (let cc = (d_ctrl_config dev AND NOT NVME_CC_SHN_MASK) OR NVME_CC_SHN_NORMAL;
          dev1 = kernel_log [WriteBar BarCc (ucast cc)] (dev\<lparr>d_ctrl_config := cc\<rparr>)
      in map_option (\<lambda>r. (r, dev1))
           (poll_loop poll_fuel polls 0 NVME_CSTS_SHST_MASK NVME_CSTS_SHST_CMPLT
              (SHUTDOWN_TIMEOUT + d_jiffies dev1)))"

section \<open>Admin queue set-up\<close>

definition nvme_dev_remove_admin :: "bool \<Rightarrow> nvme_dev \<Rightarrow> nvme_dev" where
  "nvme_dev_remove_admin dying dev =
     (if d_admin_q dev \<and> \<not> dying then kernel_log [CleanupAdminQueue, FreeAdminTagSet] dev else dev)"

text \<open>
  \<open>tags\<close>, \<open>initq\<close> and \<open>getq\<close>: whether blk_mq_alloc_tag_set, blk_mq_init_queue and blk_get_queue
  succeed; \<open>dying\<close> is blk_queue_dying of the new queue. A failed blk_mq_init_queue leaves the error
  pointer in \<open>dev->admin_q\<close>, which is not NULL.
\<close>

definition nvme_alloc_admin_tags ::
  "bool \<Rightarrow> bool \<Rightarrow> bool \<Rightarrow> bool \<Rightarrow> nvme_dev \<Rightarrow> int \<times> nvme_dev" where
  "nvme_alloc_admin_tags tags initq getq dying dev =
     (if \<not> d_admin_q dev
      then (if \<not> tags then (- ENOMEM, dev)
            else let dev1 = kernel_log [AllocAdminTagSet (nvme_cmd_size (d_page_size dev))] dev
              in if \<not> initq then (- ENOMEM, kernel_log [FreeAdminTagSet] (dev1\<lparr>d_admin_q := True\<rparr>))
                 else let dev2 = dev1\<lparr>d_admin_q := True\<rparr>
                   in if \<not> getq then (- ENODEV, nvme_dev_remove_admin dying dev2)
                      else (0, dev2))
      else (0, kernel_log [UnfreezeAdminQueue] dev))"

text \<open>
  \<open>nvme_configure_admin_queue\<close>: the page size and the configuration it writes, then the whole
  function.
\<close>

definition admin_page_shift :: "u64 \<Rightarrow> u32 option" where
  "admin_page_shift cap =
     (let dev_page_min = cap_mpsmin cap + 12; dev_page_max = cap_mpsmax cap + 12
      in if PAGE_SHIFT < dev_page_min then None
         else if PAGE_SHIFT > dev_page_max then Some dev_page_max else Some PAGE_SHIFT)"

definition admin_ctrl_config :: "u32 \<Rightarrow> u32" where
  "admin_ctrl_config page_shift =
     push_bit 7 (page_shift - 12) OR (NVME_CC_IOSQES OR NVME_CC_IOCQES)"

definition admin_regs :: "u32 \<Rightarrow> nvme_queue \<Rightarrow> nvme_dev \<Rightarrow> nvme_dev" where
  "admin_regs page_shift q dev =
     (let aqa = ucast (q_depth q - 1) :: u32
      in kernel_log [WriteBar BarAqa (ucast (aqa OR push_bit 16 aqa)),
           WriteBar BarAsq (ucast (q_sq_dma_addr q)), WriteBar BarAcq (ucast (q_cq_dma_addr q))]
         (dev\<lparr>d_page_size := push_bit (unat page_shift) 1,
              d_ctrl_config := admin_ctrl_config page_shift\<rparr>))"

definition nvme_configure_admin_queue ::
  "(nat \<Rightarrow> poll) \<Rightarrow> (nat \<Rightarrow> poll) \<Rightarrow> queue_mem \<Rightarrow> bool \<Rightarrow> (int \<Rightarrow> int) \<Rightarrow> int \<Rightarrow> u64
     \<Rightarrow> nvme_dev \<Rightarrow> (int \<times> nvme_dev) option" where
  "nvme_configure_admin_queue polls1 polls2 mem threaded entry irq cap dev =
     (case admin_page_shift cap of
        None \<Rightarrow> Some (- ENODEV, dev)
      | Some page_shift \<Rightarrow>
          do { (r1, dev1) \<leftarrow> nvme_disable_ctrl polls1 cap dev;
               if r1 < 0 then Some (r1, dev1)
               else do {
                 (got, dev2) \<leftarrow> (if get_queue dev1 0 = None then nvme_alloc_queue mem 0 NVME_AQ_DEPTH dev1
                                 else Some (Some 0, dev1));
                 if got = None then Some (- ENOMEM, dev2)
                 else do {
                   q \<leftarrow> get_queue dev2 0;
                   (r2, dev3) \<leftarrow> nvme_enable_ctrl polls2 cap (admin_regs page_shift q dev2);
                   if r2 \<noteq> 0 then do { d \<leftarrow> nvme_free_queues 0 dev3; Some (r2, d) }
                   else do {
                     let q1 = q\<lparr>q_cq_vector := 0\<rparr>;
                     let (r3, dev4) = queue_request_irq threaded entry irq q1 (put_queue 0 q1 dev3);
                     if r3 \<noteq> 0 then do { d \<leftarrow> nvme_free_queues 0 dev4; Some (r3, d) }
                     else Some (r3, dev4) } } } })"

section \<open>Properties\<close>

lemma admin_page_shift_12:
  assumes "admin_page_shift cap = Some s"
  shows "s = 12"
proof -
  have b: "x AND 0xf \<le> (15 :: u64)" for x by (rule word_and_le1)
  have m: "unat (cap_mpsmax cap) \<le> 15"
  proof -
    have "unat (drop_bit 52 cap AND 0xf) \<le> 15" using b [of "drop_bit 52 cap"] by (simp add: word_le_nat_alt)
    then show ?thesis by (simp add: cap_mpsmax_def unsigned_ucast_eq take_bit_nat_eq_self)
  qed
  then have "\<not> PAGE_SHIFT > cap_mpsmax cap + 12"
    by (simp add: word_less_nat_alt unat_word_ariths)
  with assms show ?thesis by (simp add: admin_page_shift_def Let_def split: if_splits)
qed

lemma free_queues_page_size: "free_queues_loop l n dev = Some dev' \<Longrightarrow> d_page_size dev' = d_page_size dev"
  by (induction n arbitrary: dev) (auto simp: kernel_log_def split: bind_splits)

text \<open>
  Whatever the controller's capabilities, the driver runs it with 4096-byte pages or not at
  all: when \<open>nvme_configure_admin_queue\<close> succeeds the page size of the device is 4096 (the
  "work-around" branch for a smaller device page is never taken), and it gives up with -ENODEV
  exactly when the minimum page size of the device is larger.
\<close>

lemma configure_admin_page_size:
  assumes "nvme_configure_admin_queue polls1 polls2 mem threaded entry irq cap dev = Some (r, dev')" "r = 0"
  shows "d_page_size dev' = 4096 \<and> cap_mpsmin cap = 0"
proof -
  from assms obtain s where s: "admin_page_shift cap = Some s"
    by (cases "admin_page_shift cap") (auto simp: nvme_configure_admin_queue_def)
  then have s12: "s = 12" by (rule admin_page_shift_12)
  have "\<not> PAGE_SHIFT < cap_mpsmin cap + 12"
    using s by (auto simp: admin_page_shift_def Let_def split: if_splits)
  moreover have "unat (cap_mpsmin cap) \<le> 15"
  proof -
    have "drop_bit 48 cap AND 0xf \<le> (15 :: u64)" by (rule word_and_le1)
    then have "unat (drop_bit 48 cap AND 0xf) \<le> 15" by (simp add: word_le_nat_alt)
    then show ?thesis by (simp add: cap_mpsmin_def unsigned_ucast_eq take_bit_nat_eq_self)
  qed
  ultimately have "cap_mpsmin cap = 0"
    by (simp add: word_less_nat_alt unat_word_ariths unat_eq_0)
  moreover have "d_page_size dev' = 4096"
    using assms s s12
    by (auto simp: nvme_configure_admin_queue_def nvme_enable_ctrl_def queue_request_irq_def admin_regs_def
        Let_def kernel_log_def put_queue_def split: bind_splits if_splits)
  ultimately show ?thesis by simp
qed

definition good_polls :: "nat \<Rightarrow> u32 \<Rightarrow> nat \<Rightarrow> poll" where
  "good_polls n csts k = \<lparr>poll_csts = (if k < n then 1 - csts else csts), poll_signal = False,
     poll_jiffies = of_nat (10 * (k + 1))\<rparr>"

lemma configure_admin_page_size_witness:
  "\<exists>dev'. nvme_configure_admin_queue (good_polls 0 0) (good_polls 0 1) sample_mem False id 0 0
      (sample_dev\<lparr>d_page_size := 0\<rparr>) = Some (0, dev') \<and> d_page_size dev' = 4096 \<and> cap_mpsmin 0 = 0"
proof -
  have "\<exists>dev'. nvme_configure_admin_queue (good_polls 0 0) (good_polls 0 1) sample_mem False id 0 0
      (sample_dev\<lparr>d_page_size := 0\<rparr>) = Some (0, dev')"
    by (simp add: nvme_configure_admin_queue_def admin_page_shift_def cap_mpsmin_def cap_mpsmax_def
        nvme_disable_ctrl_def nvme_enable_ctrl_def nvme_wait_ready_def poll_fuel_def good_polls_def
        queue_request_irq_def sample_dev_def get_queue_def kernel_log_def admin_regs_def eval_nat_numeral
        Let_def)
  with configure_admin_page_size show ?thesis by blast
qed

lemma poll_loop_ends:
  assumes "time_after (poll_jiffies (polls m)) timeout" "k \<le> m" "m < k + fuel"
  shows "\<exists>r. poll_loop fuel polls k msk want timeout = Some r \<and> r \<in> {0, - EINTR, - ENODEV}
    \<and> (r = 0 \<longrightarrow> (\<exists>j. poll_csts (polls j) AND msk = want))"
  using assms(2,3)
proof (induction fuel arbitrary: k)
  case (Suc fuel)
  have "k < m" if "\<not> time_after (poll_jiffies (polls k)) timeout"
    using that assms(1) Suc.prems(1) by (cases "k = m") auto
  then show ?case using Suc.IH [of "Suc k"] Suc.prems(2) by auto
qed simp

lemma cap_timeout_le: "unat (cap_timeout cap) \<le> 255"
proof -
  have "cap_timeout cap \<le> 0xff" unfolding cap_timeout_def by (rule word_and_le1)
  then show ?thesis by (simp add: word_le_nat_alt)
qed

lemma ucast_add_up:
  assumes "unat (x :: u64) \<le> 12800"
  shows "(ucast (x + ucast (j :: u32)) :: u32) = of_nat (unat x) + j"
proof -
  have j: "unat (ucast j :: u64) = unat j" "unat j < 2 ^ 32"
    using unsigned_less [of j, where ?'a = nat] by (simp_all add: unsigned_ucast_eq take_bit_nat_eq_self)
  then have "unat (x + ucast j) = unat x + unat j"
    using assms by (simp add: unat_word_ariths(1))
  then have "unat (ucast (x + ucast j) :: u32) = (unat x + unat j) mod 2 ^ 32"
    by (simp add: unsigned_ucast_eq take_bit_eq_mod)
  moreover have "unat (of_nat (unat x) + j) = (unat x + unat j) mod 2 ^ 32"
  proof -
    have "unat (of_nat (unat x) :: u32) = unat x"
      using assms by (simp only: unat_of_nat) simp
    then show ?thesis by (simp only: unat_word_ariths(1)) simp
  qed
  ultimately show ?thesis by (simp only: word_unat_eq_iff)
qed

lemma ready_timeout_eq:
  obtains T where "T \<le> 12800" "ready_timeout cap j = of_nat T + j"
proof
  let ?x = "(cap_timeout cap + 1) * HZ div 2"
  have "unat (cap_timeout cap + 1) = unat (cap_timeout cap) + 1"
    using cap_timeout_le [of cap] by (simp add: unat_word_ariths)
  then have "unat ((cap_timeout cap + 1) * HZ) = (unat (cap_timeout cap) + 1) * 100"
    using cap_timeout_le [of cap] by (subst unat_word_ariths(2)) simp
  then show T: "unat ?x \<le> 12800"
    using cap_timeout_le [of cap] by (subst unat_div) simp
  show "ready_timeout cap j = of_nat (unat ?x) + j"
    unfolding ready_timeout_def by (rule ucast_add_up [OF T])
qed

lemma sint_small: "- (2 ^ 31) \<le> d \<Longrightarrow> d < 2 ^ 31 \<Longrightarrow> sint (of_int d :: u32) = d"
  by (simp add: signed_of_int signed_take_bit_int_eq_self)

text \<open>
  Waiting for the controller always ends. With a clock that advances at least 10 ticks per
  msleep (100 ms at HZ = 100) \<open>nvme_wait_ready\<close> returns 0, -EINTR or -ENODEV, 0 only after the
  ready bit had the wanted value; the fuel of the model is enough for the longest timeout a
  controller can announce.
\<close>

lemma nvme_wait_ready_ends:
  assumes "\<And>k. k < 1300 \<Longrightarrow> poll_jiffies (polls k) = d_jiffies dev + of_nat (elapsed k)"
    "\<And>k. k < 1300 \<Longrightarrow> 10 * (k + 1) \<le> elapsed k \<and> elapsed k < 2 ^ 31"
  shows "\<exists>r. nvme_wait_ready polls cap enabled dev = Some r \<and> r \<in> {0, - EINTR, - ENODEV}
    \<and> (r = 0 \<longrightarrow> (\<exists>j. poll_csts (polls j) AND NVME_CSTS_RDY = (if enabled then NVME_CSTS_RDY else 0)))"
proof -
  obtain T where T: "T \<le> 12800" "ready_timeout cap (d_jiffies dev) = of_nat T + d_jiffies dev"
    by (rule ready_timeout_eq)
  let ?m = 1281
  have e: "12820 \<le> elapsed ?m" "elapsed ?m < 2 ^ 31" using assms(2) [of ?m] by auto
  have "ready_timeout cap (d_jiffies dev) - poll_jiffies (polls ?m) = of_int (int T - int (elapsed ?m))"
    using assms(1) [of ?m] T(2) by simp
  moreover have "sint (of_int (int T - int (elapsed ?m)) :: u32) = int T - int (elapsed ?m)"
    by (rule sint_small) (use T(1) e in auto)
  ultimately have "time_after (poll_jiffies (polls ?m)) (ready_timeout cap (d_jiffies dev))"
    using T(1) e by (simp add: time_after_def)
  from poll_loop_ends [where polls = polls and m = "?m", OF this, of 0 poll_fuel] show ?thesis
    by (simp add: nvme_wait_ready_def poll_fuel_def)
qed

lemma nvme_wait_ready_ends_witness:
  "\<exists>r. nvme_wait_ready (good_polls 3 1) 0 True sample_dev = Some r \<and> r \<in> {0, - EINTR, - ENODEV}
    \<and> (r = 0 \<longrightarrow> (\<exists>j. poll_csts (good_polls 3 1 j) AND NVME_CSTS_RDY = (if True then NVME_CSTS_RDY else 0)))"
  by (rule nvme_wait_ready_ends [where elapsed = "\<lambda>k. 10 * (k + 1)"])
    (simp_all add: good_polls_def sample_dev_def)

end
