(* ===== verification/Nvme_Map.thy ===== *)
theory Nvme_Map
  imports Nvme_State Prp_Setup
begin

text \<open>
  Mapping the caller's memory (src/nvme-core.c, \<open>nvme_map_user_pages\<close> to \<open>nvme_map_phys_pages\<close>). The
  kernel's answers are the record \<open>map_env\<close>: the allocations, how many pages
  get_user_pages_fast pinned, the bus address of the i-th pinned page (of the buffer for kernel
  memory), whether dma_map_sg succeeded.

  The theorem of this theory is the bridge to the PRP lists: what \<open>nvme_map_user_pages\<close> returns
  satisfies the precondition \<open>sg_covers\<close> of \<open>nvme_setup_prps\<close>.
\<close>

record map_env =
  m_kcalloc :: bool
  m_gup :: int
  m_kmalloc :: "u32 \<Rightarrow> nvme_iod option"
  m_kmalloc_phys :: "u32 \<Rightarrow> nvme_phys_iod option"
  m_page :: "nat \<Rightarrow> dma_addr"
  m_dma_map :: bool

text \<open>The checks the three functions share; an address is an unsigned long (32 bits).\<close>

definition map_args_ok :: "u32 \<Rightarrow> u32 \<Rightarrow> bool" where
  "map_args_ok addr len \<longleftrightarrow> addr AND 3 = 0 \<and> len \<noteq> 0 \<and> len \<le> 2147483647 - 4096"

text \<open>The loop that fills the scatterlist from the pinned pages.\<close>

fun user_sg :: "(nat \<Rightarrow> dma_addr) \<Rightarrow> nat \<Rightarrow> nat \<Rightarrow> u32 \<Rightarrow> u32 \<Rightarrow> scatterlist" where
  "user_sg page i 0 len offset = []"
| "user_sg page i (Suc n) len offset =
     (page i + offset, unat (min len (4096 - offset)))
       # user_sg page (Suc i) n (len - (4096 - offset)) 0"

definition nvme_map_user_pages ::
  "map_env \<Rightarrow> u32 \<Rightarrow> u32 \<Rightarrow> u32 \<Rightarrow> (int + nvme_iod) \<times> kevent list" where
  "nvme_map_user_pages env page_size addr len =
     (if \<not> map_args_ok addr len then (Inl (- EINVAL), [])
      else
        (let offset = addr AND 4095;
             count = div_round_up (offset + len) 4096
         in if \<not> m_kcalloc env then (Inl (- ENOMEM), [])
            else if m_gup env < uint count then (Inl (- EFAULT), [PutPages (nat (m_gup env))])
            else case alloc_iod (m_kmalloc env) count len page_size 0 of
                   None \<Rightarrow> (Inl (- ENOMEM), [PutPages (unat count)])
                 | Some iod \<Rightarrow>
                     if \<not> m_dma_map env
                     then (Inl (- ENOMEM), [Freed KfreeIod, PutPages (unat count)])
                     else (Inr (iod\<lparr>iod_sg := user_sg (m_page env) 0 (unat count) len offset,
                                    iod_nents := uint count\<rparr>), [])))"

definition nvme_unmap_user_pages :: "bool \<Rightarrow> nvme_iod \<Rightarrow> kevent list" where
  "nvme_unmap_user_pages write iod = [DmaUnmapUser (iod_sg iod) write, PutPages (nat (iod_nents iod))]"

definition nvme_map_kernel_pages ::
  "map_env \<Rightarrow> u32 \<Rightarrow> u32 \<Rightarrow> u32 \<Rightarrow> (int + nvme_iod) \<times> kevent list" where
  "nvme_map_kernel_pages env page_size addr len =
     (if \<not> map_args_ok addr len then (Inl (- EINVAL), [])
      else case alloc_iod (m_kmalloc env) 1 len page_size 0 of
             None \<Rightarrow> (Inl (- ENOMEM), [])
           | Some iod \<Rightarrow>
               if \<not> m_dma_map env then (Inl (- ENOMEM), [Freed KfreeIod])
               else (Inr (iod\<lparr>iod_sg := [(m_page env 0, unat len)], iod_nents := 1\<rparr>), []))"

definition nvme_unmap_kernel_pages :: "bool \<Rightarrow> nvme_iod \<Rightarrow> kevent list" where
  "nvme_unmap_kernel_pages write iod = [DmaUnmapUser (iod_sg iod) write]"

definition nvme_map_phys_pages :: "map_env \<Rightarrow> u32 \<Rightarrow> u32 \<Rightarrow> u32 \<Rightarrow> int + nvme_phys_iod" where
  "nvme_map_phys_pages env page_size addr len =
     (if \<not> map_args_ok addr len then Inl (- EINVAL)
      else case alloc_phys_iod (m_kmalloc_phys env) len page_size of
             None \<Rightarrow> Inl (- ENOMEM)
           | Some iod \<Rightarrow> Inr iod)"

section \<open>The scatterlist of a user buffer\<close>

lemma user_sg_pages_ok:
  assumes "uint len \<le> 4096 * int n" "0 < uint len" "\<And>j. i \<le> j \<Longrightarrow> j < i + n \<Longrightarrow> uint (page j) mod 4096 = 0"
  shows "sg_ok 4096 (sg_lens (user_sg page i n len 0)) (uint len)"
  using assms
proof (induction n arbitrary: i len)
  case 0
  then show ?case by simp
next
  case (Suc n)
  have min: "int (unat (min len 4096)) = min (uint len) 4096"
    by (simp add: min_def word_le_def)
  show ?case
  proof (cases "uint len \<le> 4096")
    case True
    then show ?thesis using Suc.prems(2) min by (simp add: comp_def)
  next
    case False
    then have sub: "uint (len - 4096) = uint len - 4096"
      using uint_sub_lem [of "4096 :: u32" len] by simp
    have "sg_ok 4096 (sg_lens (user_sg page (Suc i) n (len - 4096) 0)) (uint (len - 4096))"
      using Suc.prems False by (intro Suc.IH) (auto simp: sub)
    then show ?thesis using False min sub by (simp add: comp_def)
  qed
qed

lemma page_plus_offset:
  assumes "uint (p :: dma_addr) mod 4096 = 0" "uint (off :: u32) < 4096"
  shows "uint (p + off) = uint p + uint off" "first_bytes (p + off) = 4096 - uint off"
    "unat (p + off) + nat (4096 - uint off) \<le> 2 ^ 32"
proof -
  obtain k where k: "uint p = 4096 * k" using assms(1) by (metis mod_0_imp_dvd dvdE)
  have "uint p < 2 ^ 32" using unsigned_less [of p, where ?'a = int] by simp
  with k have k1: "k < 2 ^ 20" by simp
  then have page: "uint p + 4096 \<le> 2 ^ 32" using k by simp
  then show sum: "uint (p + off) = uint p + uint off"
    using assms(2) by (intro uint_add_bounded) simp
  then show "first_bytes (p + off) = 4096 - uint off"
    using assms k by (simp add: mod_add_left_eq [symmetric])
  have "int (unat (p + off)) + (4096 - uint off) \<le> 2 ^ 32" using sum page by simp
  then show "unat (p + off) + nat (4096 - uint off) \<le> 2 ^ 32"
    using assms(2) by (subst zle_int [symmetric]) simp
qed

lemma user_sg_bounded:
  assumes "\<And>j. uint (page j) mod 4096 = 0" "uint off < 4096" "(a, l) \<in> set (user_sg page i n len off)"
  shows "unat a + l \<le> 2 ^ 32"
  using assms(2,3)
proof (induction n arbitrary: i len off)
  case (Suc n)
  have step: "unat (page i + off) + unat (min len (4096 - off)) \<le> 2 ^ 32"
  proof -
    have "uint (4096 - off) = 4096 - uint off"
      using Suc.prems(1) uint_sub_lem [of off "4096 :: u32"] by simp
    then have "uint (min len (4096 - off)) \<le> 4096 - uint off"
      by (simp add: min_def word_le_def)
    then have "unat (min len (4096 - off)) \<le> nat (4096 - uint off)"
      by (metis nat_mono nat_uint_eq)
    with page_plus_offset(3) [OF assms(1) Suc.prems(1), of i] show ?thesis by linarith
  qed
  show ?case using Suc.prems step Suc.IH [of 0 "Suc i"] by auto
qed simp

lemma user_sg_covers:
  assumes "\<And>j. uint (page j) mod 4096 = 0" "uint off < 4096" "0 < uint len"
    "uint off + uint len \<le> 4096 * int n"
  shows "sg_covers (user_sg page i n len off) (uint len)"
proof -
  have "n \<noteq> 0" using assms(3,4) uint_ge_0 [of off] by (intro notI) linarith
  then obtain m where n: "n = Suc m" by (cases n) auto
  have sub: "uint (4096 - off) = 4096 - uint off"
    using assms(2) uint_sub_lem [of off "4096 :: u32"] by simp
  note fb = page_plus_offset(2) [OF assms(1,2)]
  have "uint len \<le> first_bytes (page i + off) \<or>
      int (unat (min len (4096 - off))) = first_bytes (page i + off)
      \<and> sg_ok 4096 (sg_lens (user_sg page (Suc i) m (len - (4096 - off)) 0))
          (uint len - first_bytes (page i + off))"
  proof (cases "uint len \<le> 4096 - uint off")
    case False
    then have d: "uint (len - (4096 - off)) = uint len - (4096 - uint off)"
      using sub uint_sub_lem [of "4096 - off" len] by simp
    have "sg_ok 4096 (sg_lens (user_sg page (Suc i) m (len - (4096 - off)) 0)) (uint (len - (4096 - off)))"
      using False assms n by (intro user_sg_pages_ok) (auto simp: d)
    moreover have "int (unat (min len (4096 - off))) = 4096 - uint off"
      using False sub by (simp add: min_def word_le_def)
    ultimately show ?thesis using d unfolding fb by simp
  qed (simp add: fb)
  moreover have "\<forall>(a, l)\<in>set (user_sg page i n len off). unat a + l \<le> 2 ^ 32"
    using user_sg_bounded [where page = page, OF assms(1,2)] by blast
  ultimately show ?thesis
    by (simp add: sg_covers_def n comp_def) blast
qed

lemma count_covers:
  assumes "map_args_ok addr len"
  shows "uint (addr AND 4095) < 4096 \<and> 0 < uint len
    \<and> uint (addr AND 4095) + uint len \<le> 4096 * uint (div_round_up ((addr AND 4095) + len) 4096)"
proof -
  have "addr AND 4095 \<le> 4095" by (rule word_and_le1)
  then have off: "uint (addr AND 4095) \<le> 4095" by (simp add: word_le_def)
  have len: "0 < uint len" "uint len \<le> 2147479551"
    using assms by (auto simp: map_args_ok_def word_le_def word_neq_0_conv word_less_def)
  have sum: "uint ((addr AND 4095) + len) = uint (addr AND 4095) + uint len"
    using off len by (intro uint_add_bounded) simp
  have "uint (div_round_up ((addr AND 4095) + len) 4096) = (uint (addr AND 4095) + uint len + 4096 - 1) div 4096"
    using sum off len by (subst uint_div_round_up) auto
  then show ?thesis using off len by simp
qed

section \<open>Properties\<close>

lemma map_user_pages_covers:
  assumes "nvme_map_user_pages env page_size addr len = (Inr iod, evs)" "\<And>j. uint (m_page env j) mod 4096 = 0"
  shows "sg_covers (iod_sg iod) (uint len) \<and> iod_npages iod = -1 \<and> evs = []
    \<and> iod_sg iod = user_sg (m_page env) 0 (unat (div_round_up ((addr AND 4095) + len) 4096)) len (addr AND 4095)"
proof -
  from assms(1) have ok: "map_args_ok addr len" by (auto simp: nvme_map_user_pages_def split: if_splits)
  with assms(1) have sg: "iod_sg iod = user_sg (m_page env) 0
        (unat (div_round_up ((addr AND 4095) + len) 4096)) len (addr AND 4095)" "iod_npages iod = -1" "evs = []"
    by (auto simp: nvme_map_user_pages_def Let_def alloc_iod_def iod_init_def split: if_splits option.splits)
  with count_covers [OF ok] user_sg_covers [OF assms(2)] show ?thesis by simp
qed


definition sample_map_env :: map_env where
  "sample_map_env = \<lparr>m_kcalloc = True, m_gup = 3, m_kmalloc = (\<lambda>_. Some sample_iod),
     m_kmalloc_phys = (\<lambda>_. Some sample_phys_iod), m_page = (\<lambda>i. 0x40000 + 0x3000 * of_nat (min i 7)),
     m_dma_map = True\<rparr>"

lemma sample_pages_aligned: "uint (m_page sample_map_env j) mod 4096 = 0"
proof -
  have "min j 7 \<in> {0, 1, 2, 3, 4, 5, 6, 7 :: nat}" by (auto simp: min_def)
  then show ?thesis by (auto simp: sample_map_env_def)
qed


text \<open>
  A failed mapping leaves nothing pinned: on every error after get_user_pages_fast the pages it
  pinned, and no others, are released, and the error is -EFAULT when some page could not be
  pinned, -ENOMEM otherwise.
\<close>

lemma nvme_map_user_pages_error:
  assumes "map_args_ok addr len" "m_kcalloc env"
    "0 \<le> m_gup env" "m_gup env \<le> uint (div_round_up ((addr AND 4095) + len) 4096)"
    "nvme_map_user_pages env page_size addr len = (Inl err, evs)"
  shows "filter (\<lambda>ev. ev \<noteq> Freed KfreeIod) evs = [PutPages (nat (m_gup env))]
    \<and> err = (if m_gup env < uint (div_round_up ((addr AND 4095) + len) 4096) then - EFAULT else - ENOMEM)"
  using assms by (auto simp: nvme_map_user_pages_def Let_def split: if_splits option.splits)

lemma nvme_map_user_pages_error_witness:
  "filter (\<lambda>ev. ev \<noteq> Freed KfreeIod) (snd (nvme_map_user_pages (sample_map_env\<lparr>m_gup := 2\<rparr>) 4096 0x100 9000))
      = [PutPages (nat (m_gup (sample_map_env\<lparr>m_gup := 2\<rparr>)))]
    \<and> - EFAULT = (if m_gup (sample_map_env\<lparr>m_gup := 2\<rparr>)
          < uint (div_round_up (((0x100 :: u32) AND 4095) + 9000) 4096) then - EFAULT else - ENOMEM)"
proof -
  have m: "nvme_map_user_pages (sample_map_env\<lparr>m_gup := 2\<rparr>) 4096 0x100 9000 = (Inl (- EFAULT), [PutPages 2])"
    by (simp add: nvme_map_user_pages_def map_args_ok_def sample_map_env_def div_round_up_def)
  show ?thesis
    unfolding m snd_conv
    by (rule nvme_map_user_pages_error [where page_size = 4096, OF _ _ _ _ m])
      (simp_all add: map_args_ok_def sample_map_env_def div_round_up_def)
qed

end
