(* ===== verification/Nvme_Submit.thy ===== *)
theory Nvme_Submit
  imports Nvme_Admin Nvme_Map
begin

text \<open>
  The user-level submission paths of src/nvme-core.c: \<open>nvme_submit_io\<close>, \<open>nvme_submit_io_kernel\<close>,
  the character-device paths \<open>nvme_submit_io_chario\<close> and \<open>nvme_submit_io_chario_phys\<close>, which split a
  transfer into commands of 32 blocks, \<open>nvme_user_cmd\<close> and \<open>nvme_ioctl\<close>.

  \<open>uio_env\<close> holds the answers of copy_from_user, copy_to_user and dma_alloc_coherent for the
  metadata buffer. The calls \<open>memcpy(a, b, n) != a\<close> of the kernel paths are always false.
\<close>

record uio_env =
  u_copy_in :: bool
  u_meta :: "dma_addr option"
  u_meta_in :: bool
  u_meta_out :: bool

section \<open>What the four functions share\<close>

text \<open>
  The length of the data and of the separate metadata, or -EINVAL: \<open>(nblocks + 1) << lba_shift\<close> and
  \<open>(nblocks + 1) * ms\<close> at 32 bits.
\<close>

definition uio_lengths :: "nvme_ns \<Rightarrow> nvme_user_io \<Rightarrow> int + (u32 \<times> u32)" where
  "uio_lengths ns io =
     (let len = push_bit (nat (ns_lba_shift ns)) (ucast (uio_nblocks io) + 1);
          meta_len = (ucast (uio_nblocks io) + 1) * ucast (ns_ms ns)
      in if meta_len \<noteq> 0 \<and> (uio_metadata io AND 3 \<noteq> 0 \<or> uio_metadata io = 0) \<and> \<not> ns_ext ns
         then Inl (- EINVAL)
         else if meta_len \<noteq> 0 \<and> ns_ext ns then Inr (len + meta_len, 0)
         else Inr (len, meta_len))"

definition uio_is_write :: "nvme_user_io \<Rightarrow> bool" where
  "uio_is_write io \<longleftrightarrow> uio_opcode io AND 1 \<noteq> 0"

definition uio_opcode_ok :: "nvme_user_io \<Rightarrow> bool" where
  "uio_opcode_ok io \<longleftrightarrow> uio_opcode io \<in> {nvme_cmd_write, nvme_cmd_read, nvme_cmd_compare}"

definition uio_rw ::
  "nvme_ns \<Rightarrow> nvme_user_io \<Rightarrow> dma_addr \<Rightarrow> u64 \<Rightarrow> u16 \<Rightarrow> dma_addr \<Rightarrow> dma_addr \<Rightarrow> nvme_rw_command" where
  "uio_rw ns io meta_dma slba len prp1 prp2 =
     zero_rw\<lparr>rw_opcode := uio_opcode io, rw_flags := uio_flags io, rw_nsid := ns_id ns,
       rw_slba := slba, rw_length := len, rw_control := uio_control io, rw_dsmgmt := uio_dsmgmt io,
       rw_reftag := uio_reftag io, rw_apptag := uio_apptag io, rw_appmask := uio_appmask io,
       rw_prp1 := ucast prp1, rw_prp2 := ucast prp2, rw_metadata := ucast meta_dma\<rparr>"

text \<open>The metadata buffer: Inl is the error exit to \<open>unmap\<close>, with the buffer if it was allocated.\<close>

definition uio_meta_setup ::
  "uio_env \<Rightarrow> bool \<Rightarrow> u32 \<Rightarrow> (int \<times> dma_addr option) + dma_addr option" where
  "uio_meta_setup uenv write meta_len =
     (if meta_len = 0 then Inr None
      else case u_meta uenv of
             None \<Rightarrow> Inl (- ENOMEM, None)
           | Some d \<Rightarrow> if write \<and> \<not> u_meta_in uenv then Inl (- EFAULT, Some d) else Inr (Some d))"

definition uio_meta_finish ::
  "uio_env \<Rightarrow> bool \<Rightarrow> u32 \<Rightarrow> dma_addr option \<Rightarrow> int \<Rightarrow> int \<times> kevent list" where
  "uio_meta_finish uenv write meta_len meta status =
     (case meta of
        None \<Rightarrow> (status, [])
      | Some d \<Rightarrow> (if status = 0 \<and> \<not> write \<and> \<not> u_meta_out uenv then - EFAULT else status,
                   [DmaFreeMeta meta_len d]))"

text \<open>The exit of the functions that mapped pages: unmap, free the descriptor, finish the metadata.\<close>

definition uio_exit ::
  "uio_env \<Rightarrow> (bool \<Rightarrow> nvme_iod \<Rightarrow> kevent list) \<Rightarrow> bool \<Rightarrow> u32 \<Rightarrow> dma_addr option \<Rightarrow> nvme_iod \<Rightarrow> int
     \<Rightarrow> nvme_dev \<Rightarrow> (int \<times> nvme_dev) option" where
  "uio_exit uenv unmap write meta_len meta iod status dev =
     do { frees \<leftarrow> nvme_free_iod (d_page_size dev) iod;
          let (st, evs) = uio_meta_finish uenv write meta_len meta status;
          Some (st, kernel_log (unmap write iod @ map Freed frees @ evs) dev) }"

section \<open>nvme_submit_io and nvme_submit_io_kernel\<close>

definition submit_io_mapped ::
  "task_env \<Rightarrow> uio_env \<Rightarrow> (prp_pool \<Rightarrow> pool_alloc) \<Rightarrow> (bool \<Rightarrow> nvme_iod \<Rightarrow> kevent list)
     \<Rightarrow> nvme_ns \<Rightarrow> nvme_user_io \<Rightarrow> u32 \<Rightarrow> u32 \<Rightarrow> nvme_iod \<Rightarrow> nvme_dev \<Rightarrow> (int \<times> nvme_dev) option" where
  "submit_io_mapped env uenv palloc unmap ns io len meta_len iod dev =
     (let write = uio_is_write io
      in do { (prp_len, iod1) \<leftarrow> nvme_setup_prps palloc (d_page_size dev) iod (uint len);
              if uint len \<noteq> prp_len then uio_exit uenv unmap write meta_len None iod1 (- ENOMEM) dev
              else case uio_meta_setup uenv write meta_len of
                     Inl (st, meta) \<Rightarrow> uio_exit uenv unmap write meta_len meta iod1 st dev
                   | Inr meta \<Rightarrow>
                       do { (st, _, dev1) \<leftarrow> nvme_submit_io_cmd env
                              (CmdRw (uio_rw ns io (case meta of None \<Rightarrow> 0 | Some d \<Rightarrow> d) (uio_slba io)
                                 (uio_nblocks io) (fst (hd (iod_sg iod1))) (iod_first_dma iod1))) dev;
                            uio_exit uenv unmap write meta_len meta iod1 st dev1 } })"

definition nvme_submit_io ::
  "task_env \<Rightarrow> map_env \<Rightarrow> uio_env \<Rightarrow> (prp_pool \<Rightarrow> pool_alloc) \<Rightarrow> nvme_ns \<Rightarrow> nvme_user_io \<Rightarrow> nvme_dev
     \<Rightarrow> (int \<times> nvme_dev) option" where
  "nvme_submit_io env menv uenv palloc ns io dev =
     (if \<not> u_copy_in uenv then Some (- EFAULT, dev)
      else case uio_lengths ns io of
             Inl err \<Rightarrow> Some (err, dev)
           | Inr (len, meta_len) \<Rightarrow>
               if \<not> uio_opcode_ok io then Some (- EINVAL, dev)
               else case nvme_map_user_pages menv (d_page_size dev) (ucast (uio_addr io)) len of
                      (Inl err, evs) \<Rightarrow> Some (err, kernel_log evs dev)
                    | (Inr iod, evs) \<Rightarrow>
                        submit_io_mapped env uenv palloc nvme_unmap_user_pages ns io len meta_len iod
                          (kernel_log evs dev))"

definition nvme_submit_io_kernel ::
  "task_env \<Rightarrow> map_env \<Rightarrow> uio_env \<Rightarrow> (prp_pool \<Rightarrow> pool_alloc) \<Rightarrow> nvme_ns \<Rightarrow> nvme_user_io \<Rightarrow> nvme_dev
     \<Rightarrow> (int \<times> nvme_dev) option" where
  "nvme_submit_io_kernel env menv uenv palloc ns io dev =
     (case uio_lengths ns io of
        Inl err \<Rightarrow> Some (err, dev)
      | Inr (len, meta_len) \<Rightarrow>
          if \<not> uio_opcode_ok io then Some (- EINVAL, dev)
          else case nvme_map_kernel_pages menv (d_page_size dev) (ucast (uio_addr io)) len of
                 (Inl err, evs) \<Rightarrow> Some (err, kernel_log evs dev)
               | (Inr iod, evs) \<Rightarrow>
                   submit_io_mapped env (uenv\<lparr>u_meta_in := True, u_meta_out := True\<rparr>) palloc
                     nvme_unmap_kernel_pages ns io len meta_len iod (kernel_log evs dev))"

section \<open>Splitting a transfer\<close>

text \<open>The variables of the splitting loop.\<close>

record split_state =
  sp_remaining :: u16
  sp_slba :: u64
  sp_pages :: int
  sp_page_count :: nat
  sp_offset :: int
  sp_prp1 :: dma_addr
  sp_prp2 :: dma_addr

text \<open>
  \<open>prp_list[page_count][offset]\<close>: None when the descriptor has no list, or outside the pointer array or
  the list page.
\<close>

definition prp_entry :: "'a prp_state_scheme \<Rightarrow> nat \<Rightarrow> int \<Rightarrow> u64 option" where
  "prp_entry iod pc off =
     (if 0 \<le> iod_npages iod \<and> pc < length (iod_list iod) \<and> iod_list iod ! pc < length (iod_blocks iod)
         \<and> 0 \<le> off \<and> off < int (length (snd (iod_blocks iod ! (iod_list iod ! pc))))
      then Some (snd (iod_blocks iod ! (iod_list iod ! pc)) ! nat off) else None)"

definition split_init :: "nvme_user_io \<Rightarrow> int \<Rightarrow> dma_addr \<Rightarrow> dma_addr \<Rightarrow> split_state" where
  "split_init io npages prp1 prp2 =
     \<lparr>sp_remaining = uio_nblocks io, sp_slba = uio_slba io, sp_pages = npages, sp_page_count = 0,
      sp_offset = -1, sp_prp1 = prp1, sp_prp2 = prp2\<rparr>"

definition split_advance :: "(nat \<Rightarrow> int \<Rightarrow> u64 option) \<Rightarrow> split_state \<Rightarrow> split_state option" where
  "split_advance entry sp =
     (let sp1 = sp\<lparr>sp_remaining := sp_remaining sp - 32, sp_slba := sp_slba sp + 32\<rparr>
      in if sp_offset sp = 479 \<and> 1 < sp_pages sp
         then do { link \<leftarrow> entry (sp_page_count sp) 511;
                   next_prp \<leftarrow> entry (Suc (sp_page_count sp)) 0;
                   Some (sp1\<lparr>sp_prp2 := ucast link + 8, sp_page_count := Suc (sp_page_count sp),
                             sp_offset := 0, sp_prp1 := ucast next_prp, sp_pages := sp_pages sp - 1\<rparr>) }
         else do { next_prp \<leftarrow> entry (sp_page_count sp) (sp_offset sp + 32);
                   Some (sp1\<lparr>sp_offset := sp_offset sp + 32, sp_prp1 := ucast next_prp,
                             sp_prp2 := sp_prp2 sp + 256\<rparr>) })"

text \<open>
  The loop and the last command. A command is given by start block, zero-based count, PRP1 and
  PRP2; Inl is \<open>goto unmap\<close> after a failed submission.
\<close>

function split_loop ::
  "(nat \<Rightarrow> int \<Rightarrow> u64 option) \<Rightarrow> (u64 \<Rightarrow> u16 \<Rightarrow> dma_addr \<Rightarrow> dma_addr \<Rightarrow> nvme_command) \<Rightarrow> nat
     \<Rightarrow> split_state \<Rightarrow> nvme_dev \<Rightarrow> ((int + split_state) \<times> nvme_dev) option" where
  "split_loop entry mk info sp dev =
     (if sp_remaining sp < 32 then Some (Inr sp, dev)
      else case nvme_submit_chario_io_cmd (mk (sp_slba sp) 31 (sp_prp1 sp) (sp_prp2 sp)) info dev of
             None \<Rightarrow> None
           | Some (status, dev1) \<Rightarrow>
               if status \<noteq> 0 then Some (Inl status, dev1)
               else (case split_advance entry sp of
                       None \<Rightarrow> None
                     | Some sp1 \<Rightarrow> split_loop entry mk info sp1 dev1))"
  by pat_completeness auto
termination
proof (relation "measure (\<lambda>(entry, mk, info, sp, dev). unat (sp_remaining sp))")
  fix entry mk info sp dev x status dev1 sp1
  assume "\<not> sp_remaining sp < 32" "split_advance entry sp = Some sp1"
  then have "sp_remaining sp1 = sp_remaining sp - 32" "32 \<le> sp_remaining sp"
    by (auto simp: split_advance_def Let_def split: if_splits bind_splits)
  then show "((entry, mk, info, sp1, dev1), entry, mk, info, sp, dev)
      \<in> measure (\<lambda>(entry, mk, info, sp, dev). unat (sp_remaining sp))"
    by (simp add: unat_sub word_le_nat_alt)
qed simp

declare split_loop.simps [simp del]

definition split_last ::
  "(nat \<Rightarrow> int \<Rightarrow> u64 option) \<Rightarrow> (u64 \<Rightarrow> u16 \<Rightarrow> dma_addr \<Rightarrow> dma_addr \<Rightarrow> nvme_command) \<Rightarrow> nat
     \<Rightarrow> u16 \<Rightarrow> split_state \<Rightarrow> nvme_dev \<Rightarrow> (int \<times> nvme_dev) option" where
  "split_last entry mk info nblocks sp dev =
     do { prp2 \<leftarrow> (if sp_remaining sp = 1 \<and> nblocks > 1
                   then map_option ucast (entry (sp_page_count sp) (sp_offset sp + 1))
                   else Some (sp_prp2 sp));
          nvme_submit_chario_io_cmd (mk (sp_slba sp) (sp_remaining sp) (sp_prp1 sp) prp2) info dev }"

text \<open>
  The on-stack chario_cmd_info, the commands, the wait for the completions, the reset of the tag
  counter; \<open>goto unmap\<close> skips the wait and the reset.
\<close>

definition chario_transfer ::
  "task_env \<Rightarrow> (nat \<Rightarrow> int \<Rightarrow> u64 option) \<Rightarrow> (u64 \<Rightarrow> u16 \<Rightarrow> dma_addr \<Rightarrow> dma_addr \<Rightarrow> nvme_command)
     \<Rightarrow> nvme_user_io \<Rightarrow> split_state \<Rightarrow> nvme_dev \<Rightarrow> (int \<times> nvme_dev) option" where
  "chario_transfer env entry mk io sp dev =
     (let dev1 = dev\<lparr>d_chario := (d_chario dev)(t_frame env \<mapsto>
             \<lparr>chario_task = t_current env, chario_result = t_garbage env, chario_status = - EINTR,
              chario_remaining = uint (uio_nblocks io)\<rparr>)\<rparr>
      in do { (res, dev2) \<leftarrow> split_loop entry mk (t_frame env) sp dev1;
              case res of
                Inl status \<Rightarrow> Some (status, dev2)
              | Inr sp1 \<Rightarrow>
                  do { (status, dev3) \<leftarrow> split_last entry mk (t_frame env) (uio_nblocks io) sp1 dev2;
                       let dev4 = t_sched env dev3;
                       q \<leftarrow> get_queue dev4 1;
                       Some (status, put_queue 1 (q\<lparr>q_next_chario_tag := 0\<rparr>) dev4) } })"

section \<open>nvme_submit_io_chario and nvme_submit_io_chario_phys\<close>

definition chario_mapped ::
  "task_env \<Rightarrow> uio_env \<Rightarrow> (prp_pool \<Rightarrow> pool_alloc) \<Rightarrow> nvme_ns \<Rightarrow> nvme_user_io \<Rightarrow> u32 \<Rightarrow> u32 \<Rightarrow> nvme_iod
     \<Rightarrow> nvme_dev \<Rightarrow> (int \<times> nvme_dev) option" where
  "chario_mapped env uenv palloc ns io len meta_len iod dev =
     (let write = uio_is_write io
      in do { (prp_len, iod1) \<leftarrow> nvme_setup_prps palloc (d_page_size dev) iod (uint len);
              if uint len \<noteq> prp_len
              then uio_exit uenv nvme_unmap_user_pages write meta_len None iod1 (- ENOMEM) dev
              else case uio_meta_setup uenv write meta_len of
                     Inl (st, meta) \<Rightarrow>
                       uio_exit uenv nvme_unmap_user_pages write meta_len meta iod1 st dev
                   | Inr meta \<Rightarrow>
                       do { (st, dev1) \<leftarrow> chario_transfer env (prp_entry iod1)
                              (\<lambda>slba n prp1 prp2. CmdRw (uio_rw ns io
                                 (case meta of None \<Rightarrow> 0 | Some d \<Rightarrow> d) slba n prp1 prp2))
                              io (split_init io (iod_npages iod1) (fst (hd (iod_sg iod1)))
                                    (iod_first_dma iod1)) dev;
                            uio_exit uenv nvme_unmap_user_pages write meta_len meta iod1 st dev1 } })"

definition nvme_submit_io_chario ::
  "task_env \<Rightarrow> map_env \<Rightarrow> uio_env \<Rightarrow> (prp_pool \<Rightarrow> pool_alloc) \<Rightarrow> nvme_ns \<Rightarrow> nvme_user_io \<Rightarrow> nvme_dev
     \<Rightarrow> (int \<times> nvme_dev) option" where
  "nvme_submit_io_chario env menv uenv palloc ns io dev =
     (case uio_lengths ns io of
        Inl err \<Rightarrow> Some (err, dev)
      | Inr (len, meta_len) \<Rightarrow>
          if \<not> uio_opcode_ok io then Some (- EINVAL, dev)
          else case nvme_map_user_pages menv (d_page_size dev) (ucast (uio_addr io)) len of
                 (Inl err, evs) \<Rightarrow> Some (err, kernel_log evs dev)
               | (Inr iod, evs) \<Rightarrow>
                   chario_mapped env (uenv\<lparr>u_meta_in := True, u_meta_out := True\<rparr>) palloc ns io len
                     meta_len iod (kernel_log evs dev))"

definition phys_exit ::
  "uio_env \<Rightarrow> bool \<Rightarrow> u32 \<Rightarrow> dma_addr option \<Rightarrow> nvme_phys_iod \<Rightarrow> int \<Rightarrow> nvme_dev
     \<Rightarrow> (int \<times> nvme_dev) option" where
  "phys_exit uenv write meta_len meta iod status dev =
     do { frees \<leftarrow> nvme_free_phys_iod (d_page_size dev) iod;
          let (st, evs) = uio_meta_finish uenv write meta_len meta status;
          Some (st, kernel_log (map Freed frees @ evs) dev) }"

definition chario_phys_mapped ::
  "task_env \<Rightarrow> uio_env \<Rightarrow> (prp_pool \<Rightarrow> pool_alloc) \<Rightarrow> nvme_ns \<Rightarrow> nvme_user_io \<Rightarrow> u32 \<Rightarrow> u32
     \<Rightarrow> nvme_phys_iod \<Rightarrow> nvme_dev \<Rightarrow> (int \<times> nvme_dev) option" where
  "chario_phys_mapped env uenv palloc ns io len meta_len iod dev =
     (let write = uio_is_write io
      in do { (prp_len, iod1) \<leftarrow> nvme_setup_phys_prps palloc (d_page_size dev) iod (uint len)
                                   (ucast (uio_addr io));
              if uint len \<noteq> prp_len then phys_exit uenv write meta_len None iod1 (- ENOMEM) dev
              else case uio_meta_setup uenv write meta_len of
                     Inl (st, meta) \<Rightarrow> phys_exit uenv write meta_len meta iod1 st dev
                   | Inr meta \<Rightarrow>
                       do { (st, dev1) \<leftarrow> chario_transfer env (prp_entry iod1)
                              (\<lambda>slba n prp1 prp2. CmdRw (uio_rw ns io
                                 (case meta of None \<Rightarrow> 0 | Some d \<Rightarrow> d) slba n prp1 prp2))
                              io (split_init io (iod_npages iod1) (pio_prp1 iod1) (pio_prp2 iod1)) dev;
                            phys_exit uenv write meta_len meta iod1 st dev1 } })"

definition nvme_submit_io_chario_phys ::
  "task_env \<Rightarrow> map_env \<Rightarrow> uio_env \<Rightarrow> (prp_pool \<Rightarrow> pool_alloc) \<Rightarrow> nvme_ns \<Rightarrow> nvme_user_io \<Rightarrow> nvme_dev
     \<Rightarrow> (int \<times> nvme_dev) option" where
  "nvme_submit_io_chario_phys env menv uenv palloc ns io dev =
     (case uio_lengths ns io of
        Inl err \<Rightarrow> Some (err, dev)
      | Inr (len, meta_len) \<Rightarrow>
          if \<not> uio_opcode_ok io then Some (- EINVAL, dev)
          else case nvme_map_phys_pages menv (d_page_size dev) (ucast (uio_addr io)) len of
                 Inl err \<Rightarrow> Some (err, dev)
               | Inr iod \<Rightarrow>
                   chario_phys_mapped env (uenv\<lparr>u_meta_in := True, u_meta_out := True\<rparr>) palloc ns io
                     len meta_len iod dev)"

section \<open>Pass-through commands and ioctl\<close>

record nvme_passthru_cmd =
  pc_opcode :: u8
  pc_flags :: u8
  pc_nsid :: u32
  pc_cdw2 :: u32
  pc_cdw3 :: u32
  pc_addr :: u64
  pc_data_len :: u32
  pc_cdw10 :: "u32 list"

text \<open>
  \<open>nvme_user_cmd\<close>: \<open>on_ns\<close> says whether it was called for a namespace (blk_mq_alloc_request on its queue)
  or for the device (admin queue); \<open>t_alloc\<close> is the request of that queue. \<open>copy_out\<close> is the
  copy_to_user of the result.
\<close>

definition user_cmd_command :: "nvme_passthru_cmd \<Rightarrow> dma_addr \<Rightarrow> dma_addr \<Rightarrow> nvme_command" where
  "user_cmd_command cmd prp1 prp2 =
     CmdCommon (zero_common\<lparr>common_opcode := pc_opcode cmd, common_flags := pc_flags cmd,
       common_nsid := pc_nsid cmd, common_cdw2 := [pc_cdw2 cmd, pc_cdw3 cmd],
       common_cdw10 := pc_cdw10 cmd, common_prp1 := ucast prp1, common_prp2 := ucast prp2\<rparr>)"

definition user_cmd_finish :: "bool \<Rightarrow> int \<Rightarrow> nvme_dev \<Rightarrow> int \<times> nvme_dev" where
  "user_cmd_finish copy_out status dev =
     (if status \<ge> 0 \<and> \<not> copy_out then - EFAULT else status, dev)"

definition user_cmd_send ::
  "task_env \<Rightarrow> bool \<Rightarrow> nvme_command \<Rightarrow> nvme_dev \<Rightarrow> (int \<times> nvme_dev) option" where
  "user_cmd_send env on_ns c dev =
     (if on_ns
      then (case t_alloc env dev of Inl err \<Rightarrow> Some (err, dev)
            | Inr r \<Rightarrow> do { (st, _, d) \<leftarrow> nvme_submit_sync_cmd env r c dev;
                            Some (st, kernel_log [FreeRequest r] d) })
      else status_only (submit_admin_cmd_timeout env c dev))"

definition nvme_user_cmd ::
  "task_env \<Rightarrow> map_env \<Rightarrow> (prp_pool \<Rightarrow> pool_alloc) \<Rightarrow> bool \<Rightarrow> nvme_passthru_cmd option \<Rightarrow> bool \<Rightarrow> bool
     \<Rightarrow> nvme_dev \<Rightarrow> (int \<times> nvme_dev) option" where
  "nvme_user_cmd env menv palloc capable ucmd copy_out on_ns dev =
     (if \<not> capable then Some (- EACCES, dev)
      else case ucmd of
             None \<Rightarrow> Some (- EFAULT, dev)
           | Some cmd \<Rightarrow>
               if pc_data_len cmd = 0
               then map_option (\<lambda>(st, d). user_cmd_finish copy_out st d)
                      (user_cmd_send env on_ns (user_cmd_command cmd 0 0) dev)
               else case nvme_map_user_pages menv (d_page_size dev) (ucast (pc_addr cmd)) (pc_data_len cmd) of
                      (Inl err, evs) \<Rightarrow> Some (err, kernel_log evs dev)
                    | (Inr iod, evs) \<Rightarrow>
                        do { (len, iod1) \<leftarrow> nvme_setup_prps palloc (d_page_size dev) iod
                                              (uint (pc_data_len cmd));
                             (st, d) \<leftarrow> (if len \<noteq> uint (pc_data_len cmd)
                                          then Some (- ENOMEM, kernel_log evs dev)
                                          else user_cmd_send env on_ns
                                            (user_cmd_command cmd (fst (hd (iod_sg iod1)))
                                               (iod_first_dma iod1)) (kernel_log evs dev));
                             frees \<leftarrow> nvme_free_iod (d_page_size dev) iod1;
                             Some (user_cmd_finish copy_out st
                               (kernel_log (nvme_unmap_user_pages (pc_opcode cmd AND 1 \<noteq> 0) iod1
                                            @ map Freed frees) d)) })"

datatype ioctl_cmd = NVME_IOCTL_ID | NVME_IOCTL_ADMIN_CMD | NVME_IOCTL_IO_CMD | NVME_IOCTL_SUBMIT_IO
  | SG_GET_VERSION_NUM | SG_IO | IOCTL_OTHER

text \<open>The SCSI emulation (src/nvme-scsi.c) is called through \<open>sg_version\<close> and \<open>sg_io\<close> (theory \<open>Scsi_Translate\<close>).\<close>

definition nvme_ioctl ::
  "task_env \<Rightarrow> map_env \<Rightarrow> uio_env \<Rightarrow> (prp_pool \<Rightarrow> pool_alloc) \<Rightarrow> bool \<Rightarrow> nvme_passthru_cmd option \<Rightarrow> bool
     \<Rightarrow> nvme_user_io \<Rightarrow> (nvme_dev \<Rightarrow> (int \<times> nvme_dev) option) \<Rightarrow> (nvme_dev \<Rightarrow> (int \<times> nvme_dev) option)
     \<Rightarrow> nvme_ns \<Rightarrow> ioctl_cmd \<Rightarrow> nvme_dev \<Rightarrow> (int \<times> nvme_dev) option" where
  "nvme_ioctl env menv uenv palloc capable ucmd copy_out io sg_version sg_io ns cmd dev =
     (case cmd of
        NVME_IOCTL_ID \<Rightarrow> Some (sint (ns_id ns), dev)
      | NVME_IOCTL_ADMIN_CMD \<Rightarrow> nvme_user_cmd env menv palloc capable ucmd copy_out False dev
      | NVME_IOCTL_IO_CMD \<Rightarrow> nvme_user_cmd env menv palloc capable ucmd copy_out True dev
      | NVME_IOCTL_SUBMIT_IO \<Rightarrow> nvme_submit_io env menv uenv palloc ns io dev
      | SG_GET_VERSION_NUM \<Rightarrow> sg_version dev
      | SG_IO \<Rightarrow> sg_io dev
      | IOCTL_OTHER \<Rightarrow> Some (- ENOTTY, dev))"

end
