(* ===== verification/Nvme_Device.thy ===== *)
theory Nvme_Device
  imports Nvme_Ctrl Nvme_Submit
begin

text \<open>
  The device around its queues (struct nvme_dev of src/include/linux/nvme.h with its pci_dev) and
  its namespaces: \<open>nvme_revalidate_disk\<close>, \<open>nvme_alloc_ns\<close>, \<open>nvme_dev_add\<close>, opening, releasing and
  freeing, all of src/nvme-core.c.

  \<open>v_dev\<close> is the queue and command state of the other theories. The state of the pci_dev that
  the driver tests or changes is kept here too: whether BAR 0 is mapped and how many bytes of
  it, the enable count, the regions, MSI and MSI-X. The kernel is built without
  CONFIG_BLK_DEV_INTEGRITY (src/include/generated/autoconf.h), so blk_get_integrity returns NULL
  and \<open>nvme_init_integrity\<close> is empty.
\<close>

section \<open>State\<close>

datatype queue_flag = QUEUE_FLAG_NOMERGES | QUEUE_FLAG_NONROT | QUEUE_FLAG_SG_GAPS
  | QUEUE_FLAG_DISCARD

text \<open>
  A namespace with its disk and request queue. The setters of the request queue record their
  argument.
\<close>

record nvme_disk =
  n_ns :: nvme_ns
  n_up :: bool
  n_private :: bool
  n_capacity :: u64
  n_flags :: "queue_flag set"
  n_logical_block_size :: u16
  n_max_hw_sectors :: "u32 option"
  n_chunk_sectors :: "u32 option"
  n_flush :: bool
  n_discard_alignment :: u32
  n_discard_granularity :: u32
  n_max_discard_sectors :: u32
  n_discard_zeroes_data :: u8

datatype reset_fn = nvme_reset_failed_dev_fn | nvme_remove_disks_fn

text \<open>The global \<open>nvme_thread\<close>: NULL, an error pointer, or a running thread.\<close>

datatype nvme_thread = ThreadNull | ThreadErr int | ThreadRunning

record tag_set =
  ts_nr_hw_queues :: u32
  ts_timeout :: u32
  ts_queue_depth :: int
  ts_cmd_size :: u32

datatype devent = CleanupQueue nat | AbortRequeueList nat | KfreeNs u32 | PutDisk u32 | DelGendisk u32
  | PciDevPut | PutDevice | ReleaseInstance int | FreeTagSet | PutAdminQueue
  | KfreeQueues | KfreeEntry | KfreeDev
  | FreezeQueueStart nat | UnfreezeQueue nat | CancelRequeueWork nat | StopHwQueues nat
  | StartStoppedHwQueues nat | KickRequeue nat
  | QueueWork | ScheduleProbeWork | FlushWork | KthreadRun | KthreadStop | WakeUpAll
  | IrqAffinityHint int | SetDrvdata bool | DestroyPool bool | DeviceDestroy int
  | DestroyClass | DestroyWorkqueue | UnregisterDriver | StopAndRemoveBus
  | AllocDev | AllocEntry | AllocQueues | PciDevGet | NewInstance int | CreatePool bool | DeviceCreate int
  | GetDevice | CreateWorkqueue | CreateClass | RegisterDriver

record nvme_device =
  v_dev :: nvme_dev
  v_bar :: "u32 option"
  v_max_qid :: u32
  v_q_depth :: int
  v_entry :: "int \<Rightarrow> int"
  v_instance :: int
  v_oncs :: u16
  v_vwc :: u8
  v_serial :: "u8 list"
  v_model :: "u8 list"
  v_firmware_rev :: "u8 list"
  v_max_hw_sectors :: u32
  v_stripe_size :: u32
  v_tagset :: "tag_set option"
  v_namespaces :: "nvme_disk list"
  v_reset_workfn :: reset_fn
  v_kref :: nat
  v_irq :: int
  v_pin_irq :: int
  v_enable_cnt :: nat
  v_regions :: bool
  v_msi :: bool
  v_msix :: bool
  v_others :: bool
  v_thread :: nvme_thread
  v_log :: "devent list"

definition dev_log :: "devent list \<Rightarrow> nvme_device \<Rightarrow> nvme_device" where
  "dev_log evs v = v\<lparr>v_log := v_log v @ evs\<rparr>"

section \<open>Identify data\<close>

record nvme_lbaf =
  lbaf_ms :: u16
  lbaf_ds :: u8
  lbaf_rp :: u8

text \<open>The fields of \<open>struct nvme_id_ns\<close> and \<open>struct nvme_id_ctrl\<close> that the driver reads.\<close>

record nvme_id_ns =
  id_nsze :: u64
  id_ncap :: u64
  id_flbas :: u8
  id_dps :: u8
  id_lbaf :: "nvme_lbaf list"

record nvme_id_ctrl =
  ic_sn :: "u8 list"
  ic_mn :: "u8 list"
  ic_fr :: "u8 list"
  ic_mdts :: u8
  ic_acl :: u8
  ic_nn :: u32
  ic_oncs :: u16
  ic_vwc :: u8
  ic_vs3 :: u8

definition zero_lbaf :: nvme_lbaf where "zero_lbaf = \<lparr>lbaf_ms = 0, lbaf_ds = 0, lbaf_rp = 0\<rparr>"

definition zero_id_ns :: nvme_id_ns where
  "zero_id_ns = \<lparr>id_nsze = 0, id_ncap = 0, id_flbas = 0, id_dps = 0, id_lbaf = replicate 16 zero_lbaf\<rparr>"

abbreviation NVME_NS_FLBAS_LBA_MASK :: u8 where "NVME_NS_FLBAS_LBA_MASK \<equiv> 0xf"
abbreviation NVME_NS_FLBAS_META_EXT :: u8 where "NVME_NS_FLBAS_META_EXT \<equiv> 0x10"
abbreviation NVME_NS_DPS_PI_MASK :: u8 where "NVME_NS_DPS_PI_MASK \<equiv> 7"
abbreviation SIZEOF_T10_PI_TUPLE :: u16 where "SIZEOF_T10_PI_TUPLE \<equiv> 8"
abbreviation NVME_CTRL_ONCS_DSM :: u16 where "NVME_CTRL_ONCS_DSM \<equiv> 4"
abbreviation NVME_CTRL_VWC_PRESENT :: u8 where "NVME_CTRL_VWC_PRESENT \<equiv> 1"

section \<open>Block-device operations\<close>

definition queue_logical_block_size :: "nvme_disk \<Rightarrow> u16" where
  "queue_logical_block_size d = (if n_logical_block_size d \<noteq> 0 then n_logical_block_size d else 512)"

definition blk_get_integrity :: "nvme_disk \<Rightarrow> bool" where
  "blk_get_integrity d = False"

text \<open>\<open>heads\<close>, \<open>sectors\<close> and \<open>cylinders\<close> (an unsigned short) of struct hd_geometry.\<close>

definition nvme_getgeo :: "nvme_disk \<Rightarrow> u8 \<times> u8 \<times> u16" where
  "nvme_getgeo d = (push_bit 6 1, push_bit 5 1, ucast (drop_bit 11 (n_capacity d)))"

definition nvme_config_discard :: "nvme_disk \<Rightarrow> nvme_disk" where
  "nvme_config_discard d =
     (let bs = ucast (queue_logical_block_size d)
      in d\<lparr>n_discard_zeroes_data := 0, n_discard_alignment := bs, n_discard_granularity := bs,
           n_max_discard_sectors := 0xffffffff, n_flags := insert QUEUE_FLAG_DISCARD (n_flags d)\<rparr>)"

text \<open>
  \<open>nvme_revalidate_disk\<close>: first what it makes of the identify data, None being a shift by a
  negative amount or by more than the width.
\<close>

definition revalidate_format :: "nvme_id_ns \<Rightarrow> nvme_disk \<Rightarrow> nvme_disk option" where
  "revalidate_format idn d =
     (let lbaf = unat (id_flbas idn AND NVME_NS_FLBAS_LBA_MASK)
      in if lbaf \<ge> length (id_lbaf idn) then None
         else let f = id_lbaf idn ! lbaf;
                  shift = (if lbaf_ds f = 0 then 9 else uint (lbaf_ds f));
                  bs = push_bit (nat shift) 1 :: u32;
                  ms = lbaf_ms f;
                  pi_type = (if ms = SIZEOF_T10_PI_TUPLE then id_dps idn AND NVME_NS_DPS_PI_MASK else 0);
                  ns = (n_ns d)\<lparr>ns_lba_shift := shift, ns_ms := ms,
                         ns_ext := (ms \<noteq> 0 \<and> id_flbas idn AND NVME_NS_FLBAS_META_EXT \<noteq> 0),
                         ns_pi_type := pi_type\<rparr>;
                  d1 = d\<lparr>n_ns := ns, n_logical_block_size := ucast bs\<rparr>
           in if shift \<ge> 32 then None
              else if id_ncap idn = 0 \<or> ms \<noteq> 0 \<and> \<not> blk_get_integrity d1
                   then Some (d1\<lparr>n_capacity := 0\<rparr>)
                   else if shift < 9 then None
                        else Some (d1\<lparr>n_capacity := push_bit (nat (shift - 9)) (id_nsze idn)\<rparr>))"

definition nvme_revalidate_disk ::
  "task_env \<Rightarrow> dma_addr option \<Rightarrow> nvme_id_ns \<Rightarrow> u16 \<Rightarrow> nvme_disk \<Rightarrow> nvme_dev
     \<Rightarrow> (int \<times> nvme_disk \<times> nvme_dev) option" where
  "nvme_revalidate_disk env mem idn oncs d dev =
     (case mem of
        None \<Rightarrow> Some (0, d, dev)
      | Some dma_addr \<Rightarrow>
          do { (r, dev1) \<leftarrow> nvme_identify env (ns_id (n_ns d)) 0 dma_addr dev;
               d1 \<leftarrow> revalidate_format (if r \<noteq> 0 then zero_id_ns else idn) d;
               Some (0, if oncs AND NVME_CTRL_ONCS_DSM \<noteq> 0 then nvme_config_discard d1 else d1,
                     kernel_log [DmaFreeCoherent 4096 dma_addr] dev1) })"

section \<open>Namespaces\<close>

text \<open>
  What the kernel returns while a namespace is added: kzalloc, blk_mq_init_queue (the queue or an
  error), alloc_disk, and per revalidation the calling task, the buffer and what the controller
  wrote into it.
\<close>

record ns_env =
  ne_kzalloc :: bool
  ne_queue :: "nat option"
  ne_disk :: bool
  ne_identify :: "nat \<Rightarrow> task_env \<times> dma_addr option \<times> nvme_id_ns"

definition new_disk :: "nat \<Rightarrow> u32 \<Rightarrow> nvme_device \<Rightarrow> nvme_disk" where
  "new_disk queue nsid v =
     \<lparr>n_ns = \<lparr>ns_id = nsid, ns_lba_shift = 9, ns_ms = 0, ns_ext = False, ns_pi_type = 0, ns_queue = queue\<rparr>,
      n_up = False, n_private = True, n_capacity = 0,
      n_flags = {QUEUE_FLAG_NOMERGES, QUEUE_FLAG_NONROT, QUEUE_FLAG_SG_GAPS},
      n_logical_block_size = push_bit 9 1,
      n_max_hw_sectors = (if v_max_hw_sectors v \<noteq> 0 then Some (v_max_hw_sectors v) else None),
      n_chunk_sectors = (if v_stripe_size v \<noteq> 0 then Some (drop_bit 9 (v_stripe_size v)) else None),
      n_flush = (v_vwc v AND NVME_CTRL_VWC_PRESENT \<noteq> 0),
      n_discard_alignment = 0, n_discard_granularity = 0, n_max_discard_sectors = 0,
      n_discard_zeroes_data = 0\<rparr>"

definition revalidate_nth ::
  "ns_env \<Rightarrow> nat \<Rightarrow> u16 \<Rightarrow> nvme_disk \<Rightarrow> nvme_dev \<Rightarrow> (int \<times> nvme_disk \<times> nvme_dev) option" where
  "revalidate_nth env k oncs d dev =
     (case ne_identify env k of (t, mem, idn) \<Rightarrow> nvme_revalidate_disk t mem idn oncs d dev)"

definition nvme_alloc_ns :: "ns_env \<Rightarrow> u32 \<Rightarrow> nvme_device \<Rightarrow> nvme_device option" where
  "nvme_alloc_ns env nsid v =
     (if \<not> ne_kzalloc env then Some v
      else case ne_queue env of
             None \<Rightarrow> Some (dev_log [KfreeNs nsid] v)
           | Some queue \<Rightarrow>
               if \<not> ne_disk env then Some (dev_log [CleanupQueue queue, KfreeNs nsid] v)
               else do {
                 (_, d, dev) \<leftarrow> revalidate_nth env 0 (v_oncs v) (new_disk queue nsid v) (v_dev v);
                 (_, d', dev') \<leftarrow> (if ns_ms (n_ns d) \<noteq> 0 then revalidate_nth env 1 (v_oncs v) d dev
                                   else Some (0, d, dev));
                 Some (v\<lparr>v_dev := dev', v_namespaces := v_namespaces v @ [d']\<rparr>) })"

fun alloc_ns_loop :: "(nat \<Rightarrow> ns_env) \<Rightarrow> nat list \<Rightarrow> nvme_device \<Rightarrow> nvme_device option" where
  "alloc_ns_loop env [] v = Some v"
| "alloc_ns_loop env (i # is) v = do { v' \<leftarrow> nvme_alloc_ns (env i) (of_nat i) v; alloc_ns_loop env is v' }"

record add_env =
  ae_cap :: u64
  ae_mem :: "dma_addr option"
  ae_task :: task_env
  ae_ctrl :: nvme_id_ctrl
  ae_intel_0953 :: bool
  ae_tag_set :: int
  ae_ns :: "nat \<Rightarrow> ns_env"

definition shl_one :: "nat \<Rightarrow> u32 option" where
  "shl_one n = (if n < 32 then Some (push_bit n 1) else None)"

text \<open>The transfer limit and the stripe size that \<open>nvme_dev_add\<close> derives from the identify data.\<close>

definition add_limits :: "bool \<Rightarrow> nat \<Rightarrow> nvme_id_ctrl \<Rightarrow> nvme_device \<Rightarrow> nvme_device option" where
  "add_limits intel shift ctrl v =
     do { v1 \<leftarrow> (if ic_mdts ctrl \<noteq> 0
                 then do { m \<leftarrow> shl_one (unat (ic_mdts ctrl) + shift - 9); Some (v\<lparr>v_max_hw_sectors := m\<rparr>) }
                 else Some v);
          if intel \<and> ic_vs3 ctrl \<noteq> 0
          then do { stripe \<leftarrow> shl_one (unat (ic_vs3 ctrl) + shift);
                    let m = drop_bit (shift - 9) stripe;
                    Some (v1\<lparr>v_stripe_size := stripe,
                      v_max_hw_sectors := (if v_max_hw_sectors v1 \<noteq> 0 then min m (v_max_hw_sectors v1) else m)\<rparr>) }
          else Some v1 }"

abbreviation BLK_MQ_MAX_DEPTH :: int where "BLK_MQ_MAX_DEPTH \<equiv> 10240"
abbreviation NVME_IO_TIMEOUT :: u32 where "NVME_IO_TIMEOUT \<equiv> 3000"

text \<open>
  \<open>nvme_dev_add\<close>. The loop \<open>for (i = 1; i <= nn; i++)\<close> on unsigned numbers does not end for the
  largest nn: None.
\<close>

definition nvme_dev_add :: "add_env \<Rightarrow> nvme_device \<Rightarrow> (int \<times> nvme_device) option" where
  "nvme_dev_add env v =
     (case ae_mem env of
        None \<Rightarrow> Some (- ENOMEM, v)
      | Some dma_addr \<Rightarrow>
          do { (res, dev1) \<leftarrow> nvme_identify (ae_task env) 0 1 dma_addr (v_dev v);
               let dev2 = kernel_log [DmaFreeCoherent 4096 dma_addr] dev1;
               if res \<noteq> 0 then Some (- EIO, v\<lparr>v_dev := dev2\<rparr>)
               else do {
                 let ctrl = ae_ctrl env;
                 let shift = unat (cap_mpsmin (ae_cap env)) + 12;
                 v1 \<leftarrow> add_limits (ae_intel_0953 env) shift ctrl
                   (v\<lparr>v_oncs := ic_oncs ctrl, v_vwc := ic_vwc ctrl, v_serial := ic_sn ctrl,
                      v_model := ic_mn ctrl, v_firmware_rev := ic_fr ctrl,
                      v_dev := dev2\<lparr>d_abort_limit := ucast (ic_acl ctrl) + 1\<rparr>\<rparr>);
                 let v2 = v1\<lparr>v_tagset := Some \<lparr>ts_nr_hw_queues = d_online_queues (v_dev v1) - 1,
                       ts_timeout = NVME_IO_TIMEOUT,
                       ts_queue_depth = min (v_q_depth v1) BLK_MQ_MAX_DEPTH - 1,
                       ts_cmd_size = nvme_cmd_size (d_page_size (v_dev v1))\<rparr>\<rparr>;
                 if ae_tag_set env \<noteq> 0 then Some (0, v2)
                 else if ic_nn ctrl = -1 then None
                 else map_option (Pair 0) (alloc_ns_loop (ae_ns env) [1..<Suc (unat (ic_nn ctrl))] v2) } })"

text \<open>
  \<open>nvme_dev_remove\<close> (\<open>dying\<close> is blk_queue_dying), and what \<open>nvme_free_dev\<close> frees: the namespaces with
  \<open>nvme_free_namespaces\<close>, the instance number, the tag set, the admin queue and the arrays.
\<close>

definition remove_ns_events :: "(nat \<Rightarrow> bool) \<Rightarrow> nvme_disk \<Rightarrow> devent list" where
  "remove_ns_events dying d =
     (let q = ns_queue (n_ns d)
      in (if n_up d then [DelGendisk (ns_id (n_ns d))] else [])
         @ (if \<not> dying q then [AbortRequeueList q, CleanupQueue q] else []))"

definition nvme_dev_remove :: "(nat \<Rightarrow> bool) \<Rightarrow> nvme_device \<Rightarrow> nvme_device" where
  "nvme_dev_remove dying v = dev_log (concat (map (remove_ns_events dying) (v_namespaces v))) v"

definition nvme_free_namespaces :: "nvme_device \<Rightarrow> nvme_device" where
  "nvme_free_namespaces v =
     dev_log (concat (map (\<lambda>d. [PutDisk (ns_id (n_ns d)), KfreeNs (ns_id (n_ns d))]) (v_namespaces v)))
       (v\<lparr>v_namespaces := []\<rparr>)"

definition nvme_release_instance :: "nvme_device \<Rightarrow> nvme_device" where
  "nvme_release_instance v = dev_log [ReleaseInstance (v_instance v)] v"

text \<open>\<open>nvme_free_dev\<close>: blk_put_queue of a NULL queue crashes.\<close>

definition nvme_free_dev :: "nvme_device \<Rightarrow> nvme_device option" where
  "nvme_free_dev v =
     (let v1 = nvme_release_instance (nvme_free_namespaces (dev_log [PciDevPut, PutDevice] v));
          v2 = dev_log [FreeTagSet] v1
      in if \<not> d_admin_q (v_dev v2) then None
         else Some (dev_log [PutAdminQueue, KfreeQueues, KfreeEntry, KfreeDev] v2))"

text \<open>Reference counting, with kref_get_unless_zero and kref_put of include/linux/kref.h.\<close>

definition kref_get_unless_zero :: "nvme_device \<Rightarrow> bool \<times> nvme_device" where
  "kref_get_unless_zero v = (if v_kref v = 0 then (False, v) else (True, v\<lparr>v_kref := v_kref v + 1\<rparr>))"

definition kref_put_dev :: "nvme_device \<Rightarrow> nvme_device option" where
  "kref_put_dev v =
     (let v' = v\<lparr>v_kref := v_kref v - 1\<rparr> in if v_kref v = 1 then nvme_free_dev v' else Some v')"

definition nvme_open :: "nvme_disk \<Rightarrow> nvme_device \<Rightarrow> int \<times> nvme_device" where
  "nvme_open d v =
     (if \<not> n_private d then (- ENXIO, v)
      else case kref_get_unless_zero v of (ok, v') \<Rightarrow> (if ok then 0 else - ENXIO, v'))"

definition nvme_release :: "nvme_disk \<Rightarrow> nvme_device \<Rightarrow> nvme_device option" where
  "nvme_release d v = (if \<not> n_private d then None else kref_put_dev v)"

section \<open>Properties\<close>

lemma unat_push_bit_le:
  assumes "unat (x :: 'a::len word) * 2 ^ n < 2 ^ LENGTH('a)"
  shows "unat (push_bit n x) = unat x * 2 ^ n"
proof -
  have "unat (push_bit n x) = take_bit LENGTH('a) (push_bit n (unat x))"
    by (rule unsigned_push_bit_eq)
  then show ?thesis using assms by (simp only: push_bit_eq_mult take_bit_nat_eq_self)
qed

lemma block_size_word:
  assumes "n < 16"
  shows "unat (ucast (push_bit n 1 :: 32 word) :: 16 word) = 2 ^ n"
proof -
  have b: "(2::nat) ^ n < 2 ^ 16" using assms by (intro power_strict_increasing) auto
  have "unat (push_bit n 1 :: 32 word) = unat (1 :: 32 word) * 2 ^ n"
    by (rule unat_push_bit_le) (use b in simp)
  then have "unat (push_bit n 1 :: 32 word) = 2 ^ n" by simp
  then show ?thesis using b assms by (simp only: unsigned_ucast_eq take_bit_nat_eq_self) simp
qed

lemma nibble_less: "unat ((x :: u8) AND 0xf) < 16"
proof -
  have "x AND 0xf \<le> 0xf" by (rule word_and_le1)
  then show ?thesis by (simp add: word_le_nat_alt)
qed

lemma revalidate_format_ok:
  assumes "length (id_lbaf idn) = 16" "f = id_lbaf idn ! unat (id_flbas idn AND 0xf)"
    "lbaf_ds f = 0 \<or> 9 \<le> lbaf_ds f \<and> lbaf_ds f < 16"
    "unat (id_nsze idn) * 2 ^ (unat (lbaf_ds f) - 9) < 2 ^ 64"
  shows "\<exists>d'. revalidate_format idn d = Some d'
    \<and> ns_lba_shift (n_ns d') = (if lbaf_ds f = 0 then 9 else uint (lbaf_ds f))
    \<and> unat (n_logical_block_size d') = 2 ^ nat (ns_lba_shift (n_ns d'))
    \<and> unat (n_capacity d') * 512 = (if id_ncap idn = 0 \<or> lbaf_ms f \<noteq> 0 then 0
         else unat (id_nsze idn) * 2 ^ nat (ns_lba_shift (n_ns d')))"
proof -
  define n where "n = (if lbaf_ds f = 0 then 9 else unat (lbaf_ds f))"
  have n: "9 \<le> n" "n < 16" using assms(3) by (auto simp: n_def word_le_nat_alt word_less_nat_alt)
  have shift: "(if lbaf_ds f = 0 then 9 else uint (lbaf_ds f)) = int n" by (simp add: n_def)
  have "unat (id_nsze idn) * 2 ^ (n - 9) < 2 ^ LENGTH(64)"
    using assms(4) by (auto simp: n_def)
  then have cap: "unat (push_bit (n - 9) (id_nsze idn)) = unat (id_nsze idn) * 2 ^ (n - 9)"
    by (rule unat_push_bit_le)
  have "unat (id_nsze idn) * 2 ^ (n - 9) * 512 = unat (id_nsze idn) * 2 ^ n"
    using n(1) power_add [of "2::nat" "n - 9" 9] by simp
  with cap show ?thesis
    using assms(1) n nibble_less [of "id_flbas idn"] block_size_word [OF n(2)]
    by (simp add: revalidate_format_def Let_def assms(2) [symmetric] shift nat_diff_distrib blk_get_integrity_def
        del: push_bit_of_1)
qed

text \<open>
  C25: a namespace gets the size the controller reports. Whatever Identify returns, a format with
  blocks of 512 bytes to 32 KiB (or none) makes \<open>nvme_revalidate_disk\<close> succeed and free its buffer;
  the logical block size is the power of two of the shift, and the capacity in sectors of 512
  bytes holds exactly the blocks of the namespace, or is 0 when Identify failed, when the
  namespace has no capacity or when it has metadata.
\<close>

theorem nvme_revalidate_disk_capacity:
  assumes "nvme_identify env (ns_id (n_ns d)) 0 a dev = Some (r, dev1)" "length (id_lbaf idn) = 16"
    "f = id_lbaf idn ! unat (id_flbas idn AND 0xf)" "lbaf_ds f = 0 \<or> 9 \<le> lbaf_ds f \<and> lbaf_ds f < 16"
    "unat (id_nsze idn) * 2 ^ (unat (lbaf_ds f) - 9) < 2 ^ 64"
  shows "\<exists>d'. nvme_revalidate_disk env (Some a) idn oncs d dev
      = Some (0, d', kernel_log [DmaFreeCoherent 4096 a] dev1)
    \<and> ns_lba_shift (n_ns d') = (if r \<noteq> 0 \<or> lbaf_ds f = 0 then 9 else uint (lbaf_ds f))
    \<and> unat (n_logical_block_size d') = 2 ^ nat (ns_lba_shift (n_ns d'))
    \<and> unat (n_capacity d') * 512 = (if r \<noteq> 0 \<or> id_ncap idn = 0 \<or> lbaf_ms f \<noteq> 0 then 0
         else unat (id_nsze idn) * 2 ^ nat (ns_lba_shift (n_ns d')))"
proof -
  have frame: "n_ns (nvme_config_discard e) = n_ns e" "n_capacity (nvme_config_discard e) = n_capacity e"
    "n_logical_block_size (nvme_config_discard e) = n_logical_block_size e" for e
    by (simp_all add: nvme_config_discard_def Let_def)
  show ?thesis
  proof (cases "r = 0")
    case True
    from revalidate_format_ok [OF assms(2-5), of d] obtain d1 where "revalidate_format idn d = Some d1"
        "ns_lba_shift (n_ns d1) = (if lbaf_ds f = 0 then 9 else uint (lbaf_ds f))"
        "unat (n_logical_block_size d1) = 2 ^ nat (ns_lba_shift (n_ns d1))"
        "unat (n_capacity d1) * 512 = (if id_ncap idn = 0 \<or> lbaf_ms f \<noteq> 0 then 0
           else unat (id_nsze idn) * 2 ^ nat (ns_lba_shift (n_ns d1)))" by blast
    with True assms(1) frame show ?thesis by (auto simp: nvme_revalidate_disk_def)
  next
    case False
    have "\<exists>d1. revalidate_format zero_id_ns d = Some d1 \<and> ns_lba_shift (n_ns d1) = 9
        \<and> unat (n_logical_block_size d1) = 2 ^ nat (ns_lba_shift (n_ns d1)) \<and> n_capacity d1 = 0"
      using revalidate_format_ok [of zero_id_ns zero_lbaf d] by (simp add: zero_id_ns_def zero_lbaf_def unat_eq_zero)
    with False assms(1) frame show ?thesis by (auto simp: nvme_revalidate_disk_def)
  qed
qed

definition sample_id_ns :: nvme_id_ns where
  "sample_id_ns = \<lparr>id_nsze = 1000, id_ncap = 1000, id_flbas = 0, id_dps = 0,
     id_lbaf = replicate 16 (zero_lbaf\<lparr>lbaf_ds := 12\<rparr>)\<rparr>"

definition sample_disk :: nvme_disk where
  "sample_disk = \<lparr>n_ns = \<lparr>ns_id = 1, ns_lba_shift = 9, ns_ms = 0, ns_ext = False, ns_pi_type = 0, ns_queue = 3\<rparr>,
     n_up = False, n_private = True, n_capacity = 0, n_flags = {}, n_logical_block_size = 512,
     n_max_hw_sectors = None, n_chunk_sectors = None, n_flush = False, n_discard_alignment = 0,
     n_discard_granularity = 0, n_max_discard_sectors = 0, n_discard_zeroes_data = 0\<rparr>"

lemma sample_identify:
  "\<exists>dev1. nvme_identify (sample_env (sample_cqe 2 0)) nsid cns a sample_admin_dev = Some (0, dev1)"
  by (simp add: nvme_identify_def status_only_def nvme_submit_admin_cmd_def submit_admin_cmd_timeout_def
      sample_env_def nvme_submit_sync_cmd_def sample_admin_dev_def sample_admin_req_def nvme_set_info_def
      nvme_submit_cmd_def submit_cmd_locked_def get_queue_def sample_admin_queue_def sample_queue_def
      sq_push_def Let_def put_request_def put_queue_def kernel_log_def sample_dev_def cq_consume_def
      sample_cqe_def nvme_finish_cmd_def get_cmd_from_tag_def sync_completion_def cqe_code_def)

theorem nvme_revalidate_disk_capacity_witness:
  "\<exists>d' dev'. nvme_revalidate_disk (sample_env (sample_cqe 2 0)) (Some 0x5000) sample_id_ns 4 sample_disk
      sample_admin_dev = Some (0, d', dev')
    \<and> ns_lba_shift (n_ns d') = 12 \<and> unat (n_capacity d') * 512 = 1000 * 4096"
proof -
  obtain dev1 where i: "nvme_identify (sample_env (sample_cqe 2 0)) (ns_id (n_ns sample_disk)) 0 0x5000
      sample_admin_dev = Some (0, dev1)"
    using sample_identify by blast
  from nvme_revalidate_disk_capacity [OF i, of sample_id_ns "zero_lbaf\<lparr>lbaf_ds := 12\<rparr>" 4] show ?thesis
    by (auto simp: sample_id_ns_def zero_lbaf_def)
qed

end
