(* ===== verification/Nvme_Start.thy ===== *)
theory Nvme_Start
  imports Nvme_Device
begin

text \<open>
  Bringing a controller up (src/nvme-core.c, \<open>nvme_create_io_queues\<close> to \<open>nvme_setup_io_queues\<close>,
  \<open>nvme_dev_map\<close>, \<open>nvme_dev_unmap\<close>, \<open>nvme_dev_list_remove\<close>, \<open>nvme_set_irq_hints\<close>, \<open>nvme_dev_start\<close>). The
  theorems: the doorbells of all queues lie inside the mapped part of BAR 0, and a failed start gives
  back what it took from the PCI layer, with one exception.
\<close>

section \<open>Mapping the device\<close>

text \<open>What the PCI layer and the registers return to \<open>nvme_dev_map\<close>.\<close>

record pci_env =
  pe_enable :: int
  pe_bars :: int
  pe_regions :: int
  pe_mask64 :: int
  pe_mask32 :: int
  pe_ioremap :: bool
  pe_csts :: u32
  pe_msix :: int
  pe_msix_vector :: int
  pe_cap :: u64

abbreviation NVME_Q_DEPTH :: int where "NVME_Q_DEPTH \<equiv> 1024"

definition cap_mqes :: "u64 \<Rightarrow> int" where "cap_mqes cap = uint (cap AND 0xffff)"
definition cap_stride :: "u64 \<Rightarrow> nat" where "cap_stride cap = unat (drop_bit 32 cap AND 0xf)"

definition pci_disable_device :: "nvme_device \<Rightarrow> nvme_device" where
  "pci_disable_device v = v\<lparr>v_enable_cnt := v_enable_cnt v - 1\<rparr>"

definition pci_release_regions :: "nvme_device \<Rightarrow> nvme_device" where
  "pci_release_regions v = v\<lparr>v_regions := False\<rparr>"

definition iounmap_bar :: "nvme_device \<Rightarrow> nvme_device" where
  "iounmap_bar v = v\<lparr>v_bar := None\<rparr>"

text \<open>
  The last part of \<open>nvme_dev_map\<close>, once the BAR is mapped. pci_enable_msix enables the vector when it
  returns 0; a positive result leaves it disabled and is not an error.
\<close>

definition dev_map_registers :: "pci_env \<Rightarrow> nvme_device \<Rightarrow> int \<times> nvme_device" where
  "dev_map_registers env v =
     (let undo = (\<lambda>w. pci_disable_device (pci_release_regions (iounmap_bar w)));
          finish = (\<lambda>w. w\<lparr>v_q_depth := min (cap_mqes (pe_cap env) + 1) NVME_Q_DEPTH,
                         v_dev := (v_dev w)\<lparr>d_db_stride := push_bit (cap_stride (pe_cap env)) 1\<rparr>\<rparr>)
      in if pe_csts env = -1 then (- ENODEV, undo v)
         else if v_irq v = 0
         then (if pe_msix env < 0 then (pe_msix env, undo v)
               else if pe_msix env = 0
               then (0, finish (v\<lparr>v_msix := True, v_entry := (v_entry v)(0 := pe_msix_vector env)\<rparr>))
               else (0, finish v))
         else (0, finish v))"

definition nvme_dev_map :: "pci_env \<Rightarrow> nvme_device \<Rightarrow> int \<times> nvme_device" where
  "nvme_dev_map env v =
     (if pe_enable env \<noteq> 0 then (- ENOMEM, v)
      else let v1 = v\<lparr>v_enable_cnt := v_enable_cnt v + 1, v_entry := (v_entry v)(0 := v_irq v)\<rparr>
        in if pe_bars env = 0 then (- ENOMEM, pci_disable_device v1)
           else if pe_regions env \<noteq> 0 then (- ENOMEM, pci_disable_device v1)
           else let v2 = v1\<lparr>v_regions := True\<rparr>
             in if pe_mask64 env \<noteq> 0 \<and> pe_mask32 env \<noteq> 0
                then (- ENOMEM, pci_disable_device (pci_release_regions v2))
                else if \<not> pe_ioremap env
                then (- ENOMEM, pci_disable_device (pci_release_regions (v2\<lparr>v_bar := None\<rparr>)))
                else dev_map_registers env (v2\<lparr>v_bar := Some 8192\<rparr>))"

text \<open>pci_disable_msi gives the pdev its pin interrupt back.\<close>

definition nvme_dev_unmap :: "nvme_device \<Rightarrow> nvme_device" where
  "nvme_dev_unmap v =
     (let v1 = (if v_msi v then v\<lparr>v_msi := False, v_irq := v_pin_irq v\<rparr>
                else if v_msix v then v\<lparr>v_msix := False\<rparr> else v);
          v2 = (if v_bar v1 \<noteq> None then pci_release_regions (iounmap_bar v1) else v1)
      in if 0 < v_enable_cnt v2 then pci_disable_device v2 else v2)"

section \<open>I/O queues\<close>

fun alloc_queue_loop :: "(nat \<Rightarrow> queue_mem) \<Rightarrow> u16 \<Rightarrow> nat list \<Rightarrow> nvme_dev \<Rightarrow> nvme_dev option" where
  "alloc_queue_loop mem depth [] dev = Some dev"
| "alloc_queue_loop mem depth (i # is) dev =
     do { (got, dev') \<leftarrow> nvme_alloc_queue (mem i) i depth dev;
          if got = None then Some dev' else alloc_queue_loop mem depth is dev' }"

text \<open>
  The second loop of \<open>nvme_create_io_queues\<close>. An index outside the queue array crashes, so the
  length of the array is enough fuel.
\<close>

fun create_queue_loop ::
  "nat \<Rightarrow> (nat \<Rightarrow> task_env \<times> int) \<Rightarrow> bool \<Rightarrow> (int \<Rightarrow> int) \<Rightarrow> nat \<Rightarrow> nvme_dev \<Rightarrow> nvme_dev option" where
  "create_queue_loop 0 env threaded entry i dev = None"
| "create_queue_loop (Suc fuel) env threaded entry i dev =
     (if i \<le> unat (d_queue_count dev - 1)
      then do { (r, dev') \<leftarrow> nvme_create_queue (fst (env i)) threaded entry (snd (env i)) i dev;
                if r \<noteq> 0 then Some dev' else create_queue_loop fuel env threaded entry (i + 1) dev' }
      else Some dev)"

definition nvme_create_io_queues ::
  "(nat \<Rightarrow> queue_mem) \<Rightarrow> (nat \<Rightarrow> task_env \<times> int) \<Rightarrow> bool \<Rightarrow> nvme_device \<Rightarrow> nvme_device option" where
  "nvme_create_io_queues mem env threaded v =
     do { dev1 \<leftarrow> alloc_queue_loop mem (of_int (v_q_depth v))
                    [unat (d_queue_count (v_dev v))..<Suc (unat (v_max_qid v))] (v_dev v);
          dev2 \<leftarrow> create_queue_loop (Suc (length (d_queues dev1))) env threaded (v_entry v)
                    (unat (d_online_queues dev1)) dev1;
          Some (v\<lparr>v_dev := dev2\<rparr>) }"

abbreviation NVME_FEAT_NUM_QUEUES :: u32 where "NVME_FEAT_NUM_QUEUES \<equiv> 7"

definition set_queue_count :: "task_env \<Rightarrow> u32 \<Rightarrow> nvme_dev \<Rightarrow> (int \<times> nvme_dev) option" where
  "set_queue_count env count dev =
     do { (status, result, dev') \<leftarrow> nvme_set_features env NVME_FEAT_NUM_QUEUES
                                      ((count - 1) OR push_bit 16 (count - 1)) 0 dev;
          if status < 0 then Some (status, dev')
          else if status > 0 then Some (0, dev')
          else Some (uint (min (result AND 0xffff) (drop_bit 16 result)) + 1, dev') }"

definition db_bar_size :: "nvme_dev \<Rightarrow> nat \<Rightarrow> u32" where
  "db_bar_size dev nr_io_queues = 4096 + (of_nat nr_io_queues + 1) * 8 * d_db_stride dev"

text \<open>
  The kernel's answers to \<open>nvme_setup_io_queues\<close>: the number of processors, whether ioremap
  succeeds when tried for n queues, and the results of the interrupt functions with the vectors they
  store.
\<close>

record io_env =
  io_cpus :: nat
  io_task :: task_env
  io_ioremap :: "nat \<Rightarrow> bool"
  io_msix :: int
  io_msix_vector :: "int \<Rightarrow> int"
  io_msi :: int
  io_msi_irq :: int
  io_threaded :: bool
  io_irq :: int
  io_mem :: "nat \<Rightarrow> queue_mem"
  io_create :: "nat \<Rightarrow> task_env \<times> int"

text \<open>The do-while loop: the number of queues for which the registers could be mapped.\<close>

fun remap_loop :: "(nat \<Rightarrow> bool) \<Rightarrow> nat \<Rightarrow> nat option" where
  "remap_loop ok 0 = None"
| "remap_loop ok (Suc n) = (if ok (Suc n) then Some (Suc n) else remap_loop ok n)"

definition remap_bar :: "io_env \<Rightarrow> nat \<Rightarrow> nvme_device \<Rightarrow> (nat option \<times> nvme_device) option" where
  "remap_bar env nr v =
     (if sint (db_bar_size (v_dev v) nr) > 8192
      then (case remap_loop (io_ioremap env) nr of
              None \<Rightarrow> Some (None, iounmap_bar v)
            | Some n \<Rightarrow> do { q \<leftarrow> get_queue (v_dev v) 0;
                             Some (Some n, v\<lparr>v_bar := Some (db_bar_size (v_dev v) n),
                               v_dev := put_queue 0 (q\<lparr>q_db := 0\<rparr>) (v_dev v)\<rparr>) })
      else Some (Some nr, v))"

text \<open>The interrupt vectors: the vector count and the device.\<close>

definition io_vectors :: "io_env \<Rightarrow> nvme_device \<Rightarrow> nat \<times> nvme_device" where
  "io_vectors env v =
     (let v1 = (if v_irq v = 0 then v\<lparr>v_msix := False\<rparr> else v)
      in if io_msix env \<ge> 0
         then (nat (io_msix env), v1\<lparr>v_msix := True,
                 v_entry := (\<lambda>i. if 0 \<le> i \<and> i < io_msix env then io_msix_vector env i else v_entry v1 i)\<rparr>)
         else if io_msi env \<ge> 0
         then (nat (io_msi env), v1\<lparr>v_msi := True, v_irq := io_msi_irq env,
                 v_entry := (\<lambda>i. if 0 \<le> i \<and> i < io_msi env then i + io_msi_irq env else v_entry v1 i)\<rparr>)
         else (1, v1))"

definition nvme_setup_io_queues :: "io_env \<Rightarrow> nvme_device \<Rightarrow> (int \<times> nvme_device) option" where
  "nvme_setup_io_queues env v =
     do { (result, dev1) \<leftarrow> set_queue_count (io_task env) (of_nat (io_cpus env)) (v_dev v);
          let v1 = v\<lparr>v_dev := dev1\<rparr>;
          if result \<le> 0 then Some (result, v1)
          else do {
            (mapped, v2) \<leftarrow> remap_bar env (min (io_cpus env) (nat result)) v1;
            case mapped of
              None \<Rightarrow> Some (- ENOMEM, v2)
            | Some nr \<Rightarrow>
                do { adminq \<leftarrow> get_queue (v_dev v2) 0;
                     let (vecs, v3) = io_vectors env
                       (v2\<lparr>v_dev := kernel_log [FreeIrq (v_entry v2 0)] (v_dev v2)\<rparr>);
                     let v4 = v3\<lparr>v_max_qid := of_nat vecs\<rparr>;
                     let (r, dev5) = queue_request_irq (io_threaded env) (v_entry v4) (io_irq env) adminq (v_dev v4);
                     if r \<noteq> 0
                     then do { d \<leftarrow> nvme_free_queues 1 dev5; Some (r, v4\<lparr>v_dev := d\<rparr>) }
                     else do { d \<leftarrow> nvme_free_queues (vecs + 1) dev5;
                               v6 \<leftarrow> nvme_create_io_queues (io_mem env) (io_create env) (io_threaded env)
                                      (v4\<lparr>v_dev := d\<rparr>);
                               Some (0, v6) } } } }"

section \<open>Starting the device\<close>

text \<open>A queue that is NULL crashes.\<close>

fun irq_hints_loop :: "(int \<Rightarrow> int) \<Rightarrow> nat list \<Rightarrow> nvme_dev \<Rightarrow> devent list option" where
  "irq_hints_loop entry [] dev = Some []"
| "irq_hints_loop entry (i # is) dev =
     do { q \<leftarrow> get_queue dev i;
          evs \<leftarrow> irq_hints_loop entry is dev;
          Some ((if q_hctx q = None then [] else [IrqAffinityHint (entry (q_cq_vector q))]) @ evs) }"

definition nvme_set_irq_hints :: "nvme_device \<Rightarrow> nvme_device option" where
  "nvme_set_irq_hints v =
     do { evs \<leftarrow> irq_hints_loop (v_entry v) [0..<unat (d_online_queues (v_dev v))] (v_dev v);
          Some (dev_log evs v) }"

definition nvme_dev_list_remove :: "nvme_device \<Rightarrow> nvme_device" where
  "nvme_dev_list_remove v =
     (let v1 = v\<lparr>v_dev := (v_dev v)\<lparr>d_on_list := False\<rparr>\<rparr>
      in if \<not> v_others v1 \<and> v_thread v1 = ThreadRunning
         then dev_log [KthreadStop] (v1\<lparr>v_thread := ThreadNull\<rparr>)
         else v1)"

text \<open>
  The answers for \<open>nvme_dev_start\<close>: \<open>se_run\<close> is what kthread_run returns, \<open>se_wait\<close> the value of
  \<open>nvme_thread\<close> after wait_event_killable.
\<close>

record start_env =
  se_pci :: pci_env
  se_polls1 :: "nat \<Rightarrow> poll"
  se_polls2 :: "nat \<Rightarrow> poll"
  se_mem :: queue_mem
  se_threaded :: bool
  se_irq :: int
  se_run :: nvme_thread
  se_wait :: nvme_thread
  se_tags :: bool
  se_initq :: bool
  se_getq :: bool
  se_dying :: bool
  se_io :: io_env
  se_task :: task_env
  se_csts :: u32

definition dev_list_add :: "start_env \<Rightarrow> nvme_device \<Rightarrow> nvme_device" where
  "dev_list_add env v =
     (let start_thread = (\<not> v_others v \<and> \<not> d_on_list (v_dev v) \<and> v_thread v \<noteq> ThreadRunning);
          v1 = v\<lparr>v_dev := (v_dev v)\<lparr>d_on_list := True\<rparr>\<rparr>
      in if start_thread then dev_log [KthreadRun, WakeUpAll] (v1\<lparr>v_thread := se_run env\<rparr>)
         else v1\<lparr>v_thread := se_wait env\<rparr>)"

text \<open>The error exits \<open>disable\<close> and \<open>unmap\<close>.\<close>

definition dev_start_disable :: "start_env \<Rightarrow> int \<Rightarrow> nvme_device \<Rightarrow> (int \<times> nvme_device) option" where
  "dev_start_disable env result v =
     do { dev \<leftarrow> nvme_disable_queue (se_task env) (v_entry v) (se_csts env) 0 (v_dev v);
          Some (result, nvme_dev_unmap (nvme_dev_list_remove (v\<lparr>v_dev := dev\<rparr>))) }"

definition thread_error :: "nvme_thread \<Rightarrow> int option" where
  "thread_error t = (case t of ThreadRunning \<Rightarrow> None | ThreadErr e \<Rightarrow> Some e | ThreadNull \<Rightarrow> Some (- EINTR))"

text \<open>The part of \<open>nvme_dev_start\<close> after the polling thread runs.\<close>

definition dev_start_queues :: "start_env \<Rightarrow> nvme_device \<Rightarrow> (int \<times> nvme_device) option" where
  "dev_start_queues env v =
     do { dev1 \<leftarrow> nvme_init_queue 0 0 (v_dev v);
          let (r2, dev2) = nvme_alloc_admin_tags (se_tags env) (se_initq env) (se_getq env) (se_dying env) dev1;
          let v2 = v\<lparr>v_dev := dev2\<rparr>;
          if r2 \<noteq> 0 then dev_start_disable env r2 v2
          else do {
            (r3, v3) \<leftarrow> nvme_setup_io_queues (se_io env) v2;
            if r3 \<noteq> 0
            then dev_start_disable env r3 (v3\<lparr>v_dev := nvme_dev_remove_admin (se_dying env) (v_dev v3)\<rparr>)
            else do { v4 \<leftarrow> nvme_set_irq_hints v3;
                      Some (0, v4\<lparr>v_dev := (v_dev v4)\<lparr>d_event_limit := 1\<rparr>\<rparr>) } } }"

definition nvme_dev_start :: "start_env \<Rightarrow> nvme_device \<Rightarrow> (int \<times> nvme_device) option" where
  "nvme_dev_start env v =
     (case nvme_dev_map (se_pci env) v of (r, v1) \<Rightarrow>
        if r \<noteq> 0 then Some (r, v1)
        else do {
          (r2, dev2) \<leftarrow> nvme_configure_admin_queue (se_polls1 env) (se_polls2 env) (se_mem env) (se_threaded env)
                          (v_entry v1) (se_irq env) (pe_cap (se_pci env)) (v_dev v1);
          if r2 \<noteq> 0 then Some (r2, nvme_dev_unmap (v1\<lparr>v_dev := dev2\<rparr>))
          else let v3 = dev_list_add env (v1\<lparr>v_dev := dev2\<rparr>)
            in case thread_error (v_thread v3) of
                 Some e \<Rightarrow> dev_start_disable env e v3
               | None \<Rightarrow> dev_start_queues env v3 })"

section \<open>What a failed start leaves behind\<close>

text \<open>What the driver holds of the PCI layer.\<close>

definition pci_view :: "nvme_device \<Rightarrow> u32 option \<times> bool \<times> nat \<times> bool \<times> bool" where
  "pci_view v = (v_bar v, v_regions v, v_enable_cnt v, v_msi v, v_msix v)"

abbreviation pci_idle :: "nvme_device \<Rightarrow> bool" where
  "pci_idle v \<equiv> pci_view v = (None, False, 0, False, False)"

lemmas pci_view_simps = pci_view_def pci_disable_device_def pci_release_regions_def iounmap_bar_def

lemma pci_view_upd [simp]:
  "pci_view (v\<lparr>v_dev := d\<rparr>) = pci_view v" "pci_view (v\<lparr>v_max_qid := n\<rparr>) = pci_view v"
  "pci_view (v\<lparr>v_thread := t\<rparr>) = pci_view v" "pci_view (dev_log evs v) = pci_view v"
  by (simp_all add: pci_view_def dev_log_def)

lemma nvme_dev_unmap_view:
  assumes "pci_view v = (bar, True, 1, msi, msix)" "\<not> (msi \<and> msix)"
  shows "pci_view (nvme_dev_unmap v) = (None, bar = None, 0, False, False)"
  using assms by (auto simp: nvme_dev_unmap_def pci_view_simps Let_def)

lemma nvme_dev_unmap_frame [simp]:
  "v_dev (nvme_dev_unmap v) = v_dev v" "v_thread (nvme_dev_unmap v) = v_thread v"
  "v_others (nvme_dev_unmap v) = v_others v"
  by (simp_all add: nvme_dev_unmap_def pci_view_simps Let_def)

lemma nvme_dev_list_remove_simps [simp]:
  "pci_view (nvme_dev_list_remove v) = pci_view v" "\<not> d_on_list (v_dev (nvme_dev_list_remove v))"
  "\<not> v_others v \<Longrightarrow> v_thread (nvme_dev_list_remove v) \<noteq> ThreadRunning"
  by (simp_all add: nvme_dev_list_remove_def pci_view_def Let_def dev_log_def)

lemma nvme_dev_map_view:
  assumes "nvme_dev_map env v = (r, v')" "pci_idle v"
  shows "r \<noteq> 0 \<Longrightarrow> pci_idle v'"
    "r = 0 \<Longrightarrow> \<exists>msix. pci_view v' = (Some 8192, True, 1, False, msix) \<and> (msix \<longrightarrow> v_irq v' = 0)"
    "v_thread v' = v_thread v" "v_others v' = v_others v" "d_on_list (v_dev v') = d_on_list (v_dev v)"
  using assms
  by (auto simp: nvme_dev_map_def dev_map_registers_def pci_view_simps Let_def split: if_splits)

lemma free_queues_on_list: "free_queues_loop l n dev = Some dev' \<Longrightarrow> d_on_list dev' = d_on_list dev"
  by (induction n arbitrary: dev) (auto simp: kernel_log_def split: bind_splits)

lemma nvme_alloc_queue_on_list:
  "nvme_alloc_queue mem qid depth dev = Some (got, dev') \<Longrightarrow> d_on_list dev' = d_on_list dev"
  by (auto simp: nvme_alloc_queue_def kernel_log_def put_queue_def split: option.splits if_splits)

lemma nvme_configure_admin_queue_on_list:
  assumes "nvme_configure_admin_queue polls1 polls2 mem threaded entry irq cap dev = Some (r, dev')"
  shows "d_on_list dev' = d_on_list dev"
  using assms
  by (auto simp: nvme_configure_admin_queue_def nvme_disable_ctrl_def nvme_enable_ctrl_def queue_request_irq_def
      admin_regs_def Let_def kernel_log_def put_queue_def nvme_free_queues_def
      dest!: nvme_alloc_queue_on_list free_queues_on_list split: bind_splits if_splits option.splits)

lemma remap_loop_None: "remap_loop ok n = None \<Longrightarrow> 0 < n \<Longrightarrow> \<not> ok 1"
  by (induction n) (auto split: if_splits)

lemma remap_bar_view:
  assumes "remap_bar env nr v = Some (mapped, v')" "pci_view v = (Some bar, True, 1, False, msix)"
  shows "\<exists>bar'. pci_view v' = (bar', True, 1, False, msix) \<and> (bar' = None \<longleftrightarrow> mapped = None)
    \<and> (mapped = None \<longrightarrow> 0 < nr \<longrightarrow> \<not> io_ioremap env 1)
    \<and> v_irq v' = v_irq v \<and> v_thread v' = v_thread v \<and> v_others v' = v_others v"
  using assms remap_loop_None [of "io_ioremap env" nr]
  by (auto simp: remap_bar_def pci_view_simps split: if_splits option.splits bind_splits)

lemma io_vectors_view:
  assumes "io_vectors env v = (vecs, v')" "pci_view v = (bar, True, 1, False, msix)" "msix \<longrightarrow> v_irq v = 0"
  shows "\<exists>msi' msix'. pci_view v' = (bar, True, 1, msi', msix') \<and> \<not> (msi' \<and> msix')
    \<and> v_thread v' = v_thread v \<and> v_others v' = v_others v"
  using assms by (auto simp: io_vectors_def pci_view_def Let_def split: if_splits)

lemma nvme_create_io_queues_frame:
  "nvme_create_io_queues mem env threaded v = Some v' \<Longrightarrow> \<exists>d. v' = v\<lparr>v_dev := d\<rparr>"
  by (auto simp: nvme_create_io_queues_def split: bind_splits)

lemma nvme_setup_io_queues_shape:
  assumes "nvme_setup_io_queues env v = Some (r, v')" "0 < count"
    "set_queue_count (io_task env) (of_nat (io_cpus env)) (v_dev v) = Some (count, dev1)"
    "remap_bar env (min (io_cpus env) (nat count)) (v\<lparr>v_dev := dev1\<rparr>) = Some (Some nr, v2)"
    "io_vectors env (v2\<lparr>v_dev := kernel_log [FreeIrq (v_entry v2 0)] (v_dev v2)\<rparr>) = (vecs, v3)"
  shows "\<exists>d. v' = v3\<lparr>v_max_qid := of_nat vecs, v_dev := d\<rparr>"
  using assms
  by (auto simp: nvme_setup_io_queues_def Let_def dest!: nvme_create_io_queues_frame
      split: bind_splits if_splits prod.splits)

lemma nvme_setup_io_queues_view:
  assumes "nvme_setup_io_queues env v = Some (r, v')" "pci_view v = (Some bar, True, 1, False, msix)"
    "msix \<longrightarrow> v_irq v = 0" "0 < io_cpus env"
  shows "\<exists>bar' msi' msix'. pci_view v' = (bar', True, 1, msi', msix') \<and> \<not> (msi' \<and> msix')
    \<and> (bar' = None \<longrightarrow> r = - ENOMEM \<and> \<not> io_ioremap env 1)
    \<and> v_thread v' = v_thread v \<and> v_others v' = v_others v"
proof -
  from assms(1) obtain result dev1 where d: "set_queue_count (io_task env) (of_nat (io_cpus env)) (v_dev v)
      = Some (result, dev1)" by (auto simp: nvme_setup_io_queues_def split: bind_splits)
  let ?v1 = "v\<lparr>v_dev := dev1\<rparr>"
  show ?thesis
  proof (cases "result \<le> 0")
    case True
    with assms d show ?thesis by (auto simp: nvme_setup_io_queues_def pci_view_def)
  next
    case False
    with assms(1) d obtain mapped v2 where m: "remap_bar env (min (io_cpus env) (nat result)) ?v1 = Some (mapped, v2)"
      by (auto simp: nvme_setup_io_queues_def split: bind_splits)
    have "pci_view ?v1 = (Some bar, True, 1, False, msix)" using assms(2) by (simp add: pci_view_def)
    from remap_bar_view [OF m this] obtain bar' where b: "pci_view v2 = (bar', True, 1, False, msix)"
        "bar' = None \<longleftrightarrow> mapped = None" "mapped = None \<longrightarrow> \<not> io_ioremap env 1"
        "v_irq v2 = v_irq v" "v_thread v2 = v_thread v" "v_others v2 = v_others v"
      using False assms(4) by auto
    show ?thesis
    proof (cases mapped)
      case None
      with assms(1) d False m b show ?thesis by (auto simp: nvme_setup_io_queues_def)
    next
      case (Some nr)
      let ?v2 = "v2\<lparr>v_dev := kernel_log [FreeIrq (v_entry v2 0)] (v_dev v2)\<rparr>"
      obtain vecs v3 where vec: "io_vectors env ?v2 = (vecs, v3)" by fastforce
      have "pci_view ?v2 = (bar', True, 1, False, msix)" "msix \<longrightarrow> v_irq ?v2 = 0"
        using b(1,4) assms(3) by (simp_all add: pci_view_def)
      from io_vectors_view [OF vec this] obtain msi' msix' where "pci_view v3 = (bar', True, 1, msi', msix')"
          "\<not> (msi' \<and> msix')" "v_thread v3 = v_thread v" "v_others v3 = v_others v" using b(5,6) by auto
      moreover have "\<exists>d. v' = v3\<lparr>v_max_qid := of_nat vecs, v_dev := d\<rparr>"
        using nvme_setup_io_queues_shape [OF assms(1) _ d, of nr v2 vecs v3] False m Some vec by simp
      ultimately show ?thesis using b(2) Some by auto
    qed
  qed
qed

definition start_undone :: "start_env \<Rightarrow> int \<Rightarrow> nvme_device \<Rightarrow> bool" where
  "start_undone env r v \<longleftrightarrow> (v_bar v, v_enable_cnt v, v_msi v, v_msix v) = (None, 0, False, False)
     \<and> \<not> d_on_list (v_dev v) \<and> (\<not> v_others v \<longrightarrow> v_thread v \<noteq> ThreadRunning)
     \<and> (v_regions v \<longrightarrow> r = - ENOMEM \<and> \<not> io_ioremap (se_io env) 1)"

lemma dev_start_disable_undone:
  assumes "dev_start_disable env e v = Some (r, v')" "pci_view v = (bar, True, 1, msi, msix)" "\<not> (msi \<and> msix)"
    "bar = None \<longrightarrow> e = - ENOMEM \<and> \<not> io_ioremap (se_io env) 1"
  shows "start_undone env r v' \<and> r = e"
proof -
  from assms(1) obtain dev where d: "r = e" "v' = nvme_dev_unmap (nvme_dev_list_remove (v\<lparr>v_dev := dev\<rparr>))"
    by (auto simp: dev_start_disable_def split: bind_splits)
  let ?w = "nvme_dev_list_remove (v\<lparr>v_dev := dev\<rparr>)"
  have "pci_view ?w = (bar, True, 1, msi, msix)" using assms(2) by simp
  from nvme_dev_unmap_view [OF this assms(3)]
  have "v_bar v' = None" "v_regions v' = (bar = None)" "v_enable_cnt v' = 0" "\<not> v_msi v'" "\<not> v_msix v'"
    by (simp_all add: d(2) pci_view_def)
  moreover have "v_others v' = v_others v" by (simp add: d(2) nvme_dev_list_remove_def dev_log_def Let_def)
  ultimately show ?thesis using assms(4) d(1)
    by (auto simp: start_undone_def d(2))
qed

lemma dev_list_add_frame [simp]:
  "pci_view (dev_list_add env v) = pci_view v" "v_irq (dev_list_add env v) = v_irq v"
  by (simp_all add: dev_list_add_def Let_def dev_log_def pci_view_def)

lemma dev_start_queues_undone:
  assumes "dev_start_queues env v = Some (r, v')" "r \<noteq> 0" "pci_view v = (Some 8192, True, 1, False, msix)"
    "msix \<longrightarrow> v_irq v = 0" "0 < io_cpus (se_io env)"
  shows "start_undone env r v'"
proof -
  from assms(1) obtain dev1 where i: "nvme_init_queue 0 0 (v_dev v) = Some dev1"
    by (auto simp: dev_start_queues_def split: bind_splits)
  obtain r2 dev2 where t: "nvme_alloc_admin_tags (se_tags env) (se_initq env) (se_getq env) (se_dying env) dev1
      = (r2, dev2)" by fastforce
  have view: "pci_view (v\<lparr>v_dev := dev2\<rparr>) = (Some 8192, True, 1, False, msix)"
      "msix \<longrightarrow> v_irq (v\<lparr>v_dev := dev2\<rparr>) = 0" using assms(3,4) by simp_all
  show ?thesis
  proof (cases "r2 = 0")
    case False
    with assms(1) i t dev_start_disable_undone [OF _ view(1)] show ?thesis by (simp add: dev_start_queues_def)
  next
    case True
    with assms(1) i t obtain r3 v3 where io: "nvme_setup_io_queues (se_io env) (v\<lparr>v_dev := dev2\<rparr>) = Some (r3, v3)"
      by (auto simp: dev_start_queues_def split: bind_splits)
    from nvme_setup_io_queues_view [OF io view assms(5)] obtain bar' msi' msix' where
        "pci_view v3 = (bar', True, 1, msi', msix')" "\<not> (msi' \<and> msix')"
        "bar' = None \<longrightarrow> r3 = - ENOMEM \<and> \<not> io_ioremap (se_io env) 1" by blast
    with assms(1,2) i t True io
      dev_start_disable_undone [of env r3 "v3\<lparr>v_dev := nvme_dev_remove_admin (se_dying env) (v_dev v3)\<rparr>" r v']
    show ?thesis by (auto simp: dev_start_queues_def split: if_splits bind_splits)
  qed
qed

text \<open>
  C21: a start that fails is undone. When \<open>nvme_dev_start\<close> returns an error, at whatever point it
  failed, the BAR is unmapped, the device disabled, MSI and MSI-X are off, the device is not on the
  device list, and the polling thread is stopped unless another device needs it. The PCI regions
  are released too, except when re-mapping the BAR for more doorbells failed down to one
  queue: then \<open>dev->bar\<close> is NULL and \<open>nvme_dev_unmap\<close> skips the release.
\<close>

theorem nvme_dev_start_undone:
  assumes "nvme_dev_start env v = Some (r, v')" "r \<noteq> 0" "pci_idle v" "\<not> d_on_list (v_dev v)"
    "\<not> v_others v \<longrightarrow> v_thread v \<noteq> ThreadRunning" "0 < io_cpus (se_io env)"
  shows "start_undone env r v'"
proof -
  obtain r1 v1 where m: "nvme_dev_map (se_pci env) v = (r1, v1)" by fastforce
  note map = nvme_dev_map_view [OF m assms(3)]
  show ?thesis
  proof (cases "r1 = 0")
    case False
    with assms(1) m have "r = r1" "v' = v1" by (simp_all add: nvme_dev_start_def)
    with map False assms(4,5) show ?thesis by (simp add: start_undone_def pci_view_def)
  next
    case True
    with map(2) obtain msix where view: "pci_view v1 = (Some 8192, True, 1, False, msix)" "msix \<longrightarrow> v_irq v1 = 0" by blast
    from assms(1) m True obtain r2 dev2 where c: "nvme_configure_admin_queue (se_polls1 env) (se_polls2 env)
        (se_mem env) (se_threaded env) (v_entry v1) (se_irq env) (pe_cap (se_pci env)) (v_dev v1) = Some (r2, dev2)"
      by (auto simp: nvme_dev_start_def split: bind_splits)
    show ?thesis
    proof (cases "r2 = 0")
      case False
      with assms(1) m True c have "r = r2" "v' = nvme_dev_unmap (v1\<lparr>v_dev := dev2\<rparr>)"
        by (simp_all add: nvme_dev_start_def)
      moreover have "pci_view (nvme_dev_unmap (v1\<lparr>v_dev := dev2\<rparr>)) = (None, False, 0, False, False)"
        using nvme_dev_unmap_view [of "v1\<lparr>v_dev := dev2\<rparr>" "Some 8192" False msix] view(1) by simp
      ultimately show ?thesis using map(3-5) assms(4,5) nvme_configure_admin_queue_on_list [OF c]
        by (simp add: start_undone_def pci_view_def)
    next
      case r2: True
      define v3 where "v3 = dev_list_add env (v1\<lparr>v_dev := dev2\<rparr>)"
      have view3: "pci_view v3 = (Some 8192, True, 1, False, msix)" "msix \<longrightarrow> v_irq v3 = 0"
        using view by (simp_all add: v3_def)
      have start: "(case thread_error (v_thread v3) of Some e \<Rightarrow> dev_start_disable env e v3
          | None \<Rightarrow> dev_start_queues env v3) = Some (r, v')"
        using assms(1) m True c r2 unfolding nvme_dev_start_def v3_def by (simp add: Let_def)
      show ?thesis
      proof (cases "thread_error (v_thread v3)")
        case (Some e)
        with start dev_start_disable_undone [OF _ view3(1)] show ?thesis by simp
      next
        case None
        with start dev_start_queues_undone [OF _ assms(2) view3 assms(6)] show ?thesis by simp
      qed
    qed
  qed
qed

definition sample_device :: nvme_device where
  "sample_device = \<lparr>v_dev = sample_dev\<lparr>d_page_size := 0, d_on_list := False\<rparr>, v_bar = None, v_max_qid = 0, v_q_depth = 0,
     v_entry = (\<lambda>_. 0), v_instance = 0, v_oncs = 0, v_vwc = 0, v_serial = [], v_model = [], v_firmware_rev = [],
     v_max_hw_sectors = 0, v_stripe_size = 0, v_tagset = None, v_namespaces = [],
     v_reset_workfn = nvme_reset_failed_dev_fn, v_kref = 1, v_irq = 61, v_pin_irq = 61, v_enable_cnt = 0,
     v_regions = False, v_msi = False, v_msix = False, v_others = False, v_thread = ThreadNull, v_log = []\<rparr>"

definition sample_io_env :: io_env where
  "sample_io_env = \<lparr>io_cpus = 2, io_task = sample_env (sample_cqe 2 0), io_ioremap = (\<lambda>_. True), io_msix = -1,
     io_msix_vector = (\<lambda>i. i), io_msi = -1, io_msi_irq = 0, io_threaded = False, io_irq = 0,
     io_mem = (\<lambda>_. sample_mem), io_create = (\<lambda>_. (sample_env (sample_cqe 2 0), 0))\<rparr>"

definition sample_start_env :: start_env where
  "sample_start_env = \<lparr>se_pci = \<lparr>pe_enable = 0, pe_bars = 1, pe_regions = 0, pe_mask64 = 0, pe_mask32 = 0,
       pe_ioremap = True, pe_csts = 0, pe_msix = 0, pe_msix_vector = 0, pe_cap = 0\<rparr>,
     se_polls1 = (\<lambda>_. \<lparr>poll_csts = 1, poll_signal = True, poll_jiffies = 0\<rparr>), se_polls2 = good_polls 0 1, se_mem = sample_mem, se_threaded = False,
     se_irq = 0, se_run = ThreadRunning, se_wait = ThreadNull, se_tags = True, se_initq = True, se_getq = True,
     se_dying = False, se_io = sample_io_env, se_task = sample_env (sample_cqe 2 0), se_csts = 0\<rparr>"

text \<open>The task gets a signal while it waits for the controller to be disabled.\<close>

theorem nvme_dev_start_undone_witness:
  "\<exists>v'. nvme_dev_start sample_start_env sample_device = Some (- EINTR, v') \<and> start_undone sample_start_env (- EINTR) v'"
proof -
  let ?dev = "sample_dev\<lparr>d_page_size := 0, d_on_list := False, d_db_stride := 1\<rparr>"
  obtain v1 where map: "nvme_dev_map (se_pci sample_start_env) sample_device = (0, v1)" and dev: "v_dev v1 = ?dev"
    by (simp add: nvme_dev_map_def dev_map_registers_def sample_start_env_def sample_device_def Let_def
        cap_stride_def cap_mqes_def)
  have conf: "\<exists>dev2. nvme_configure_admin_queue (se_polls1 sample_start_env) p m t e i (pe_cap (se_pci sample_start_env))
      (v_dev v1) = Some (- EINTR, dev2)" for p m t e i
    by (simp add: nvme_configure_admin_queue_def admin_page_shift_def cap_mpsmin_def cap_mpsmax_def
        nvme_disable_ctrl_def nvme_wait_ready_def poll_fuel_def sample_start_env_def Let_def eval_nat_numeral)
  from conf [of "se_polls2 sample_start_env" "se_mem sample_start_env" "se_threaded sample_start_env" "v_entry v1"
      "se_irq sample_start_env"] obtain v' where start: "nvme_dev_start sample_start_env sample_device = Some (- EINTR, v')"
    by (auto simp: nvme_dev_start_def map)
  have "start_undone sample_start_env (- EINTR) v'"
    by (rule nvme_dev_start_undone [OF start])
      (simp_all add: sample_device_def pci_view_def sample_start_env_def sample_io_env_def)
  with start show ?thesis by blast
qed

section \<open>The doorbells\<close>

lemma unat_stride: "k \<le> 15 \<Longrightarrow> unat ((2 :: u32) ^ k) = 2 ^ k"
  using unat_push_bit_le [of "1 :: u32" k] power_increasing [of k 15 "2::nat"] by simp

lemma unat_times_stride:
  assumes "unat (n :: u32) \<le> 4097" "k \<le> 15"
  shows "unat (n * 8 * 2 ^ k) = unat n * 8 * 2 ^ k" "unat n * 8 * 2 ^ k \<le> 4097 * 8 * 2 ^ 15"
proof -
  have p: "(2::nat) ^ k \<le> 2 ^ 15" using assms(2) by (intro power_increasing) auto
  have n8: "unat (n * 8) = unat n * 8" using assms(1) by (subst unat_word_ariths(2)) simp
  show "unat n * 8 * 2 ^ k \<le> 4097 * 8 * 2 ^ 15" using assms(1) p by (intro mult_mono) auto
  then show "unat (n * 8 * 2 ^ k) = unat n * 8 * 2 ^ k"
    by (subst unat_word_ariths(2)) (simp add: unat_stride [OF assms(2)] n8)
qed

lemma sint_eq_unat:
  assumes "unat (w :: u32) < 2 ^ 31"
  shows "sint w = int (unat w)"
proof -
  have "unat w < 2147483648" using assms by simp
  then have "int (unat w) < 2147483648" by linarith
  moreover have "- (2 ^ 31) \<le> int (unat w)" by (rule order_trans [OF _ of_nat_0_le_iff]) simp
  ultimately have "sint (of_int (int (unat w)) :: u32) = int (unat w)" by (intro sint_small) simp_all
  then show ?thesis by simp
qed

lemma db_bar_size_eq:
  assumes "nr \<le> 4096" "d_db_stride dev = 2 ^ k" "k \<le> 15"
  shows "unat (db_bar_size dev nr) = 4096 + (nr + 1) * 8 * 2 ^ k"
    "sint (db_bar_size dev nr) = int (unat (db_bar_size dev nr))"
proof -
  have "unat (of_nat (Suc nr) :: u32) = Suc nr" using assms(1) by (simp only: unat_of_nat) simp
  then have n: "unat (of_nat nr + 1 :: u32) = nr + 1" by (simp add: add.commute)
  note s = unat_times_stride [of "of_nat nr + 1", unfolded n, OF _ assms(3)]
  show u: "unat (db_bar_size dev nr) = 4096 + (nr + 1) * 8 * 2 ^ k"
    unfolding db_bar_size_def assms(2) using s assms(1) by (subst unat_word_ariths(1)) simp
  show "sint (db_bar_size dev nr) = int (unat (db_bar_size dev nr))"
    by (rule sint_eq_unat) (use u s assms(1) in simp)
qed

lemma db_index_eq:
  assumes "unat qid \<le> 4096" "d_db_stride dev = 2 ^ k" "k \<le> 15"
  shows "unat (db_index dev qid) = unat qid * 2 * 2 ^ k"
proof -
  have "unat (qid * 2) = unat qid * 2" using assms(1) by (subst unat_word_ariths(2)) simp
  moreover have "unat qid * 2 * 2 ^ k \<le> unat qid * 8 * 2 ^ k" by (intro mult_mono) auto
  ultimately show ?thesis using unat_times_stride [of qid k] assms
    by (simp add: db_index_def) (subst unat_word_ariths(2), simp add: unat_stride)
qed

lemma remap_loop_Some: "remap_loop ok n = Some m \<Longrightarrow> 0 < m \<and> m \<le> n"
  by (induction n) (auto split: if_splits)

lemma remap_bar_covers:
  assumes "remap_bar env N v = Some (Some nr, v2)" "v_bar v = Some 8192" "0 < N" "N \<le> 4096"
    "d_db_stride (v_dev v) = 2 ^ k" "k \<le> 15"
  shows "0 < nr \<and> nr \<le> 4096 \<and> (\<exists>bar. v_bar v2 = Some bar \<and> 4096 + (nr + 1) * 8 * 2 ^ k \<le> unat bar)"
proof (cases "sint (db_bar_size (v_dev v) N) > 8192")
  case True
  with assms(1) obtain q where "remap_loop (io_ioremap env) N = Some nr" "v_bar v2 = Some (db_bar_size (v_dev v) nr)"
    by (auto simp: remap_bar_def split: option.splits bind_splits)
  with remap_loop_Some [of "io_ioremap env" N nr] db_bar_size_eq [of nr "v_dev v" k] assms(4-6) show ?thesis by auto
next
  case False
  with assms(1) have "nr = N" "v2 = v" by (auto simp: remap_bar_def)
  moreover have "unat (db_bar_size (v_dev v) N) \<le> 8192" using False db_bar_size_eq(2) [OF assms(4-6)] by linarith
  ultimately show ?thesis using db_bar_size_eq(1) [OF assms(4-6)] assms(2-4) by auto
qed

text \<open>
  C24: every doorbell is inside the mapped registers. When \<open>nvme_setup_io_queues\<close> has set the number of
  queues, the mapped part of BAR 0 reaches over the submission and the completion doorbell of
  every queue up to \<open>max_qid\<close>, for any stride the controller asks for: with the controller's
  queue count and the registers mapped for \<open>nr\<close> queues, the interrupt functions grant at most
  \<open>nr\<close> vectors.
\<close>

theorem doorbells_mapped:
  assumes "nvme_setup_io_queues env v = Some (r, v')" "v_bar v = Some 8192" "0 < count"
    "set_queue_count (io_task env) (of_nat (io_cpus env)) (v_dev v) = Some (count, dev1)"
    "remap_bar env (min (io_cpus env) (nat count)) (v\<lparr>v_dev := dev1\<rparr>) = Some (Some nr, v2)"
    "io_msix env \<le> int nr" "io_msi env \<le> int nr"
    "d_db_stride dev1 = 2 ^ k" "k \<le> 15" "0 < io_cpus env" "io_cpus env \<le> 4096"
  shows "\<exists>bar. v_bar v' = Some bar \<and>
    (\<forall>qid. qid \<le> v_max_qid v' \<longrightarrow> 4096 + 4 * (unat (db_index dev1 qid) + 2 ^ k) + 4 \<le> unat bar)"
proof -
  let ?v2 = "v2\<lparr>v_dev := kernel_log [FreeIrq (v_entry v2 0)] (v_dev v2)\<rparr>"
  have "0 < nr \<and> nr \<le> 4096 \<and> (\<exists>bar. v_bar v2 = Some bar \<and> 4096 + (nr + 1) * 8 * 2 ^ k \<le> unat bar)"
    by (rule remap_bar_covers [OF assms(5)]) (use assms(2,3,8-11) in auto)
  then obtain bar where nr: "0 < nr" "nr \<le> 4096" and bar: "v_bar v2 = Some bar" "4096 + (nr + 1) * 8 * 2 ^ k \<le> unat bar"
    by blast
  obtain vecs v3 where vec: "io_vectors env ?v2 = (vecs, v3)" by fastforce
  then have v3: "v_bar v3 = Some bar" "vecs \<le> nr"
    using bar(1) assms(6,7) nr(1) by (auto simp: io_vectors_def Let_def split: if_splits)
  obtain d where v': "v' = v3\<lparr>v_max_qid := of_nat vecs, v_dev := d\<rparr>"
    using nvme_setup_io_queues_shape [OF assms(1,3,4,5) vec] by blast
  have "unat (of_nat vecs :: u32) = vecs" using v3(2) nr(2) by (simp only: unat_of_nat) simp
  then have max: "unat (v_max_qid v') = vecs" by (simp add: v')
  have "4096 + 4 * (unat (db_index dev1 qid) + 2 ^ k) + 4 \<le> unat bar" if "qid \<le> v_max_qid v'" for qid
  proof -
    from that max v3(2) have q: "unat qid \<le> nr" by (simp add: word_le_nat_alt)
    then have "unat (db_index dev1 qid) = 2 * (unat qid * 2 ^ k)"
      using nr(2) db_index_eq [of qid dev1 k] assms(8,9) by simp
    moreover have "4096 + 8 * (nr * 2 ^ k) + 8 * 2 ^ k \<le> unat bar" using bar(2) by (simp add: algebra_simps)
    moreover have "4096 + 4 * (2 * a + p) + 4 \<le> m" if "4096 + 8 * b + 8 * p \<le> m" "a \<le> b" "1 \<le> p" for a b p m :: nat
      using that by simp
    note this [of "nr * 2 ^ k" "2 ^ k" "unat bar" "unat qid * 2 ^ k"]
    ultimately show ?thesis using q by simp
  qed
  then show ?thesis using v3(1) v' by auto
qed

text \<open>A controller that grants two queues and has a stride of 2048 words, on a machine with two processors.\<close>

definition queue_count_cqe :: nvme_completion where
  "queue_count_cqe = (sample_cqe 2 0)\<lparr>cqe_result := 0x10001\<rparr>"

definition wide_device :: nvme_device where
  "wide_device = sample_device\<lparr>v_dev := sample_admin_dev\<lparr>d_db_stride := 2048\<rparr>, v_bar := Some 8192\<rparr>"

lemma wide_queue_count:
  "\<exists>dev1. set_queue_count (sample_env queue_count_cqe) 2 (sample_admin_dev\<lparr>d_db_stride := 2048\<rparr>) = Some (2, dev1)
     \<and> d_db_stride dev1 = 2048 \<and> (\<exists>q. get_queue dev1 0 = Some q) \<and> (\<exists>q. get_queue dev1 1 = Some q)
     \<and> d_queue_count dev1 = 2"
  by (simp add: set_queue_count_def nvme_set_features_def nvme_submit_admin_cmd_def submit_admin_cmd_timeout_def
      sample_env_def nvme_submit_sync_cmd_def sample_admin_dev_def sample_admin_req_def nvme_set_info_def
      nvme_submit_cmd_def submit_cmd_locked_def get_queue_def sample_admin_queue_def sample_queue_def
      sq_push_def Let_def put_request_def put_queue_def kernel_log_def sample_dev_def cq_consume_def
      sample_cqe_def queue_count_cqe_def nvme_finish_cmd_def get_cmd_from_tag_def sync_completion_def cqe_code_def)

definition wide_env :: io_env where
  "wide_env = sample_io_env\<lparr>io_task := sample_env queue_count_cqe, io_irq := 16\<rparr>"

theorem doorbells_mapped_witness:
  "\<exists>r v' bar dev1. nvme_setup_io_queues wide_env wide_device = Some (r, v') \<and> v_bar v' = Some bar
    \<and> 1 \<le> v_max_qid v' \<and> 4096 + 4 * (unat (db_index dev1 1) + 2048) + 4 \<le> unat bar"
proof -
  obtain dev1 q q1 where c: "set_queue_count (sample_env queue_count_cqe) 2 (sample_admin_dev\<lparr>d_db_stride := 2048\<rparr>)
      = Some (2, dev1)" "d_db_stride dev1 = 2048" "get_queue dev1 0 = Some q" "get_queue dev1 1 = Some q1"
      "d_queue_count dev1 = 2"
    using wide_queue_count by blast
  have c': "set_queue_count (io_task wide_env) (of_nat (io_cpus wide_env)) (v_dev wide_device) = Some (2, dev1)"
    using c(1) by (simp add: wide_env_def wide_device_def sample_io_env_def)
  define v2 where "v2 = wide_device\<lparr>v_bar := Some (db_bar_size dev1 2), v_dev := put_queue 0 (q\<lparr>q_db := 0\<rparr>) dev1\<rparr>"
  have m: "remap_bar wide_env (min (io_cpus wide_env) (nat 2)) (wide_device\<lparr>v_dev := dev1\<rparr>) = Some (Some 2, v2)"
    using c(2,3) by (simp add: remap_bar_def db_bar_size_def wide_env_def sample_io_env_def eval_nat_numeral v2_def)
  have "\<exists>r v'. nvme_setup_io_queues wide_env wide_device = Some (r, v') \<and> v_max_qid v' = 1"
    using c c' m
    by (simp add: nvme_setup_io_queues_def io_vectors_def wide_env_def sample_io_env_def Let_def queue_request_irq_def
        nvme_free_queues_def v2_def wide_device_def sample_device_def kernel_log_def put_queue_def get_queue_def
        split: if_splits)
  then obtain r v' where s: "nvme_setup_io_queues wide_env wide_device = Some (r, v')" "v_max_qid v' = 1" by blast
  have "\<exists>bar. v_bar v' = Some bar \<and>
    (\<forall>qid. qid \<le> v_max_qid v' \<longrightarrow> 4096 + 4 * (unat (db_index dev1 qid) + 2 ^ 11) + 4 \<le> unat bar)"
    by (rule doorbells_mapped [OF s(1) _ _ c' m])
      (simp_all add: c(2) wide_device_def wide_env_def sample_io_env_def)
  with s show ?thesis by fastforce
qed

end
