(* ===== verification/Nvme_Delq.thy ===== *)
theory Nvme_Delq
  imports Nvme_Ctrl
begin

text \<open>
  Deleting the I/O queues at shutdown (src/nvme-core.c, \<open>struct nvme_delq_ctx\<close> to
  \<open>nvme_disable_io_queues\<close>). One work item per queue sends the delete commands one after the other
  and asynchronously; a reference count tells the waiting task when all of them have ended.

  The command information of queue i (\<open>nvmeq->cmdinfo\<close>) has the key i; its work function and the
  list of the worker thread are kept in the context. The theorem shows that the reference count
  is exactly the number of work items and commands still to come, through every interleaving of
  the worker with the completions of the admin queue.
\<close>

datatype delq_fn = nvme_del_queue_start_fn | nvme_del_sq_work_fn | nvme_del_cq_work_fn

record nvme_delq_ctx =
  dq_waiter :: "nat option"
  dq_refcount :: int
  dq_work :: "nat \<Rightarrow> delq_fn"
  dq_queue :: "nat list"

abbreviation ADMIN_TIMEOUT :: u32 where "ADMIN_TIMEOUT \<equiv> 6000"

section \<open>The work items\<close>

definition nvme_put_dq :: "nvme_delq_ctx \<Rightarrow> nvme_dev \<Rightarrow> nvme_delq_ctx \<times> nvme_dev" where
  "nvme_put_dq dq dev =
     (dq\<lparr>dq_refcount := dq_refcount dq - 1\<rparr>,
      case dq_waiter dq of None \<Rightarrow> dev | Some t \<Rightarrow> kernel_log [WakeUpProcess t] dev)"

definition nvme_get_dq :: "nvme_delq_ctx \<Rightarrow> nvme_delq_ctx" where
  "nvme_get_dq dq = dq\<lparr>dq_refcount := dq_refcount dq + 1\<rparr>"

definition nvme_del_queue_end :: "nvme_delq_ctx \<Rightarrow> nvme_dev \<Rightarrow> nvme_delq_ctx \<times> nvme_dev" where
  "nvme_del_queue_end dq dev = nvme_put_dq dq dev"

definition adapter_async_del_queue ::
  "task_env \<Rightarrow> nat \<Rightarrow> u8 \<Rightarrow> delq_fn \<Rightarrow> nvme_delq_ctx \<Rightarrow> nvme_dev
     \<Rightarrow> (int \<times> nvme_delq_ctx \<times> nvme_dev) option" where
  "adapter_async_del_queue env i opcode fn dq dev =
     do { q \<leftarrow> get_queue dev i;
          (r, dev') \<leftarrow> nvme_submit_admin_async_cmd env (delete_queue_cmd opcode (q_qid q)) i ADMIN_TIMEOUT dev;
          Some (r, dq\<lparr>dq_work := (dq_work dq)(i := fn)\<rparr>, dev') }"

definition nvme_del_cq_work_handler ::
  "nat \<Rightarrow> nvme_delq_ctx \<Rightarrow> nvme_dev \<Rightarrow> (nvme_delq_ctx \<times> nvme_dev) option" where
  "nvme_del_cq_work_handler i dq dev = Some (nvme_del_queue_end dq dev)"

definition nvme_delete_cq ::
  "task_env \<Rightarrow> nat \<Rightarrow> nvme_delq_ctx \<Rightarrow> nvme_dev \<Rightarrow> (int \<times> nvme_delq_ctx \<times> nvme_dev) option" where
  "nvme_delete_cq env i = adapter_async_del_queue env i nvme_admin_delete_cq nvme_del_cq_work_fn"

definition nvme_del_sq_work_handler ::
  "task_env \<Rightarrow> nat \<Rightarrow> nvme_delq_ctx \<Rightarrow> nvme_dev \<Rightarrow> (nvme_delq_ctx \<times> nvme_dev) option" where
  "nvme_del_sq_work_handler env i dq dev =
     do { info \<leftarrow> d_async dev i;
          (status, dq1, dev1) \<leftarrow> (if async_status info = 0 then nvme_delete_cq env i dq dev
                                   else Some (async_status info, dq, dev));
          Some (if status \<noteq> 0 then nvme_del_queue_end dq1 dev1 else (dq1, dev1)) }"

definition nvme_delete_sq ::
  "task_env \<Rightarrow> nat \<Rightarrow> nvme_delq_ctx \<Rightarrow> nvme_dev \<Rightarrow> (int \<times> nvme_delq_ctx \<times> nvme_dev) option" where
  "nvme_delete_sq env i = adapter_async_del_queue env i nvme_admin_delete_sq nvme_del_sq_work_fn"

definition nvme_del_queue_start ::
  "task_env \<Rightarrow> nat \<Rightarrow> nvme_delq_ctx \<Rightarrow> nvme_dev \<Rightarrow> (nvme_delq_ctx \<times> nvme_dev) option" where
  "nvme_del_queue_start env i dq dev =
     do { (status, dq1, dev1) \<leftarrow> nvme_delete_sq env i dq dev;
          Some (if status \<noteq> 0 then nvme_del_queue_end dq1 dev1 else (dq1, dev1)) }"

fun run_delq_work ::
  "delq_fn \<Rightarrow> task_env \<Rightarrow> nat \<Rightarrow> nvme_delq_ctx \<Rightarrow> nvme_dev \<Rightarrow> (nvme_delq_ctx \<times> nvme_dev) option" where
  "run_delq_work nvme_del_queue_start_fn env = nvme_del_queue_start env"
| "run_delq_work nvme_del_sq_work_fn env = nvme_del_sq_work_handler env"
| "run_delq_work nvme_del_cq_work_fn env = nvme_del_cq_work_handler"

section \<open>Waiting\<close>

text \<open>
  What the waiting task sees: its identity; what happens in each sleep, with the flag that the
  sleep timed out or a fatal signal is pending; and for the exit after a time-out the
  controller's registers, the entry and the busy requests of the admin queue, and the run of the
  worker that flush_kthread_worker waits for. A list of sleeps that ends while the count is
  positive is None.
\<close>

record delq_env =
  de_worker :: bool
  de_current :: nat
  de_task :: task_env
  de_sleeps :: "((nvme_delq_ctx \<times> nvme_dev \<Rightarrow> nvme_delq_ctx \<times> nvme_dev) \<times> bool) list"
  de_polls :: "nat \<Rightarrow> poll"
  de_cap :: u64
  de_raw :: nvme_completion
  de_busy :: "nat \<Rightarrow> rq_ptr list option"
  de_flush :: "nvme_delq_ctx \<times> nvme_dev \<Rightarrow> nvme_delq_ctx \<times> nvme_dev"
  de_entry :: "int \<Rightarrow> int"
  de_csts :: u32

definition wait_dq_expired ::
  "delq_env \<Rightarrow> nvme_delq_ctx \<Rightarrow> nvme_dev \<Rightarrow> (nvme_delq_ctx \<times> nvme_dev) option" where
  "wait_dq_expired env dq dev =
     do { (_, dev1) \<leftarrow> nvme_disable_ctrl (de_polls env) (de_cap env) dev;
          dev2 \<leftarrow> nvme_clear_queue (de_raw env) (de_busy env) 0 dev1;
          let (dq3, dev3) = de_flush env (dq, dev2);
          dev4 \<leftarrow> nvme_disable_queue (de_task env) (de_entry env) (de_csts env) 0 dev3;
          Some (dq3, dev4) }"

fun wait_dq_loop ::
  "delq_env \<Rightarrow> ((nvme_delq_ctx \<times> nvme_dev \<Rightarrow> nvme_delq_ctx \<times> nvme_dev) \<times> bool) list
     \<Rightarrow> nvme_delq_ctx \<Rightarrow> nvme_dev \<Rightarrow> (nvme_delq_ctx \<times> nvme_dev) option" where
  "wait_dq_loop env [] dq dev = (if dq_refcount dq = 0 then Some (dq, dev) else None)"
| "wait_dq_loop env ((sleep, expired) # ss) dq dev =
     (if dq_refcount dq = 0 then Some (dq, dev)
      else case sleep (dq, dev) of
             (dq', dev') \<Rightarrow> if expired then wait_dq_expired env dq' dev' else wait_dq_loop env ss dq' dev')"

definition nvme_wait_dq ::
  "delq_env \<Rightarrow> nvme_delq_ctx \<Rightarrow> nvme_dev \<Rightarrow> (nvme_delq_ctx \<times> nvme_dev) option" where
  "nvme_wait_dq env dq dev = wait_dq_loop env (de_sleeps env) (dq\<lparr>dq_waiter := Some (de_current env)\<rparr>) dev"

text \<open>The loops \<open>for (i = dev->queue_count - 1; i > 0; i--)\<close>: the indices are the list.\<close>

definition io_queue_indices :: "nvme_dev \<Rightarrow> nat list" where
  "io_queue_indices dev = rev [1..<unat (d_queue_count dev)]"

fun disable_queue_loop :: "delq_env \<Rightarrow> nat list \<Rightarrow> nvme_dev \<Rightarrow> nvme_dev option" where
  "disable_queue_loop env [] dev = Some dev"
| "disable_queue_loop env (i # is) dev =
     do { dev' \<leftarrow> nvme_disable_queue (de_task env) (de_entry env) (de_csts env) i dev;
          disable_queue_loop env is dev' }"

fun delq_start_loop ::
  "(int \<Rightarrow> int) \<Rightarrow> nat list \<Rightarrow> nvme_delq_ctx \<Rightarrow> nvme_dev \<Rightarrow> (nvme_delq_ctx \<times> nvme_dev) option" where
  "delq_start_loop entry [] dq dev = Some (dq, dev)"
| "delq_start_loop entry (i # is) dq dev =
     do { (suspended, dev') \<leftarrow> nvme_suspend_queue entry i dev;
          if suspended \<noteq> 0 then delq_start_loop entry is dq dev'
          else let dq' = nvme_get_dq dq
            in delq_start_loop entry is
                 (dq'\<lparr>dq_work := (dq_work dq')(i := nvme_del_queue_start_fn), dq_queue := dq_queue dq' @ [i]\<rparr>) dev' }"

definition empty_delq :: nvme_delq_ctx where
  "empty_delq = \<lparr>dq_waiter = None, dq_refcount = 0, dq_work = (\<lambda>_. nvme_del_queue_start_fn), dq_queue = []\<rparr>"

definition nvme_disable_io_queues :: "delq_env \<Rightarrow> nvme_dev \<Rightarrow> nvme_dev option" where
  "nvme_disable_io_queues env dev =
     (if \<not> de_worker env then disable_queue_loop env (io_queue_indices dev) dev
      else do { (dq, dev1) \<leftarrow> delq_start_loop (de_entry env) (io_queue_indices dev) empty_delq dev;
                (_, dev2) \<leftarrow> nvme_wait_dq env dq dev1;
                Some dev2 })"

section \<open>The worker and the completions, interleaved\<close>

text \<open>The requests of asynchronous admin commands that have not completed.\<close>

definition async_rq :: "request \<Rightarrow> bool" where
  "async_rq req \<longleftrightarrow> ci_fn (rq_cmd req) = Some async_completion_fn
     \<and> (case ci_ctx (rq_cmd req) of CtxAsync _ \<Rightarrow> True | _ \<Rightarrow> False)"

definition async_rqs :: "nvme_dev \<Rightarrow> rq_ptr set" where
  "async_rqs dev = {r. \<exists>req. d_requests dev r = Some req \<and> async_rq req}"

text \<open>The work items that completion handlers queued since \<open>dev\<close>.\<close>

fun work_items :: "kevent list \<Rightarrow> nat list" where
  "work_items [] = []"
| "work_items (QueueKthreadWork a # evs) = a # work_items evs"
| "work_items (_ # evs) = work_items evs"

definition new_work :: "nvme_dev \<Rightarrow> nvme_dev \<Rightarrow> nat list" where
  "new_work dev dev' = work_items (drop (length (d_log dev)) (d_log dev'))"

text \<open>What blk_mq_alloc_request promises: a request that is not in use, or a negative error.\<close>

definition alloc_sane :: "task_env \<Rightarrow> nvme_dev \<Rightarrow> bool" where
  "alloc_sane env dev = (case t_alloc env dev of Inl e \<Rightarrow> e < 0 | Inr r \<Rightarrow> r \<notin> async_rqs dev)"

text \<open>
  A step is the worker running its first item, a completion of the admin queue, or the waiter registering itself.
\<close>

inductive delq_step :: "nvme_delq_ctx \<times> nvme_dev \<Rightarrow> nvme_delq_ctx \<times> nvme_dev \<Rightarrow> bool" where
  Work: "dq_queue dq = i # is \<Longrightarrow> alloc_sane env dev \<Longrightarrow>
    run_delq_work (dq_work dq i) env i (dq\<lparr>dq_queue := is\<rparr>) dev = Some (dq', dev') \<Longrightarrow>
    delq_step (dq, dev) (dq', dev')"
| Complete: "get_queue dev 0 = Some q \<Longrightarrow> q_qid q = 0 \<Longrightarrow> cq_consume 0 cqe dev = Some dev' \<Longrightarrow>
    delq_step (dq, dev) (dq\<lparr>dq_queue := dq_queue dq @ new_work dev dev'\<rparr>, dev')"
| Wait: "delq_step (dq, dev) (dq\<lparr>dq_waiter := Some t\<rparr>, dev)"

definition delq_inv :: "nvme_delq_ctx \<times> nvme_dev \<Rightarrow> bool" where
  "delq_inv s \<longleftrightarrow> (case s of (dq, dev) \<Rightarrow> finite (async_rqs dev)
     \<and> dq_refcount dq = int (length (dq_queue dq) + card (async_rqs dev)))"

lemma work_items_append [simp]: "work_items (a @ b) = work_items a @ work_items b"
  by (induction a rule: work_items.induct) auto

lemma async_rqs_cong: "d_requests dev' = d_requests dev \<Longrightarrow> async_rqs dev' = async_rqs dev"
  by (simp add: async_rqs_def)

lemma async_rqs_log [simp]: "async_rqs (kernel_log evs dev) = async_rqs dev"
  by (rule async_rqs_cong) simp

lemma async_rqs_put:
  "async_rqs (put_request r req dev) = (if async_rq req then insert r (async_rqs dev) else async_rqs dev - {r})"
  by (auto simp: async_rqs_def)

lemma async_submit:
  assumes "nvme_submit_admin_async_cmd env c a t dev = Some (st, dev')"
    "alloc_sane env dev"
  shows "(\<exists>r. st = 0 \<and> r \<notin> async_rqs dev \<and> async_rqs dev' = insert r (async_rqs dev))
    \<or> st \<noteq> 0 \<and> async_rqs dev' = async_rqs dev"
proof (cases "t_alloc env dev")
  case (Inl e)
  with assms show ?thesis by (auto simp: nvme_submit_admin_async_cmd_def alloc_sane_def)
next
  case (Inr r)
  with assms(1) obtain req info dev1 where d: "d_requests dev r = Some req" "d_async dev a = Some info"
      "nvme_set_info r (CtxAsync a) async_completion_fn (put_request r (req\<lparr>rq_timeout := t\<rparr>) dev) = Some dev1"
      "nvme_submit_cmd 0 (set_command_id (rq_tag req) c)
        (dev1\<lparr>d_async := (d_async dev)(a \<mapsto> info\<lparr>async_req := r, async_status := - EINTR\<rparr>)\<rparr>) = Some (st, dev')"
    by (auto simp: nvme_submit_admin_async_cmd_def Let_def split: bind_splits)
  from d(4) have "st = 0" "d_requests dev' = d_requests dev1"
    by (auto simp: nvme_submit_cmd_def submit_cmd_locked_def split: bind_splits)
  moreover from d(3) have "async_rqs dev1 = insert r (async_rqs dev)"
    by (auto simp: nvme_set_info_def async_rqs_put async_rq_def split: if_splits)
  ultimately show ?thesis using assms(2) Inr async_rqs_cong [of dev' dev1] by (auto simp: alloc_sane_def)
qed

lemma delq_inv_end:
  assumes "finite (async_rqs dev)" "dq_refcount dq = int (length (dq_queue dq) + card (async_rqs dev)) + 1"
  shows "delq_inv (nvme_del_queue_end dq dev)"
  using assms
  by (auto simp: delq_inv_def nvme_del_queue_end_def nvme_put_dq_def split: option.splits)

lemma delq_inv_submit:
  assumes "adapter_async_del_queue env i opcode fn dq dev = Some (st, dq1, dev1)"
    "alloc_sane env dev"
    "finite (async_rqs dev)" "dq_refcount dq = int (length (dq_queue dq) + card (async_rqs dev)) + 1"
  shows "delq_inv (if st \<noteq> 0 then nvme_del_queue_end dq1 dev1 else (dq1, dev1))"
proof -
  from assms(1) obtain c where c: "nvme_submit_admin_async_cmd env c i ADMIN_TIMEOUT dev = Some (st, dev1)"
      and dq1: "dq_refcount dq1 = dq_refcount dq" "dq_queue dq1 = dq_queue dq"
    by (auto simp: adapter_async_del_queue_def split: bind_splits)
  from async_submit [OF c assms(2)] show ?thesis
  proof (elim disjE exE conjE)
    fix r assume "st = 0" "r \<notin> async_rqs dev" "async_rqs dev1 = insert r (async_rqs dev)"
    then show ?thesis using assms(3,4) dq1 by (simp add: delq_inv_def)
  next
    assume "st \<noteq> 0" "async_rqs dev1 = async_rqs dev"
    then show ?thesis using assms(3,4) dq1 delq_inv_end [of dev1 dq1] by simp
  qed
qed

lemma delq_inv_work:
  assumes "run_delq_work fn env i dq dev = Some (dq', dev')"
    "alloc_sane env dev"
    "finite (async_rqs dev)" "dq_refcount dq = int (length (dq_queue dq) + card (async_rqs dev)) + 1"
  shows "delq_inv (dq', dev')"
proof (cases fn)
  case nvme_del_queue_start_fn
  with assms(1) delq_inv_submit [OF _ assms(2-4)] show ?thesis
    by (fastforce simp: nvme_del_queue_start_def nvme_delete_sq_def split: bind_splits)
next
  case nvme_del_sq_work_fn
  with assms(1) obtain info st dq1 dev1 where d: "d_async dev i = Some info"
      "(if async_status info = 0 then nvme_delete_cq env i dq dev else Some (async_status info, dq, dev))
         = Some (st, dq1, dev1)"
      "(dq', dev') = (if st \<noteq> 0 then nvme_del_queue_end dq1 dev1 else (dq1, dev1))"
    by (auto simp: nvme_del_sq_work_handler_def split: bind_splits)
  show ?thesis
  proof (cases "async_status info = 0")
    case True
    with d(2) delq_inv_submit [OF _ assms(2-4)] show ?thesis unfolding d(3) by (simp add: nvme_delete_cq_def)
  next
    case False
    with d(2) delq_inv_end [OF assms(3,4)] show ?thesis unfolding d(3) by auto
  qed
next
  case nvme_del_cq_work_fn
  with assms(1) delq_inv_end [OF assms(3,4)] show ?thesis by (simp add: nvme_del_cq_work_handler_def)
qed

lemma work_items_freed [simp]: "work_items (map Freed fs) = []"
  by (induction fs) auto

lemma work_items_release [simp]: "work_items (req_release_events r req iod) = []"
  by (simp add: req_release_events_def)

lemma async_rqs_errors:
  "d_requests dev r = Some req \<Longrightarrow> async_rqs (put_request r (req\<lparr>rq_errors := e\<rparr>) dev) = async_rqs dev"
  by (auto simp: async_rqs_put async_rqs_def async_rq_def)

lemma req_completion_other:
  assumes "req_completion ctx cqe dev = Some dev'"
  shows "async_rqs dev' = async_rqs dev \<and> (\<exists>evs. d_log dev' = d_log dev @ evs \<and> work_items evs = [])"
proof -
  from assms obtain iod req frees where d: "d_requests dev (iod_get_private iod) = Some req"
    and dev': "dev' = kernel_log (req_release_events (iod_get_private iod) req iod @ map Freed frees
        @ (if \<not> req_should_requeue dev req (cqe_code cqe) then [CompleteRequest (iod_get_private iod)] else []))
      (if req_should_requeue dev req (cqe_code cqe)
       then kernel_log (RequeueRequest (iod_get_private iod)
         # (if \<not> d_stopped dev (rq_queue req) then [KickRequeueList (rq_queue req)] else [])) dev
       else put_request (iod_get_private iod) (req\<lparr>rq_errors :=
         (if cqe_code cqe \<noteq> 0 then nvme_error_status (cqe_code cqe) else 0)\<rparr>) dev)"
    by (cases ctx; simp add: req_completion_def Let_def split: bind_splits; fast)
  show ?thesis using async_rqs_errors [OF d] by (simp add: dev')
qed

lemma run_completion_other:
  assumes "run_completion f ctx cqe dev = Some dev'" "f \<noteq> async_completion_fn"
  shows "async_rqs dev' = async_rqs dev \<and> (\<exists>evs. d_log dev' = d_log dev @ evs \<and> work_items evs = [])"
proof (cases f)
  case req_completion_fn
  with assms(1) show ?thesis by (simp add: req_completion_other)
qed (use assms in \<open>auto simp: special_completion_def async_req_completion_def abort_completion_def
        sync_completion_def chario_completion_def Let_def async_rqs_def
      split: cmd_ctx.splits bind_splits if_splits\<close>)

lemma finish_admin:
  assumes "nvme_finish_cmd 0 tag dev = Some (ctx, Some f, dev1)" "get_queue dev 0 = Some q" "q_qid q = 0"
  shows "f = special_completion_fn \<and> dev1 = dev
    \<or> (\<exists>r req. d_requests dev r = Some req \<and> ctx = ci_ctx (rq_cmd req) \<and> ci_fn (rq_cmd req) = Some f
         \<and> dev1 = put_request r (req\<lparr>rq_cmd := finished (rq_cmd req)\<rparr>) dev)"
  using assms(1) by (simp add: nvme_finish_cmd_def assms(2,3) split: bind_splits if_splits) blast+

lemma cq_consume_async:
  assumes "get_queue dev 0 = Some q" "q_qid q = 0" "cq_consume 0 cqe dev = Some dev'" "finite (async_rqs dev)"
  shows "finite (async_rqs dev') \<and> length (new_work dev dev') + card (async_rqs dev') = card (async_rqs dev)"
proof -
  let ?dev = "put_queue 0 (q\<lparr>q_sq_head := cqe_sq_head cqe\<rparr>) dev"
  from assms obtain ctx f dev1 where d: "nvme_finish_cmd 0 (unat (cqe_command_id cqe)) ?dev = Some (ctx, Some f, dev1)"
      "run_completion f ctx cqe dev1 = Some dev'"
    by (auto simp: cq_consume_def split: bind_splits)
  have q0: "get_queue ?dev 0 = Some (q\<lparr>q_sq_head := cqe_sq_head cqe\<rparr>)" using assms(1) by simp
  have base: "async_rqs ?dev = async_rqs dev" by (rule async_rqs_cong) simp
  note fin = finish_admin [OF d(1) q0, simplified, OF assms(2)]
  from fin have log: "d_log dev1 = d_log dev" by auto
  have fin1: "async_rqs (put_request r (req\<lparr>rq_cmd := finished (rq_cmd req)\<rparr>) ?dev) = async_rqs dev - {r}" for r req
    by (simp add: async_rqs_put async_rq_def finished_def base)
  have cases: "f = special_completion_fn \<and> async_rqs dev1 = async_rqs dev
      \<or> (\<exists>r req. d_requests dev r = Some req \<and> ctx = ci_ctx (rq_cmd req) \<and> ci_fn (rq_cmd req) = Some f
           \<and> async_rqs dev1 = async_rqs dev - {r})"
    using fin
  proof (elim disjE exE conjE)
    fix r req assume "d_requests dev r = Some req" "ctx = ci_ctx (rq_cmd req)" "ci_fn (rq_cmd req) = Some f"
      "dev1 = put_request r (req\<lparr>rq_cmd := finished (rq_cmd req)\<rparr>) ?dev"
    then show ?thesis
      by (intro disjI2 exI [of _ r] exI [of _ req] conjI) (assumption | simp only: fin1)+
  next
    assume "f = special_completion_fn" "dev1 = ?dev"
    then show ?thesis by (intro disjI1 conjI) (assumption | simp only: base)+
  qed
  show ?thesis
  proof (cases "f = async_completion_fn")
    case True
    with cases obtain r req where r: "d_requests dev r = Some req" "ctx = ci_ctx (rq_cmd req)"
        "ci_fn (rq_cmd req) = Some f" "async_rqs dev1 = async_rqs dev - {r}" by auto
    from d(2) True obtain a where a: "ctx = CtxAsync a" "new_work dev dev' = [a]" "async_rqs dev' = async_rqs dev1"
      by (auto simp: async_completion_def new_work_def log async_rqs_cong [of "d_async_update _ _"]
          split: cmd_ctx.splits bind_splits)
    have "ci_ctx (rq_cmd req) = CtxAsync a" using r(2) a(1) by simp
    with r(1,3) True have "r \<in> async_rqs dev" by (simp add: async_rqs_def async_rq_def)
    from card_Suc_Diff1 [OF assms(4) this] show ?thesis using a(2,3) r(4) assms(4) by simp
  next
    case False
    from run_completion_other [OF d(2) False] log have "async_rqs dev' = async_rqs dev1" "new_work dev dev' = []"
      by (auto simp: new_work_def)
    moreover have "async_rqs dev - {r} = async_rqs dev" if "d_requests dev r = Some req"
        "ci_fn (rq_cmd req) = Some f" for r req
      using that False by (intro Diff_triv) (simp add: async_rqs_def async_rq_def)
    with cases have "async_rqs dev1 = async_rqs dev" by metis
    ultimately show ?thesis using assms(4) by simp
  qed
qed

lemma delq_step_inv: "delq_step s s' \<Longrightarrow> delq_inv s \<Longrightarrow> delq_inv s'"
proof (induction rule: delq_step.induct)
  case (Work dq i "is" env dev dq' dev')
  then show ?case using delq_inv_work [OF Work(3) Work(2)] by (simp add: delq_inv_def)
next
  case (Complete dev q cqe dev' dq)
  then show ?case using cq_consume_async [OF Complete(1-3)] by (auto simp: delq_inv_def)
qed (simp add: delq_inv_def)

lemma delq_start_loop_inv:
  "delq_start_loop entry is dq dev = Some (dq', dev') \<Longrightarrow> delq_inv (dq, dev) \<Longrightarrow> delq_inv (dq', dev')"
proof (induction "is" arbitrary: dq dev)
  case (Cons i "is")
  from Cons.prems(1) obtain st dev1 where s: "nvme_suspend_queue entry i dev = Some (st, dev1)"
    by (auto split: bind_splits)
  then have "async_rqs dev1 = async_rqs dev"
    by (auto simp: nvme_suspend_queue_def async_rqs_cong [of "put_queue _ _ _"] async_rqs_def
        split: bind_splits if_splits)
  with Cons.prems s Cons.IH show ?case
    by (auto simp: delq_inv_def nvme_get_dq_def Let_def split: if_splits)
qed simp

lemma adapter_async_del_queue_ctx:
  "adapter_async_del_queue env i opcode fn dq dev = Some (st, dq1, dev1) \<Longrightarrow>
     dq_waiter dq1 = dq_waiter dq \<and> dq_refcount dq1 = dq_refcount dq"
  by (auto simp: adapter_async_del_queue_def split: bind_splits)

lemma run_delq_work_wakes:
  assumes "run_delq_work fn env i dq dev = Some (dq', dev')" "dq_waiter dq = Some t"
    "dq_refcount dq' < dq_refcount dq"
  shows "last (d_log dev') = WakeUpProcess t"
proof -
  from assms(1,3) obtain dq1 dev1 where d: "nvme_put_dq dq1 dev1 = (dq', dev')" "dq_waiter dq1 = dq_waiter dq"
    by (cases fn) (auto simp: nvme_del_queue_start_def nvme_delete_sq_def nvme_del_sq_work_handler_def
        nvme_delete_cq_def nvme_del_cq_work_handler_def nvme_del_queue_end_def
        dest!: adapter_async_del_queue_ctx split: bind_splits if_splits)
  then show ?thesis using assms(2) by (auto simp: nvme_put_dq_def)
qed

section \<open>Property\<close>

text \<open>
  C22: the shutdown waits for exactly the delete commands that are still to come. From the start of
  the deletions, through any interleaving of the worker thread with completions of the admin
  queue, the reference count is the number of queued work items plus outstanding commands. So it
  is zero, and the waiting task continues, if and only if every deletion has ended; and the work
  item that brings it to zero wakes the waiting task.
\<close>

theorem delq_refcount_exact:
  assumes "async_rqs dev0 = {}" "delq_start_loop entry is empty_delq dev0 = Some (dq1, dev1)"
    "delq_step\<^sup>*\<^sup>* (dq1, dev1) (dq, dev)"
  shows "dq_refcount dq = int (length (dq_queue dq) + card (async_rqs dev))
    \<and> (dq_refcount dq = 0 \<longleftrightarrow> dq_queue dq = [] \<and> async_rqs dev = {})
    \<and> (\<forall>i is env t dq' dev'. dq_waiter dq = Some t \<and> dq_queue dq = i # is \<and> dq_refcount dq' < dq_refcount dq
         \<and> run_delq_work (dq_work dq i) env i (dq\<lparr>dq_queue := is\<rparr>) dev = Some (dq', dev')
         \<longrightarrow> last (d_log dev') = WakeUpProcess t)"
proof -
  have "delq_inv (dq1, dev1)"
    by (rule delq_start_loop_inv [OF assms(2)]) (simp add: delq_inv_def empty_delq_def assms(1))
  with assms(3) have inv: "delq_inv (dq, dev)"
    by (induction rule: rtranclp_induct) (blast intro: delq_step_inv)+
  have "last (d_log dev') = WakeUpProcess t" if "dq_waiter dq = Some t" "dq_refcount dq' < dq_refcount dq"
      "run_delq_work (dq_work dq i) env i (dq\<lparr>dq_queue := is\<rparr>) dev = Some (dq', dev')" for i "is" env t dq' dev'
    using run_delq_work_wakes [OF that(3)] that(1,2) by simp
  moreover from inv have c: "dq_refcount dq = int (length (dq_queue dq) + card (async_rqs dev))"
      "finite (async_rqs dev)" by (simp_all add: delq_inv_def)
  moreover have "dq_refcount dq = 0 \<longleftrightarrow> dq_queue dq = [] \<and> async_rqs dev = {}"
    unfolding c(1) of_nat_eq_0_iff using c(2) by simp
  ultimately show ?thesis by blast
qed

definition delq_env_busy :: task_env where
  "delq_env_busy = \<lparr>t_current = 1, t_frame = 0, t_garbage = 0, t_alloc = (\<lambda>_. Inl (- 16)), t_sched = (\<lambda>d. d)\<rparr>"

text \<open>One queue whose deletion fails at once because no request is free: the waiter is woken.\<close>

theorem delq_refcount_exact_witness:
  "\<exists>dq dev dq' dev'. delq_start_loop (\<lambda>v. v) [1] empty_delq sample_dev = Some (dq, dev)
    \<and> dq_refcount dq = 1
    \<and> run_delq_work (dq_work dq 1) delq_env_busy 1 (dq\<lparr>dq_waiter := Some 5, dq_queue := []\<rparr>) dev = Some (dq', dev')
    \<and> dq_refcount dq' = 0 \<and> last (d_log dev') = WakeUpProcess 5"
proof -
  let ?dq = "\<lparr>dq_waiter = None, dq_refcount = 1, dq_work = (\<lambda>_. nvme_del_queue_start_fn), dq_queue = [1]\<rparr>"
  define dev where "dev = snd (the (nvme_suspend_queue (\<lambda>v. v) 1 sample_dev))"
  have susp: "nvme_suspend_queue (\<lambda>v. v) 1 sample_dev = Some (0, dev)" and q: "\<exists>q. get_queue dev 1 = Some q"
    by (simp_all add: dev_def nvme_suspend_queue_def sample_dev_def sample_queue_def get_queue_def put_queue_def
        kernel_log_def)
  then have start: "delq_start_loop (\<lambda>v. v) [1] empty_delq sample_dev = Some (?dq, dev)"
    by (simp add: empty_delq_def nvme_get_dq_def fun_upd_idem)
  have "\<exists>dq' dev'. run_delq_work (dq_work ?dq 1) delq_env_busy 1
      (?dq\<lparr>dq_waiter := Some 5, dq_queue := []\<rparr>) dev = Some (dq', dev') \<and> dq_refcount dq' = 0"
    using q by (auto simp: nvme_del_queue_start_def nvme_delete_sq_def adapter_async_del_queue_def delq_env_busy_def
        nvme_submit_admin_async_cmd_def nvme_del_queue_end_def nvme_put_dq_def)
  then obtain dq' dev' where run: "run_delq_work (dq_work ?dq 1) delq_env_busy 1
      (?dq\<lparr>dq_waiter := Some 5, dq_queue := []\<rparr>) dev = Some (dq', dev')" "dq_refcount dq' = 0" by blast
  have none: "async_rqs sample_dev = {}" by (simp add: async_rqs_def sample_dev_def)
  have wait: "delq_step\<^sup>*\<^sup>* (?dq, dev) (?dq\<lparr>dq_waiter := Some 5\<rparr>, dev)"
    by (rule r_into_rtranclp) (rule delq_step.Wait)
  note all = delq_refcount_exact [OF none start wait, THEN conjunct2, THEN conjunct2]
  have "last (d_log dev') = WakeUpProcess 5"
    using all [rule_format, of 5 1 "[]" dq' delq_env_busy dev'] run by simp
  with start run show ?thesis by (intro exI [of _ ?dq] exI [of _ dev] exI [of _ dq'] exI [of _ dev']) simp
qed

end
