(* ===== verification/Nvme_Lifecycle.thy ===== *)
theory Nvme_Lifecycle
  imports Nvme_Start Nvme_Delq
begin

text \<open>
  The life of a device (src/nvme-core.c, \<open>nvme_kthread\<close>, \<open>nvme_freeze_queues\<close> to \<open>nvme_dev_shutdown\<close>,
  \<open>nvme_setup_prp_pools\<close> to \<open>nvme_dev_ioctl\<close>, \<open>nvme_remove_dead_ctrl\<close> to the end of the file): polling,
  shutdown, resume, reset, probing and removal, and the entry points that the character device uses.
\<close>

abbreviation NVME_CSTS_CFS :: u32 where "NVME_CSTS_CFS \<equiv> 2"
abbreviation EWOULDBLOCK :: int where "EWOULDBLOCK \<equiv> 11"

section \<open>The polling thread\<close>

definition queue_reset_work :: "reset_fn \<Rightarrow> nvme_device \<Rightarrow> nvme_device" where
  "queue_reset_work fn v =
     v\<lparr>v_reset_workfn := fn, v_dev := kernel_log [QueueResetWork] ((v_dev v)\<lparr>d_reset_busy := True\<rparr>)\<rparr>"

text \<open>\<open>while (dev->event_limit > 0)\<close>: n counts the rounds that the limit allows.\<close>

fun async_events_loop :: "nat \<Rightarrow> task_env \<Rightarrow> nvme_dev \<Rightarrow> nvme_dev option" where
  "async_events_loop 0 env dev = Some dev"
| "async_events_loop (Suc n) env dev =
     do { (r, dev') \<leftarrow> nvme_submit_async_admin_req env dev;
          if r \<noteq> 0 then Some dev'
          else async_events_loop n env (dev'\<lparr>d_event_limit := d_event_limit dev' - 1\<rparr>) }"

fun kthread_queues :: "task_env \<Rightarrow> nat list \<Rightarrow> nvme_dev \<Rightarrow> nvme_dev option" where
  "kthread_queues env [] dev = Some dev"
| "kthread_queues env (i # is) dev =
     (if get_queue dev i = None then kthread_queues env is dev
      else do { (_, dev1) \<leftarrow> nvme_process_cq i dev;
                dev2 \<leftarrow> (if i = 0 then async_events_loop (unat (d_event_limit dev1)) env dev1 else Some dev1);
                kthread_queues env is dev2 })"

definition kthread_dev :: "u32 \<Rightarrow> task_env \<Rightarrow> nvme_device \<Rightarrow> nvme_device option" where
  "kthread_dev csts env v =
     (if csts AND NVME_CSTS_CFS \<noteq> 0
      then Some (if d_reset_busy (v_dev v) then v
                 else queue_reset_work nvme_reset_failed_dev_fn (v\<lparr>v_dev := (v_dev v)\<lparr>d_on_list := False\<rparr>\<rparr>))
      else do { dev \<leftarrow> kthread_queues env [0..<unat (d_queue_count (v_dev v))] (v_dev v);
                Some (v\<lparr>v_dev := dev\<rparr>) })"

text \<open>One turn over the device list: the status register and the kernel's answers per device.\<close>

fun kthread_turn :: "(nvme_device \<Rightarrow> u32 \<times> task_env) \<Rightarrow> nvme_device list \<Rightarrow> nvme_device list option" where
  "kthread_turn reads [] = Some []"
| "kthread_turn reads (v # vs) =
     do { v' \<leftarrow> (if d_on_list (v_dev v) then (case reads v of (csts, env) \<Rightarrow> kthread_dev csts env v) else Some v);
          vs' \<leftarrow> kthread_turn reads vs;
          Some (v' # vs') }"

text \<open>The turns until kthread_should_stop.\<close>

fun nvme_kthread ::
  "(nvme_device \<Rightarrow> u32 \<times> task_env) list \<Rightarrow> nvme_device list \<Rightarrow> (int \<times> nvme_device list) option" where
  "nvme_kthread [] vs = Some (0, vs)"
| "nvme_kthread (reads # rs) vs = do { vs' \<leftarrow> kthread_turn reads vs; nvme_kthread rs vs' }"

section \<open>Shutdown, resume and reset\<close>

text \<open>QUEUE_FLAG_STOPPED of the request queues of all namespaces, which \<open>req_completion\<close> reads.\<close>

definition set_stopped :: "bool \<Rightarrow> nvme_device \<Rightarrow> nvme_device" where
  "set_stopped b v =
     (let qs = map (\<lambda>d. ns_queue (n_ns d)) (v_namespaces v); dev = v_dev v
      in v\<lparr>v_dev := dev\<lparr>d_stopped := (\<lambda>q. if q \<in> set qs then b else d_stopped dev q)\<rparr>\<rparr>)"

definition freeze_events :: "nvme_disk \<Rightarrow> devent list" where
  "freeze_events d = (let q = ns_queue (n_ns d) in [FreezeQueueStart q, CancelRequeueWork q, StopHwQueues q])"

definition nvme_freeze_queues :: "nvme_device \<Rightarrow> nvme_device" where
  "nvme_freeze_queues v =
     dev_log (concat (map freeze_events (v_namespaces v))) (set_stopped True v)"

definition unfreeze_events :: "nvme_disk \<Rightarrow> devent list" where
  "unfreeze_events d = (let q = ns_queue (n_ns d) in [UnfreezeQueue q, StartStoppedHwQueues q, KickRequeue q])"

definition nvme_unfreeze_queues :: "nvme_device \<Rightarrow> nvme_device" where
  "nvme_unfreeze_queues v =
     dev_log (concat (map unfreeze_events (v_namespaces v))) (set_stopped False v)"

record shutdown_env =
  sh_csts :: u32
  sh_delq :: delq_env
  sh_polls :: "nat \<Rightarrow> poll"
  sh_task :: task_env
  sh_raw :: nvme_completion
  sh_busy :: "nat \<Rightarrow> rq_ptr list option"

fun suspend_loop :: "(int \<Rightarrow> int) \<Rightarrow> nat list \<Rightarrow> nvme_dev \<Rightarrow> nvme_dev option" where
  "suspend_loop entry [] dev = Some dev"
| "suspend_loop entry (i # is) dev =
     do { (_, dev') \<leftarrow> nvme_suspend_queue entry i dev; suspend_loop entry is dev' }"

fun clear_loop ::
  "nvme_completion \<Rightarrow> (nat \<Rightarrow> rq_ptr list option) \<Rightarrow> nat list \<Rightarrow> nvme_dev \<Rightarrow> nvme_dev option" where
  "clear_loop raw busy [] dev = Some dev"
| "clear_loop raw busy (i # is) dev =
     do { dev' \<leftarrow> nvme_clear_queue raw busy i dev; clear_loop raw busy is dev' }"

definition queue_indices_down :: "nvme_dev \<Rightarrow> nat list" where
  "queue_indices_down dev = rev [0..<unat (d_queue_count dev)]"

definition nvme_dev_shutdown :: "shutdown_env \<Rightarrow> nvme_device \<Rightarrow> nvme_device option" where
  "nvme_dev_shutdown env v =
     (let v1 = nvme_dev_list_remove v;
          (v2, csts) = (if v_bar v1 \<noteq> None then (nvme_freeze_queues v1, sh_csts env) else (v1, -1))
      in do { dev3 \<leftarrow> (if csts AND NVME_CSTS_CFS \<noteq> 0 \<or> csts AND NVME_CSTS_RDY = 0
                       then suspend_loop (v_entry v2) (queue_indices_down (v_dev v2)) (v_dev v2)
                       else do { d1 \<leftarrow> nvme_disable_io_queues (sh_delq env) (v_dev v2);
                                 (_, d2) \<leftarrow> nvme_shutdown_ctrl (sh_polls env) d1;
                                 nvme_disable_queue (sh_task env) (v_entry v2) (sh_csts env) 0 d2 });
              let v4 = nvme_dev_unmap (v2\<lparr>v_dev := dev3\<rparr>);
              dev5 \<leftarrow> clear_loop (sh_raw env) (sh_busy env) (queue_indices_down (v_dev v4)) (v_dev v4);
              Some (v4\<lparr>v_dev := dev5\<rparr>) })"

definition nvme_remove_disks :: "(nat \<Rightarrow> bool) \<Rightarrow> nvme_device \<Rightarrow> nvme_device option" where
  "nvme_remove_disks dying v =
     do { dev \<leftarrow> nvme_free_queues 1 (v_dev v); Some (nvme_dev_remove dying (v\<lparr>v_dev := dev\<rparr>)) }"

definition nvme_dev_resume :: "start_env \<Rightarrow> nvme_device \<Rightarrow> (int \<times> nvme_device) option" where
  "nvme_dev_resume env v =
     do { (ret, v1) \<leftarrow> nvme_dev_start env v;
          if ret \<noteq> 0 then Some (ret, v1)
          else if d_online_queues (v_dev v1) < 2 then Some (0, queue_reset_work nvme_remove_disks_fn v1)
          else map_option (Pair 0) (nvme_set_irq_hints (nvme_unfreeze_queues v1)) }"

text \<open>\<open>dead\<close> is the result of kthread_run for \<open>nvme_remove_dead_ctrl\<close>.\<close>

definition nvme_dev_reset :: "shutdown_env \<Rightarrow> start_env \<Rightarrow> bool \<Rightarrow> nvme_device \<Rightarrow> nvme_device option" where
  "nvme_dev_reset senv env dead v =
     do { v1 \<leftarrow> nvme_dev_shutdown senv v;
          (ret, v2) \<leftarrow> nvme_dev_resume env v1;
          if ret \<noteq> 0
          then let v3 = dev_log [KthreadRun] (v2\<lparr>v_kref := v_kref v2 + 1\<rparr>)
            in if dead then Some v3 else kref_put_dev v3
          else Some v2 }"

definition nvme_reset_failed_dev :: "shutdown_env \<Rightarrow> start_env \<Rightarrow> bool \<Rightarrow> nvme_device \<Rightarrow> nvme_device option" where
  "nvme_reset_failed_dev senv env dead v = nvme_dev_reset senv env dead v"

definition nvme_reset_workfn ::
  "shutdown_env \<Rightarrow> start_env \<Rightarrow> bool \<Rightarrow> (nat \<Rightarrow> bool) \<Rightarrow> nvme_device \<Rightarrow> nvme_device option" where
  "nvme_reset_workfn senv env dead dying v =
     (case v_reset_workfn v of
        nvme_reset_failed_dev_fn \<Rightarrow> nvme_reset_failed_dev senv env dead v
      | nvme_remove_disks_fn \<Rightarrow> nvme_remove_disks dying v)"

text \<open>
  \<open>nvme_remove_dead_ctrl\<close>: \<open>drvdata\<close> is whether the pdev still has the device; the removal that
  pci_stop_and_remove_bus_device starts is the argument \<open>remove\<close>.
\<close>

definition nvme_remove_dead_ctrl ::
  "bool \<Rightarrow> (nvme_device \<Rightarrow> nvme_device option) \<Rightarrow> nvme_device \<Rightarrow> (int \<times> nvme_device) option" where
  "nvme_remove_dead_ctrl drvdata remove v =
     do { v1 \<leftarrow> (if drvdata then remove (dev_log [StopAndRemoveBus] v) else Some v);
          map_option (Pair 0) (kref_put_dev v1) }"

definition nvme_reset_notify :: "shutdown_env \<Rightarrow> start_env \<Rightarrow> bool \<Rightarrow> nvme_device \<Rightarrow> nvme_device option" where
  "nvme_reset_notify senv env prepare v =
     (if prepare then nvme_dev_shutdown senv v else map_option snd (nvme_dev_resume env v))"

definition nvme_shutdown :: "shutdown_env \<Rightarrow> nvme_device \<Rightarrow> nvme_device option" where
  "nvme_shutdown senv v = nvme_dev_shutdown senv v"

definition nvme_suspend :: "shutdown_env \<Rightarrow> nvme_device \<Rightarrow> (int \<times> nvme_device) option" where
  "nvme_suspend senv v = map_option (Pair 0) (nvme_dev_shutdown senv v)"

definition nvme_resume :: "start_env \<Rightarrow> nvme_device \<Rightarrow> (int \<times> nvme_device) option" where
  "nvme_resume env v =
     do { (ret, v1) \<leftarrow> nvme_dev_resume env v;
          Some (0, if ret \<noteq> 0 \<and> \<not> d_reset_busy (v_dev v1)
                   then queue_reset_work nvme_reset_failed_dev_fn v1 else v1) }"

section \<open>The character device of the controller\<close>

fun nvme_dev_open :: "int \<Rightarrow> nvme_device list \<Rightarrow> int \<times> nvme_device list" where
  "nvme_dev_open instance [] = (- ENODEV, [])"
| "nvme_dev_open instance (v # vs) =
     (if d_on_list (v_dev v) \<and> v_instance v = instance
      then (if \<not> d_admin_q (v_dev v) then (- EWOULDBLOCK, v # vs)
            else case kref_get_unless_zero v of (ok, v') \<Rightarrow> (if ok then 0 else - ENODEV, v' # vs))
      else case nvme_dev_open instance vs of (r, vs') \<Rightarrow> (r, v # vs'))"

definition nvme_dev_release :: "nvme_device \<Rightarrow> (int \<times> nvme_device) option" where
  "nvme_dev_release v = map_option (Pair 0) (kref_put_dev v)"

definition nvme_dev_ioctl ::
  "task_env \<Rightarrow> map_env \<Rightarrow> (prp_pool \<Rightarrow> pool_alloc) \<Rightarrow> bool \<Rightarrow> nvme_passthru_cmd option \<Rightarrow> bool \<Rightarrow> ioctl_cmd
     \<Rightarrow> nvme_device \<Rightarrow> (int \<times> nvme_device) option" where
  "nvme_dev_ioctl env menv palloc capable ucmd copy_out cmd v =
     (let run = (\<lambda>on_ns. map_option (\<lambda>(r, dev). (r, v\<lparr>v_dev := dev\<rparr>))
                   (nvme_user_cmd env menv palloc capable ucmd copy_out on_ns (v_dev v)))
      in case cmd of
           NVME_IOCTL_ADMIN_CMD \<Rightarrow> run False
         | NVME_IOCTL_IO_CMD \<Rightarrow> if v_namespaces v = [] then Some (- ENOTTY, v) else run True
         | _ \<Rightarrow> Some (- ENOTTY, v))"

end
