(* ===== verification/Nvme_Probe.thy ===== *)
theory Nvme_Probe
  imports Nvme_Lifecycle
begin

text \<open>
  Probing and removing a device, loading and unloading the driver (src/nvme-core.c,
  \<open>nvme_setup_prp_pools\<close> to \<open>nvme_release_instance\<close>, \<open>nvme_probe\<close>, \<open>nvme_async_probe\<close>, \<open>nvme_remove\<close>,
  \<open>nvme_init\<close>, \<open>nvme_exit\<close>). Every acquisition and release is an event of the log; the theorem shows
  that they balance.
\<close>

section \<open>Resources\<close>

definition nvme_setup_prp_pools :: "bool \<Rightarrow> bool \<Rightarrow> nvme_device \<Rightarrow> int \<times> nvme_device" where
  "nvme_setup_prp_pools page small v =
     (if \<not> page then (- ENOMEM, v)
      else if \<not> small then (- ENOMEM, dev_log [CreatePool False, DestroyPool False] v)
      else (0, dev_log [CreatePool False, CreatePool True] v))"

definition nvme_release_prp_pools :: "nvme_device \<Rightarrow> nvme_device" where
  "nvme_release_prp_pools v = dev_log [DestroyPool False, DestroyPool True] v"

text \<open>
  The do-while loop of \<open>nvme_set_instance\<close>: each try has the result of ida_pre_get and of
  ida_get_new with the number it found. The loop continues only while ida_get_new returns -EAGAIN;
  a list of tries that ends before is None.
\<close>

fun nvme_set_instance :: "(bool \<times> int \<times> int) list \<Rightarrow> nvme_device \<Rightarrow> (int \<times> nvme_device) option" where
  "nvme_set_instance [] v = None"
| "nvme_set_instance ((pre, err, n) # tries) v =
     (if \<not> pre then Some (- ENODEV, v)
      else if err = - EAGAIN then nvme_set_instance tries v
      else if err \<noteq> 0 then Some (- ENODEV, v)
      else Some (0, dev_log [NewInstance n] (v\<lparr>v_instance := n\<rparr>)))"

section \<open>Probe and removal\<close>

record probe_env =
  pb_dev :: bool
  pb_cpus :: nat
  pb_entry :: bool
  pb_queues :: bool
  pb_irq :: int
  pb_others :: bool
  pb_thread :: nvme_thread
  pb_instance :: "(bool \<times> int \<times> int) list"
  pb_page_pool :: bool
  pb_small_pool :: bool
  pb_device :: int

text \<open>The zeroed structures of a new device.\<close>

definition zero_dev :: "nat \<Rightarrow> nvme_dev" where
  "zero_dev cpus = \<lparr>d_queues = replicate (cpus + 1) None, d_requests = Map.empty, d_tag_to_rq = (\<lambda>_ _. None),
     d_hctx_driver = Map.empty, d_sync = Map.empty, d_async = Map.empty, d_chario = Map.empty, d_queue_count = 0,
     d_online_queues = 0, d_page_size = 0, d_db_stride = 0, d_ctrl_config = 0, d_abort_limit = 0,
     d_event_limit = 0, d_admin_q = False, d_reset_busy = False, d_on_list = False, d_jiffies = 0,
     d_stopped = (\<lambda>_. False), d_dying = (\<lambda>_. False), d_log = []\<rparr>"

definition zero_device :: "probe_env \<Rightarrow> nvme_device" where
  "zero_device env = \<lparr>v_dev = zero_dev (pb_cpus env), v_bar = None, v_max_qid = 0, v_q_depth = 0, v_entry = (\<lambda>_. 0),
     v_instance = 0, v_oncs = 0, v_vwc = 0, v_serial = [], v_model = [], v_firmware_rev = [],
     v_max_hw_sectors = 0, v_stripe_size = 0, v_tagset = None, v_namespaces = [],
     v_reset_workfn = nvme_reset_failed_dev_fn, v_kref = 0, v_irq = pb_irq env, v_pin_irq = pb_irq env,
     v_enable_cnt = 0, v_regions = False, v_msi = False, v_msix = False, v_others = pb_others env,
     v_thread = pb_thread env, v_log = []\<rparr>"

definition probe_free :: "int \<Rightarrow> nvme_device \<Rightarrow> (int \<times> bool \<times> nvme_device) option" where
  "probe_free result v = Some (result, True, dev_log [KfreeQueues, KfreeEntry, KfreeDev] v)"

text \<open>
  \<open>nvme_probe\<close>: the result, whether \<open>current_dev\<close> points to the structure of this device (it is
  assigned before the first check), and the device.
\<close>

definition nvme_probe :: "probe_env \<Rightarrow> (int \<times> bool \<times> nvme_device) option" where
  "nvme_probe env =
     (let v0 = zero_device env
      in if \<not> pb_dev env then Some (- ENOMEM, False, v0)
         else let v1 = dev_log [AllocDev] v0
           in if \<not> pb_entry env then probe_free (- ENOMEM) v1
              else let v2 = dev_log [AllocEntry] v1
                in if \<not> pb_queues env then probe_free (- ENOMEM) v2
                   else do {
                     let v3 = dev_log [AllocQueues, PciDevGet, SetDrvdata True] v2;
                     (r4, v4) \<leftarrow> nvme_set_instance (pb_instance env) v3;
                     if r4 \<noteq> 0 then probe_free r4 (dev_log [PciDevPut] v4)
                     else case nvme_setup_prp_pools (pb_page_pool env) (pb_small_pool env) v4 of (r5, v5) \<Rightarrow>
                       if r5 \<noteq> 0 then probe_free r5 (dev_log [PciDevPut] (nvme_release_instance v5))
                       else let v6 = v5\<lparr>v_kref := 1\<rparr>
                         in if pb_device env \<noteq> 0
                            then probe_free (pb_device env)
                                   (dev_log [PciDevPut] (nvme_release_instance (nvme_release_prp_pools v6)))
                            else Some (0, True,
                              dev_log [DeviceCreate (v_instance v6), GetDevice, ScheduleProbeWork] v6) })"

definition nvme_async_probe :: "start_env \<Rightarrow> add_env \<Rightarrow> nvme_device \<Rightarrow> nvme_device option" where
  "nvme_async_probe senv aenv v =
     (let reset = (\<lambda>w. if d_reset_busy (v_dev w) then w else queue_reset_work nvme_reset_failed_dev_fn w)
      in do { (r1, v1) \<leftarrow> nvme_dev_start senv v;
              if r1 \<noteq> 0 then Some (reset v1)
              else do { (r2, v2) \<leftarrow> (if 1 < d_online_queues (v_dev v1) then nvme_dev_add aenv v1 else Some (0, v1));
                        if r2 \<noteq> 0 then Some (reset v2) else nvme_set_irq_hints v2 } })"

text \<open>
  \<open>nvme_remove\<close>: \<open>rm_flush\<close> is what the pending probe and reset work does to the device while
  flush_work waits for it.
\<close>

record remove_env =
  rm_flush :: "nvme_device \<Rightarrow> nvme_device"
  rm_shutdown :: shutdown_env
  rm_dying :: "nat \<Rightarrow> bool"
  rm_admin_dying :: bool

definition nvme_remove :: "remove_env \<Rightarrow> nvme_device \<Rightarrow> nvme_device option" where
  "nvme_remove env v =
     do { let v1 = rm_flush env (dev_log [SetDrvdata False] (v\<lparr>v_dev := (v_dev v)\<lparr>d_on_list := False\<rparr>\<rparr>));
          v2 \<leftarrow> nvme_dev_shutdown (rm_shutdown env) v1;
          let v3 = nvme_dev_remove (rm_dying env) v2;
          let v4 = dev_log [DeviceDestroy (v_instance v3)]
                     (v3\<lparr>v_dev := nvme_dev_remove_admin (rm_admin_dying env) (v_dev v3)\<rparr>);
          dev5 \<leftarrow> nvme_free_queues 0 (v_dev v4);
          kref_put_dev (nvme_release_prp_pools (v4\<lparr>v_dev := dev5\<rparr>)) }"

section \<open>The driver module\<close>

text \<open>\<open>class\<close> and \<open>register\<close> are the results of class_create (0 or its error) and pci_register_driver.\<close>

definition nvme_init :: "bool \<Rightarrow> int \<Rightarrow> int \<Rightarrow> int \<times> devent list" where
  "nvme_init workq cls register =
     (if \<not> workq then (- ENOMEM, [])
      else if cls \<noteq> 0 then (cls, [CreateWorkqueue, DestroyWorkqueue])
      else if register \<noteq> 0 then (register, [CreateWorkqueue, CreateClass, DestroyClass, DestroyWorkqueue])
      else (0, [CreateWorkqueue, CreateClass, RegisterDriver]))"

text \<open>BUG_ON of a thread that still runs is None.\<close>

definition nvme_exit :: "nvme_thread \<Rightarrow> devent list option" where
  "nvme_exit thread =
     (if thread = ThreadRunning then None else Some [UnregisterDriver, DestroyWorkqueue, DestroyClass])"

definition chario_nvme_init :: "bool \<Rightarrow> int \<Rightarrow> int \<Rightarrow> int \<times> devent list" where
  "chario_nvme_init workq cls register = nvme_init workq cls register"

definition chario_nvme_exit :: "nvme_thread \<Rightarrow> devent list option" where
  "chario_nvme_exit thread = nvme_exit thread"

section \<open>Acquired and released\<close>

datatype dev_resource = ResDev | ResEntry | ResQueues | ResPciRef | ResInstance | ResPagePool | ResSmallPool
  | ResDeviceNode | ResDeviceRef

fun resource_step :: "devent \<Rightarrow> dev_resource set \<Rightarrow> dev_resource set" where
  "resource_step AllocDev R = insert ResDev R"
| "resource_step KfreeDev R = R - {ResDev}"
| "resource_step AllocEntry R = insert ResEntry R"
| "resource_step KfreeEntry R = R - {ResEntry}"
| "resource_step AllocQueues R = insert ResQueues R"
| "resource_step KfreeQueues R = R - {ResQueues}"
| "resource_step PciDevGet R = insert ResPciRef R"
| "resource_step PciDevPut R = R - {ResPciRef}"
| "resource_step (NewInstance n) R = insert ResInstance R"
| "resource_step (ReleaseInstance n) R = R - {ResInstance}"
| "resource_step (CreatePool small) R = insert (if small then ResSmallPool else ResPagePool) R"
| "resource_step (DestroyPool small) R = R - {if small then ResSmallPool else ResPagePool}"
| "resource_step (DeviceCreate n) R = insert ResDeviceNode R"
| "resource_step (DeviceDestroy n) R = R - {ResDeviceNode}"
| "resource_step GetDevice R = insert ResDeviceRef R"
| "resource_step PutDevice R = R - {ResDeviceRef}"
| "resource_step _ R = R"

definition device_held :: "nvme_device \<Rightarrow> dev_resource set" where
  "device_held v = fold resource_step (v_log v) {}"

lemma device_held_log [simp]: "device_held (dev_log evs v) = fold resource_step evs (device_held v)"
  by (simp add: device_held_def dev_log_def)

lemma device_held_upd [simp]:
  "device_held (v\<lparr>v_dev := x1\<rparr>) = device_held v" "device_held (v\<lparr>v_namespaces := x2\<rparr>) = device_held v"
  "device_held (v\<lparr>v_thread := x3\<rparr>) = device_held v" "device_held (v\<lparr>v_kref := x4\<rparr>) = device_held v"
  "device_held (v\<lparr>v_instance := x5\<rparr>) = device_held v"
  by (simp_all add: device_held_def)

lemma dev_log_kref [simp]: "v_kref (dev_log evs v) = v_kref v"
  by (simp add: dev_log_def)

lemma fold_quiet: "(\<And>e R. e \<in> set evs \<Longrightarrow> resource_step e R = R) \<Longrightarrow> fold resource_step evs R = R"
  by (induction evs arbitrary: R) auto

lemma nvme_dev_unmap_held [simp]:
  "device_held (nvme_dev_unmap v) = device_held v" "v_kref (nvme_dev_unmap v) = v_kref v"
  by (simp_all add: nvme_dev_unmap_def pci_view_simps Let_def device_held_def)

lemma nvme_dev_list_remove_held [simp]:
  "device_held (nvme_dev_list_remove v) = device_held v" "v_kref (nvme_dev_list_remove v) = v_kref v"
  by (simp_all add: nvme_dev_list_remove_def Let_def)

lemma nvme_freeze_queues_held [simp]:
  "device_held (nvme_freeze_queues v) = device_held v" "v_kref (nvme_freeze_queues v) = v_kref v"
  by (auto simp: nvme_freeze_queues_def freeze_events_def set_stopped_def Let_def intro!: fold_quiet)

lemma nvme_dev_remove_held [simp]:
  "device_held (nvme_dev_remove dying v) = device_held v" "v_kref (nvme_dev_remove dying v) = v_kref v"
  by (auto simp: nvme_dev_remove_def remove_ns_events_def Let_def intro!: fold_quiet split: if_splits)

lemma nvme_free_namespaces_held [simp]: "device_held (nvme_free_namespaces v) = device_held v"
  by (auto simp: nvme_free_namespaces_def intro!: fold_quiet)

lemma nvme_dev_shutdown_held:
  "nvme_dev_shutdown env v = Some v' \<Longrightarrow> device_held v' = device_held v \<and> v_kref v' = v_kref v"
  by (auto simp: nvme_dev_shutdown_def Let_def split: bind_splits if_splits)

lemma resource_UNIV: "(UNIV :: dev_resource set) = {ResDev, ResEntry, ResQueues, ResPciRef, ResInstance, ResPagePool,
    ResSmallPool, ResDeviceNode, ResDeviceRef}"
  using dev_resource.exhaust by auto

lemma nvme_free_dev_held:
  "nvme_free_dev v = Some v' \<Longrightarrow>
     device_held v' = device_held v - {ResDev, ResEntry, ResQueues, ResPciRef, ResInstance, ResDeviceRef}"
  by (auto simp: nvme_free_dev_def nvme_release_instance_def Let_def split: if_splits)

lemma nvme_remove_held:
  assumes "nvme_remove env v = Some v'" "\<And>w. device_held (rm_flush env w) = device_held w"
    "\<And>w. v_kref (rm_flush env w) = v_kref w" "v_kref v = 1"
  shows "device_held v' = {}"
proof -
  define v1 where "v1 = rm_flush env (dev_log [SetDrvdata False] (v\<lparr>v_dev := (v_dev v)\<lparr>d_on_list := False\<rparr>\<rparr>))"
  from assms(1) obtain v2 where s: "nvme_dev_shutdown (rm_shutdown env) v1 = Some v2"
    by (auto simp: nvme_remove_def v1_def Let_def split: bind_splits)
  have "v_kref v2 = 1" using nvme_dev_shutdown_held [OF s] assms(3,4) by (simp add: v1_def)
  with assms(1) s obtain v5 where v5: "nvme_free_dev v5 = Some v'"
      "device_held v5 \<inter> {ResDeviceNode, ResPagePool, ResSmallPool} = {}"
    by (force simp: nvme_remove_def v1_def [symmetric] Let_def kref_put_dev_def nvme_release_prp_pools_def split: bind_splits)
  show ?thesis using nvme_free_dev_held [OF v5(1)] v5(2) resource_UNIV by auto
qed

lemma nvme_set_instance_held:
  "nvme_set_instance tries v = Some (r, v') \<Longrightarrow>
     device_held v' = (if r = 0 then insert ResInstance (device_held v) else device_held v)"
  by (induction tries v rule: nvme_set_instance.induct) (auto split: if_splits)

section \<open>Property\<close>

text \<open>
  C23: probing takes all or nothing, and removal gives everything back. When \<open>nvme_probe\<close> fails, at
  whatever point, none of the structures, references, numbers and pools is still held; when it
  succeeds all of them are, with one reference on the device; and \<open>nvme_remove\<close>, when nobody else
  holds a reference, releases all of them. But \<open>current_dev\<close> is left pointing to the freed
  structure after a failure.
\<close>

theorem nvme_probe_remove_balance:
  assumes "nvme_probe env = Some (r, current, v)"
  shows "device_held v = (if r = 0 then UNIV else {}) \<and> current = pb_dev env \<and> (r = 0 \<longrightarrow> v_kref v = 1)
    \<and> (\<forall>renv v'. r = 0 \<and> (\<forall>w. device_held (rm_flush renv w) = device_held w \<and> v_kref (rm_flush renv w) = v_kref w)
         \<and> nvme_remove renv v = Some v' \<longrightarrow> device_held v' = {})"
proof -
  have base: "device_held (zero_device env) = {}" by (simp add: device_held_def zero_device_def)
  have probe: "device_held v = (if r = 0 then UNIV else {}) \<and> current = pb_dev env \<and> (r = 0 \<longrightarrow> v_kref v = 1)"
    using assms
    by (auto simp: nvme_probe_def probe_free_def nvme_setup_prp_pools_def nvme_release_prp_pools_def
        nvme_release_instance_def base resource_UNIV Let_def
        dest!: nvme_set_instance_held split: bind_splits if_splits)
  then show ?thesis using nvme_remove_held by blast
qed

definition sample_probe_env :: probe_env where
  "sample_probe_env = \<lparr>pb_dev = True, pb_cpus = 2, pb_entry = True, pb_queues = True, pb_irq = 61, pb_others = False,
     pb_thread = ThreadNull, pb_instance = [(True, - EAGAIN, 0), (True, 0, 0)], pb_page_pool = True,
     pb_small_pool = True, pb_device = 0\<rparr>"

definition sample_delq_env :: delq_env where
  "sample_delq_env = \<lparr>de_worker = False, de_current = 0, de_task = sample_env (sample_cqe 2 0), de_sleeps = [],
     de_polls = good_polls 0 0, de_cap = 0, de_raw = zero_cqe, de_busy = (\<lambda>_. None), de_flush = (\<lambda>s. s),
     de_entry = (\<lambda>_. 0), de_csts = 0\<rparr>"

text \<open>The flushed probe work creates the admin queue.\<close>

definition sample_remove_env :: remove_env where
  "sample_remove_env = \<lparr>rm_flush = (\<lambda>v. v\<lparr>v_dev := (v_dev v)\<lparr>d_admin_q := True\<rparr>\<rparr>),
     rm_shutdown = \<lparr>sh_csts = 0, sh_delq = sample_delq_env, sh_polls = good_polls 0 0, sh_task = sample_env (sample_cqe 2 0),
       sh_raw = zero_cqe, sh_busy = (\<lambda>_. None)\<rparr>,
     rm_dying = (\<lambda>_. False), rm_admin_dying = False\<rparr>"

lemma shutdown_unstarted:
  assumes "v_bar v = None" "d_queue_count (v_dev v) = 0"
  shows "nvme_dev_shutdown env v = Some (nvme_dev_unmap (nvme_dev_list_remove v))"
proof -
  have "v_bar (nvme_dev_list_remove v) = None" "d_queue_count (v_dev (nvme_dev_list_remove v)) = 0"
    using assms by (simp_all add: nvme_dev_list_remove_def Let_def dev_log_def)
  moreover have "w\<lparr>v_dev := v_dev w\<rparr> = w" for w :: nvme_device by simp
  ultimately show ?thesis by (simp add: nvme_dev_shutdown_def queue_indices_down_def Let_def)
qed

lemma list_remove_unmap_dev:
  "d_queue_count (v_dev (nvme_dev_list_remove v)) = d_queue_count (v_dev v)"
  "d_admin_q (v_dev (nvme_dev_list_remove v)) = d_admin_q (v_dev v)"
  by (simp_all add: nvme_dev_list_remove_def Let_def dev_log_def)

lemma kref_put_dev_defined:
  assumes "d_admin_q (v_dev v)"
  shows "\<exists>v'. kref_put_dev v = Some v'"
proof -
  have "v_dev (nvme_free_namespaces w) = v_dev w" "v_dev (dev_log evs w) = v_dev w" for evs w
    by (simp_all add: nvme_free_namespaces_def dev_log_def)
  then show ?thesis using assms by (simp add: kref_put_dev_def nvme_free_dev_def nvme_release_instance_def Let_def)
qed

lemma nvme_remove_defined:
  assumes "nvme_dev_shutdown (rm_shutdown env)
      (rm_flush env (dev_log [SetDrvdata False] (v\<lparr>v_dev := (v_dev v)\<lparr>d_on_list := False\<rparr>\<rparr>))) = Some w"
    "d_queue_count (v_dev w) = 0" "d_admin_q (v_dev w)"
  shows "\<exists>v'. nvme_remove env v = Some v'"
proof -
  have "v_dev (nvme_dev_remove d u) = v_dev u" "v_dev (dev_log evs u) = v_dev u" for d u evs
    by (simp_all add: nvme_dev_remove_def dev_log_def)
  then show ?thesis using assms
    by (auto simp: nvme_remove_def Let_def nvme_free_queues_def nvme_dev_remove_admin_def kernel_log_def
        nvme_release_prp_pools_def intro!: kref_put_dev_defined)
qed

theorem nvme_probe_remove_balance_witness:
  "\<exists>v v'. nvme_probe sample_probe_env = Some (0, True, v) \<and> device_held v = UNIV
    \<and> nvme_remove sample_remove_env v = Some v' \<and> device_held v' = {}"
proof -
  have "\<exists>v. nvme_probe sample_probe_env = Some (0, True, v) \<and> v_bar v = None \<and> d_queue_count (v_dev v) = 0
      \<and> v_namespaces v = [] \<and> v_kref v = 1"
    by (simp add: nvme_probe_def sample_probe_env_def nvme_setup_prp_pools_def zero_device_def zero_dev_def Let_def dev_log_def)
  then obtain v where p: "nvme_probe sample_probe_env = Some (0, True, v)" "v_bar v = None" "d_queue_count (v_dev v) = 0"
      "v_namespaces v = []" "v_kref v = 1" by blast
  define w where "w = dev_log [SetDrvdata False] (v\<lparr>v_dev := (v_dev v)\<lparr>d_on_list := False, d_admin_q := True\<rparr>\<rparr>)"
  have flushed: "rm_flush sample_remove_env (dev_log [SetDrvdata False] (v\<lparr>v_dev := (v_dev v)\<lparr>d_on_list := False\<rparr>\<rparr>)) = w"
    by (simp add: sample_remove_env_def w_def dev_log_def)
  have w: "d_queue_count (v_dev w) = 0" "d_admin_q (v_dev w)" by (simp_all add: w_def dev_log_def p(3))
  have shut: "nvme_dev_shutdown (rm_shutdown sample_remove_env) w = Some (nvme_dev_unmap (nvme_dev_list_remove w))"
    by (rule shutdown_unstarted) (simp_all add: w_def dev_log_def p(2,3))
  have "\<exists>v'. nvme_remove sample_remove_env v = Some v'"
    by (rule nvme_remove_defined [OF shut [folded flushed]]) (simp_all add: flushed list_remove_unmap_dev w)
  then obtain v' where rm: "nvme_remove sample_remove_env v = Some v'" by blast
  have flush: "\<forall>w. device_held (rm_flush sample_remove_env w) = device_held w
      \<and> v_kref (rm_flush sample_remove_env w) = v_kref w" by (simp add: sample_remove_env_def)
  note all = nvme_probe_remove_balance [OF p(1)]
  have "device_held v = UNIV" using all by simp
  moreover have "device_held v' = {}" using all rm flush by blast
  ultimately show ?thesis using p(1) rm by blast
qed

end
