(* ===== verification/Chario_Split.thy ===== *)
theory Chario_Split
  imports Nvme_Submit
begin

text \<open>
  The splitting of a character-device transfer into commands of 32 blocks is correct: each command
  points the controller at its own part of the one PRP list that was built for the whole
  transfer. The specification is the controller's view again, now with a PRP2 that may point into
  the middle of a list page.
\<close>

section \<open>The controller's view of one command\<close>

text \<open>The 64-bit word at a bus address inside the list blocks.\<close>

fun list_word :: "prp_block list \<Rightarrow> dma_addr \<Rightarrow> u64 option" where
  "list_word [] a = None"
| "list_word ((d, es) # bs) a =
     (if unat (a - d) mod 8 = 0 \<and> unat (a - d) div 8 < length es
      then Some (es ! (unat (a - d) div 8)) else list_word bs a)"

text \<open>
  \<open>ctrl_list bs n a\<close>: n data pointers from address a on. When they do not fit before the end of the
  memory page, its last word is the address of the next list page.
\<close>

definition page_room :: "dma_addr \<Rightarrow> nat" where
  "page_room a = (4096 - unat a mod 4096) div 8"

fun words_from :: "prp_block list \<Rightarrow> nat \<Rightarrow> dma_addr \<Rightarrow> u64 list option" where
  "words_from bs 0 a = Some []"
| "words_from bs (Suc n) a =
     do { w \<leftarrow> list_word bs a; ws \<leftarrow> words_from bs n (a + 8); Some (w # ws) }"

function ctrl_list :: "prp_block list \<Rightarrow> nat \<Rightarrow> dma_addr \<Rightarrow> u64 list option" where
  "ctrl_list bs n a =
     (if n \<le> page_room a then words_from bs n a
      else if page_room a < 2 then None
      else do { ws \<leftarrow> words_from bs (page_room a - 1) a;
                link \<leftarrow> list_word bs (a + 8 * of_nat (page_room a - 1));
                rest \<leftarrow> ctrl_list bs (n - (page_room a - 1)) (ucast link);
                Some (ws @ rest) })"
  by pat_completeness auto
termination by (relation "measure (\<lambda>(bs, n, a). n)") auto

declare ctrl_list.simps [simp del]

text \<open>The pages of a command of n blocks of 4096 bytes whose first page is aligned.\<close>

definition ctrl_read :: "prp_block list \<Rightarrow> dma_addr \<Rightarrow> dma_addr \<Rightarrow> nat \<Rightarrow> u64 list option" where
  "ctrl_read bs prp1 prp2 n =
     (if n \<le> 1 then Some [ucast prp1]
      else if n = 2 then Some [ucast prp1, ucast prp2]
      else map_option ((#) (ucast prp1)) (ctrl_list bs (n - 1) prp2))"

section \<open>The commands of a transfer\<close>

type_synonym split_cmd = "u64 \<times> u16 \<times> dma_addr \<times> dma_addr"

function split_cmds :: "(nat \<Rightarrow> int \<Rightarrow> u64 option) \<Rightarrow> u16 \<Rightarrow> split_state \<Rightarrow> split_cmd list option" where
  "split_cmds entry nblocks sp =
     (if sp_remaining sp < 32
      then (if sp_remaining sp = 1 \<and> nblocks > 1
            then map_option (\<lambda>e. [(sp_slba sp, sp_remaining sp, sp_prp1 sp, ucast e)])
                   (entry (sp_page_count sp) (sp_offset sp + 1))
            else Some [(sp_slba sp, sp_remaining sp, sp_prp1 sp, sp_prp2 sp)])
      else case split_advance entry sp of None \<Rightarrow> None
           | Some sp1 \<Rightarrow> map_option ((#) (sp_slba sp, 31, sp_prp1 sp, sp_prp2 sp))
                           (split_cmds entry nblocks sp1))"
  by pat_completeness auto
termination
proof (relation "measure (\<lambda>(entry, nblocks, sp). unat (sp_remaining sp))")
  fix entry nblocks sp sp1
  assume "\<not> sp_remaining sp < 32" "split_advance entry sp = Some sp1"
  then have "sp_remaining sp1 = sp_remaining sp - 32" "32 \<le> sp_remaining sp"
    by (auto simp: split_advance_def Let_def split: if_splits bind_splits)
  then show "((entry, nblocks, sp1), entry, nblocks, sp)
      \<in> measure (\<lambda>(entry, nblocks, sp). unat (sp_remaining sp))"
    by (simp add: unat_sub word_le_nat_alt)
qed simp

declare split_cmds.simps [simp del]

section \<open>What the list pages hold\<close>

lemma prp_entry_block:
  assumes "0 \<le> iod_npages iod" "iod_list iod = [0..<length (iod_blocks iod)]"
    "pc < length (iod_blocks iod)" "j < length (snd (iod_blocks iod ! pc))"
  shows "prp_entry iod pc (int j) = Some (snd (iod_blocks iod ! pc) ! j)"
  using assms by (simp add: prp_entry_def)

text \<open>
  The blocks a pool hands out are aligned: dma_pool_create is called with the block size (256 and
  the page size) as alignment.
\<close>

definition pool_aligned :: "(prp_pool \<Rightarrow> pool_alloc) \<Rightarrow> bool" where
  "pool_aligned palloc \<longleftrightarrow>
     (\<forall>k d es. palloc SmallPool k = Some (d, es) \<longrightarrow> unat d mod 256 = 0)
     \<and> (\<forall>k d es. palloc PagePool k = Some (d, es) \<longrightarrow> unat d mod 4096 = 0)"

text \<open>
  Either one list block, or two list pages linked at word 511; P is the list of all pages of the
  transfer, its head is in PRP1.
\<close>

definition one_block :: "'a prp_state_scheme \<Rightarrow> u64 list \<Rightarrow> dma_addr \<Rightarrow> u64 list \<Rightarrow> bool" where
  "one_block iod P d es \<longleftrightarrow> iod_blocks iod = [(d, es)] \<and> iod_list iod = [0]
     \<and> iod_npages iod \<in> {0, 1} \<and> length P - 1 \<le> length es \<and> unat d mod 4096 + 8 * length es \<le> 4096
     \<and> (\<forall>j. Suc j < length P \<longrightarrow> es ! j = P ! Suc j)"

definition two_blocks ::
  "'a prp_state_scheme \<Rightarrow> u64 list \<Rightarrow> dma_addr \<Rightarrow> u64 list \<Rightarrow> dma_addr \<Rightarrow> u64 list \<Rightarrow> bool" where
  "two_blocks iod P d es d' es' \<longleftrightarrow> iod_blocks iod = [(d, es), (d', es')] \<and> iod_list iod = [0, 1]
     \<and> iod_npages iod = 2 \<and> length es = 512 \<and> length es' = 512 \<and> 513 < length P \<and> length P \<le> 1024
     \<and> (\<forall>j<511. es ! j = P ! Suc j) \<and> es ! 511 = ucast d'
     \<and> (\<forall>j. 512 + j < length P \<longrightarrow> es' ! j = P ! (512 + j))
     \<and> unat d mod 4096 = 0 \<and> unat d' mod 4096 = 0 \<and> d \<noteq> d'"

lemma small_fits: "unat (d :: dma_addr) mod 256 = 0 \<Longrightarrow> unat d mod 4096 + 256 \<le> 4096"
proof -
  assume "unat d mod 256 = 0"
  moreover have "unat d mod 256 = unat d mod 4096 mod 256" by (rule mod_mod_cancel [symmetric]) simp
  ultimately have "unat d mod 4096 mod 256 = 0" by simp
  then obtain c where c: "unat d mod 4096 = 256 * c" by (metis mod_0_imp_dvd dvdE)
  have "unat d mod 4096 < 4096" by simp
  then have "c < 16" unfolding c by simp
  then show ?thesis unfolding c by simp
qed

lemma layout_cases:
  assumes "list_layout palloc prp2 (tl P) iod" "pool_ok palloc" "pool_aligned palloc"
    "length P \<le> 1024" "3 \<le> length P"
  obtains es where "one_block iod P (prp2 iod) es"
  | es d' es' where "two_blocks iod P (prp2 iod) es d' es'"
proof -
  from assms(1) obtain pool i es bs d where p:
      "iod_blocks iod = bs @ [(d, es)]" "\<forall>b\<in>set bs. length (snd b) = 512" "linked (bs @ [(d, es)])"
      "i \<le> length es" "tl P = full_data bs @ take i es" "iod_list iod = [0..<Suc (length bs)]"
      "map (Some \<circ> fst) (iod_blocks iod) = map (\<lambda>k. map_option fst (palloc pool k)) [0..<Suc (length bs)]"
      "prp2 iod = fst (hd (iod_blocks iod))" "length (iod_blocks iod) = 1 \<or> 2 \<le> i"
      "if pool = SmallPool then iod_npages iod = 0 \<and> length (iod_blocks iod) = 1 \<and> length es = 32
       else iod_npages iod = int (length (iod_blocks iod)) \<and> length es = 512"
    unfolding list_layout_def prp_inv_def by blast
  have fd: "length (full_data bs) = 511 * length bs"
    using p(2) by (induction bs) (auto simp: full_data_def)
  have lenP: "length P - 1 = 511 * length bs + i" using arg_cong [OF p(5), of length] fd p(4) by simp
  have tlP: "P ! Suc j = (full_data bs @ take i es) ! j" if "Suc j < length P" for j
    using that p(5) by (metis Suc_eq_plus1 length_tl less_diff_conv nth_tl)
  show ?thesis
  proof (cases bs)
    case Nil
    from p(7) Nil p(1) have dk: "map_option fst (palloc pool 0) = Some d" by simp
    have fits: "unat d mod 4096 + 8 * length es \<le> 4096"
    proof (cases "pool = SmallPool")
      case True
      with dk assms(3) have "unat d mod 256 = 0" by (auto simp: pool_aligned_def)
      with small_fits True p(10) show ?thesis by fastforce
    next
      case False
      then have "pool = PagePool" by (cases pool) auto
      with dk assms(3) have "unat d mod 4096 = 0" by (auto simp: pool_aligned_def)
      with False p(10) show ?thesis by simp
    qed
    have "one_block iod P (prp2 iod) es"
      using fits p(1,4,6,8,10) Nil lenP tlP
      by (auto simp: one_block_def full_data_def split: if_splits)
    then show ?thesis by (rule that(1))
  next
    case (Cons b bs')
    have pool: "pool \<noteq> SmallPool" using p(1,10) Cons by auto
    have "bs' = []"
    proof (rule ccontr)
      assume "bs' \<noteq> []"
      then have "2 \<le> length bs" using Cons by (cases bs') auto
      with lenP p(9) p(1) assms(4) show False by auto
    qed
    obtain d0 es0 where b: "b = (d0, es0)" by force
    have bs: "iod_blocks iod = [(d0, es0), (d, es)]" using p(1) Cons \<open>bs' = []\<close> b by simp
    have pool': "pool = PagePool" using pool by (cases pool) auto
    from p(7) bs Cons \<open>bs' = []\<close> have dk: "map_option fst (palloc PagePool 0) = Some d0"
        "map_option fst (palloc PagePool 1) = Some d"
      using pool' by simp_all
    have al: "unat d0 mod 4096 = 0" "unat d mod 4096 = 0"
      using dk assms(3) by (auto simp: pool_aligned_def)
    have "pool_distinct (palloc PagePool)" using assms(2) by (simp add: pool_ok_def)
    with dk have "d0 \<noteq> d" by (auto simp: pool_distinct_def)
    have len0: "length es0 = 512" using p(2) Cons b by simp
    have fdb: "full_data bs = butlast es0" using Cons b \<open>bs' = []\<close> by (simp add: full_data_def)
    have lP: "length P = 512 + i" "2 \<le> i" using lenP p(9) bs Cons \<open>bs' = []\<close> assms(5) by auto
    have e0: "es0 ! j = P ! Suc j" if "j < 511" for j
      using tlP [of j] that lP len0 fdb by (simp add: nth_append nth_butlast)
    have e1: "es ! j = P ! (512 + j)" if "512 + j < length P" for j
      using tlP [of "511 + j"] that lP len0 fdb p(4) by (simp add: nth_append)
    have link: "es0 ! 511 = ucast d"
      using p(3) Cons b \<open>bs' = []\<close> len0 by (auto simp: last_conv_nth)
    have "two_blocks iod P (prp2 iod) es0 d es"
      using bs p(6,8,10) pool lP len0 e0 e1 link al \<open>d0 \<noteq> d\<close> Cons \<open>bs' = []\<close> p(4) assms(4)
      by (simp add: two_blocks_def)
    then show ?thesis by (rule that(2))
  qed
qed

section \<open>Reading the list\<close>

lemma unat_8_mult: "8 * j < 2 ^ 32 \<Longrightarrow> unat (8 * of_nat j :: dma_addr) = 8 * j"
proof -
  assume "8 * j < 2 ^ 32"
  moreover have "(8 * of_nat j :: dma_addr) = of_nat (8 * j)" by simp
  ultimately show ?thesis by (simp only: unat_of_nat) simp
qed

lemma list_word_first:
  assumes "j < length es" "length es \<le> 512"
  shows "list_word ((d, es) # bs) (d + 8 * of_nat j) = Some (es ! j)"
  using assms unat_8_mult [of j] by simp

lemma aligned_diff:
  assumes "unat (d :: dma_addr) mod 4096 = 0" "unat (d' :: dma_addr) mod 4096 = 0" "d \<noteq> d'" "j < 512"
  shows "512 \<le> unat (d' + 8 * of_nat j - d) div 8"
proof -
  have "4096 dvd unat d" "4096 dvd unat d'" using assms(1,2) by (simp_all add: dvd_eq_mod_eq_0)
  then have "int 4096 dvd int (unat d)" "int 4096 dvd int (unat d')" by (simp_all only: int_dvd_int_iff)
  then have dvd: "4096 dvd uint d" "4096 dvd uint d'" by simp_all
  have "uint (d' - d) = (uint d' - uint d) mod 2 ^ 32" by (simp add: uint_word_ariths)
  moreover have "4096 dvd (uint d' - uint d) mod 2 ^ 32"
    using dvd by (intro dvd_mod dvd_diff) auto
  ultimately obtain c where c: "uint (d' - d) = 4096 * c" by (metis dvdE)
  have "uint (d' - d) \<noteq> 0" using assms(3) by (simp add: uint_0_iff)
  moreover have "0 \<le> uint (d' - d)" "uint (d' - d) < 2 ^ 32"
    using unsigned_less [of "d' - d", where ?'a = int] by simp_all
  ultimately have "1 \<le> c" "c < 2 ^ 20" unfolding c by simp_all
  then have room: "uint (d' - d) + 8 * int j < 2 ^ 32" "4096 \<le> uint (d' - d)"
    unfolding c using assms(4) by simp_all
  have "int (unat (8 * of_nat j :: dma_addr)) = int (8 * j)"
    using unat_8_mult [of j] assms(4) by simp
  then have "uint (8 * of_nat j :: dma_addr) = 8 * int j" by simp
  then have "uint (d' - d + 8 * of_nat j) = uint (d' - d) + 8 * int j"
    using room(1) uint_add_bounded [of "d' - d" "8 * of_nat j"] by simp
  then have "4096 \<le> uint (d' - d + 8 * of_nat j)" using room(2) by simp
  moreover have "d' - d + 8 * of_nat j = d' + 8 * of_nat j - d" by simp
  ultimately have "4096 \<le> uint (d' + 8 * of_nat j - d)" by metis
  then have "int 4096 \<le> int (unat (d' + 8 * of_nat j - d))" by simp
  then have "4096 \<le> unat (d' + 8 * of_nat j - d)" by (simp only: zle_int)
  then show ?thesis by simp
qed

lemma list_word_second:
  assumes "unat d mod 4096 = 0" "unat d' mod 4096 = 0" "d \<noteq> d'" "length es = 512" "length es' = 512" "j < 512"
  shows "list_word [(d, es), (d', es')] (d' + 8 * of_nat j) = Some (es' ! j)"
  using aligned_diff [OF assms(1-3,6)] assms(4-6) list_word_first [of j es' d' "[]"] by auto

declare list_word.simps [simp del]

lemma words_from_block:
  assumes "\<And>j. j < m \<Longrightarrow> list_word bs (d + 8 * of_nat j) = Some (es ! j)" "j + n \<le> m" "m \<le> length es"
  shows "words_from bs n (d + 8 * of_nat j) = Some (take n (drop j es))"
  using assms(2)
proof (induction n arbitrary: j)
  case (Suc n)
  have eq: "d + 8 * of_nat j + 8 = d + 8 * of_nat (Suc j)" by (simp add: algebra_simps)
  have "words_from bs n (d + 8 * of_nat j + 8) = Some (take n (drop (Suc j) es))"
    unfolding eq using Suc.IH [of "Suc j"] Suc.prems by simp
  with assms(1) [of j] Suc.prems assms(3) show ?case
    by (simp add: Cons_nth_drop_Suc [symmetric])
qed simp

lemma page_room_ge:
  assumes "unat d mod 4096 + 8 * m \<le> 4096" "j < m"
  shows "m - j \<le> page_room (d + 8 * of_nat j)"
proof -
  have "unat d < 2 ^ 32" using unsigned_less [of d, where ?'a = nat] by simp
  have "unat (8 * of_nat j :: dma_addr) = 8 * j" using assms by (intro unat_8_mult) simp
  then have "unat (d + 8 * of_nat j) = (unat d + 8 * j) mod 2 ^ 32" by (simp only: unat_word_ariths) simp
  then have "unat (d + 8 * of_nat j) mod 4096 = (unat d + 8 * j) mod 4096"
    by (simp add: mod_mod_cancel)
  also have "\<dots> = (unat d mod 4096 + 8 * j) mod 4096" by (rule mod_add_left_eq [symmetric])
  also have "\<dots> = unat d mod 4096 + 8 * j" using assms by (intro mod_less) simp
  finally have eq: "unat (d + 8 * of_nat j) mod 4096 = unat d mod 4096 + 8 * j" .
  have "8 * (m - j) \<le> 4096 - (unat d mod 4096 + 8 * j)" using assms by simp
  then show ?thesis unfolding page_room_def eq by (metis div_le_mono nonzero_mult_div_cancel_left zero_neq_numeral)
qed

lemma ctrl_list_block:
  assumes "\<And>j. j < m \<Longrightarrow> list_word bs (d + 8 * of_nat j) = Some (es ! j)" "j + n \<le> m" "m \<le> length es"
    "unat d mod 4096 + 8 * m \<le> 4096" "0 < n"
  shows "ctrl_list bs n (d + 8 * of_nat j) = Some (take n (drop j es))"
proof -
  have "n \<le> page_room (d + 8 * of_nat j)" using page_room_ge [OF assms(4), of j] assms(2,5) by simp
  with words_from_block [OF assms(1-3)] show ?thesis by (subst ctrl_list.simps) simp
qed

section \<open>The states of the splitting loop\<close>

text \<open>The loop, with an invariant I for its k-th round and a property R of the k-th command.\<close>

lemma split_cmds_run:
  assumes remaining: "\<And>k sp. I k sp \<Longrightarrow> unat (sp_remaining sp) + 32 * k = unat nb"
    and step: "\<And>k sp. I k sp \<Longrightarrow> 32 * Suc k \<le> unat nb \<Longrightarrow>
      \<exists>sp'. split_advance entry sp = Some sp' \<and> I (Suc k) sp'"
    and middle: "\<And>k sp. I k sp \<Longrightarrow> 32 * Suc k \<le> unat nb \<Longrightarrow> R k (sp_slba sp, 31, sp_prp1 sp, sp_prp2 sp)"
    and last_two: "\<And>k sp. I k sp \<Longrightarrow> sp_remaining sp = 1 \<Longrightarrow> nb > 1 \<Longrightarrow>
      \<exists>e. entry (sp_page_count sp) (sp_offset sp + 1) = Some e
        \<and> R k (sp_slba sp, 1, sp_prp1 sp, ucast e)"
    and last_cmd: "\<And>k sp. I k sp \<Longrightarrow> sp_remaining sp < 32 \<Longrightarrow> \<not> (sp_remaining sp = 1 \<and> nb > 1) \<Longrightarrow>
      R k (sp_slba sp, sp_remaining sp, sp_prp1 sp, sp_prp2 sp)"
    and start: "I k sp"
  shows "\<exists>cs. split_cmds entry nb sp = Some cs \<and> length cs + k = unat nb div 32 + 1
    \<and> (\<forall>j<length cs. R (k + j) (cs ! j))"
  using start
proof (induction "unat (sp_remaining sp)" arbitrary: k sp rule: less_induct)
  case less
  note rem = remaining [OF less.prems]
  show ?case
  proof (cases "sp_remaining sp < 32")
    case True
    then have "unat (sp_remaining sp) < 32" by (simp add: word_less_nat_alt)
    with rem have "unat nb div 32 = k" by (intro div_nat_eqI) auto
    with True last_two [OF less.prems] last_cmd [OF less.prems True] show ?thesis
      by (subst split_cmds.simps) (auto simp: less_Suc_eq_0_disj)
  next
    case False
    then have ge: "32 \<le> unat (sp_remaining sp)" by (simp add: word_less_nat_alt not_less)
    with rem have more: "32 * Suc k \<le> unat nb" by simp
    from step [OF less.prems more] obtain sp' where sp': "split_advance entry sp = Some sp'" "I (Suc k) sp'"
      by blast
    have "unat (sp_remaining sp') < unat (sp_remaining sp)"
      using rem remaining [OF sp'(2)] by simp
    from less.hyps [OF this sp'(2)] obtain cs where cs: "split_cmds entry nb sp' = Some cs"
        "length cs + Suc k = unat nb div 32 + 1" "\<forall>j<length cs. R (Suc k + j) (cs ! j)"
      by blast
    have "R (k + j) (((sp_slba sp, 31, sp_prp1 sp, sp_prp2 sp) # cs) ! j)" if "j < Suc (length cs)" for j
      using that cs(3) middle [OF less.prems more] by (cases j) auto
    with sp'(1) False cs(1,2) show ?thesis by (subst split_cmds.simps) auto
  qed
qed

text \<open>What a command must do: the k-th 32-block part of the pages P.\<close>

definition part_cmd :: "prp_block list \<Rightarrow> u64 \<Rightarrow> u64 list \<Rightarrow> nat \<Rightarrow> split_cmd \<Rightarrow> bool" where
  "part_cmd bs slba P k c =
     (let (s, l, prp1, prp2) = c
      in s = slba + of_nat (32 * k) \<and> unat l + 1 = min 32 (length P - 32 * k)
         \<and> ctrl_read bs prp1 prp2 (unat l + 1) = Some (take 32 (drop (32 * k) P)))"

lemma take_drop_shift:
  assumes "a + m \<le> length xs" "b + m \<le> length ys" "\<And>i. i < m \<Longrightarrow> xs ! (a + i) = ys ! (b + i)"
  shows "take m (drop a xs) = take m (drop b ys)"
  using assms by (intro nth_equalityI) auto

lemma part_cmdI:
  assumes "s = slba + of_nat (32 * k)" "unat l + 1 = min 32 (length P - 32 * k)" "ucast prp1 = P ! (32 * k)"
    "unat l = 1 \<Longrightarrow> ucast prp2 = P ! (32 * k + 1)"
    "2 \<le> unat l \<Longrightarrow> ctrl_list bs (unat l) prp2 = Some (take (unat l) (drop (32 * k + 1) P))"
  shows "part_cmd bs slba P k (s, l, prp1, prp2)"
proof -
  let ?n = "unat l + 1"
  have n: "32 * k + ?n \<le> length P" using assms(2) by simp
  have "take 32 (drop (32 * k) P) = take ?n (drop (32 * k) P)"
    using assms(2) by (auto simp: min_def split: if_splits)
  also have "\<dots> = P ! (32 * k) # take (unat l) (drop (32 * k + 1) P)"
    using n by (simp add: Cons_nth_drop_Suc [symmetric])
  finally have eq: "take 32 (drop (32 * k) P) = P ! (32 * k) # take (unat l) (drop (32 * k + 1) P)" .
  have one: "take 1 (drop (32 * k + 1) P) = [P ! (32 * k + 1)]" if "unat l = 1"
    using n that by (simp add: take_Suc_conv_app_nth)
  consider "unat l = 0" | "unat l = 1" | "2 \<le> unat l" by linarith
  then have "ctrl_read bs prp1 prp2 ?n = Some (take 32 (drop (32 * k) P))"
  proof cases
    case 1
    then show ?thesis using assms(3) by (simp add: ctrl_read_def eq)
  next
    case 2
    then show ?thesis using assms(3,4) one by (simp add: ctrl_read_def eq)
  next
    case 3
    then show ?thesis using assms(3,5) by (simp add: ctrl_read_def eq)
  qed
  with assms(1,2) show ?thesis by (simp add: part_cmd_def)
qed

definition split_common :: "nvme_user_io \<Rightarrow> u64 list \<Rightarrow> nat \<Rightarrow> split_state \<Rightarrow> bool" where
  "split_common io P k sp \<longleftrightarrow> unat (sp_remaining sp) + 32 * k = unat (uio_nblocks io)
     \<and> sp_slba sp = uio_slba io + of_nat (32 * k) \<and> ucast (sp_prp1 sp) = P ! (32 * k)"

definition pos_one :: "dma_addr \<Rightarrow> nat \<Rightarrow> split_state \<Rightarrow> bool" where
  "pos_one d k sp \<longleftrightarrow> sp_page_count sp = 0 \<and> sp_offset sp = 32 * int k - 1
     \<and> sp_prp2 sp = d + 8 * of_nat (32 * k)"

definition pos_two :: "dma_addr \<Rightarrow> nat \<Rightarrow> split_state \<Rightarrow> bool" where
  "pos_two d' k sp \<longleftrightarrow> 16 \<le> k \<and> sp_page_count sp = 1 \<and> sp_offset sp = 32 * (int k - 16) \<and> sp_pages sp = 1
     \<and> sp_prp2 sp = d' + 8 * of_nat (1 + 32 * (k - 16))"

lemma advance_same_page:
  assumes "split_common io P k sp" "32 * Suc k \<le> unat (uio_nblocks io)"
    "\<not> (sp_offset sp = 479 \<and> 1 < sp_pages sp)"
    "entry (sp_page_count sp) (sp_offset sp + 32) = Some (P ! (32 * Suc k))" "P ! (32 * Suc k) < 2 ^ 32"
  shows "\<exists>sp'. split_advance entry sp = Some sp' \<and> split_common io P (Suc k) sp'
    \<and> sp_page_count sp' = sp_page_count sp \<and> sp_offset sp' = sp_offset sp + 32 \<and> sp_pages sp' = sp_pages sp
    \<and> sp_prp2 sp' = sp_prp2 sp + 256"
proof -
  have "32 \<le> sp_remaining sp" using assms(1,2) by (simp add: split_common_def word_le_nat_alt)
  then have "unat (sp_remaining sp - 32) = unat (sp_remaining sp) - 32" "32 \<le> unat (sp_remaining sp)"
    by (simp_all add: unat_sub word_le_nat_alt)
  then show ?thesis using assms
    by (auto simp: split_advance_def split_common_def Let_def ucast_u64_dma)
qed

lemma entry_one:
  assumes "one_block iod P d es" "Suc j < length P"
  shows "prp_entry iod 0 (int j) = Some (P ! Suc j)"
  using assms by (auto simp: one_block_def prp_entry_def)

lemma entry_two:
  assumes "two_blocks iod P d es d' es'"
  shows "j < 511 \<Longrightarrow> prp_entry iod 0 (int j) = Some (P ! Suc j)"
    "prp_entry iod 0 511 = Some (ucast d')"
    "512 + j < length P \<Longrightarrow> prp_entry iod 1 (int j) = Some (P ! (512 + j))"
  using assms by (auto simp: two_blocks_def prp_entry_def)

lemma read_one:
  assumes "one_block iod P d es" "32 * k + n < length P" "0 < n"
  shows "ctrl_list (iod_blocks iod) n (d + 8 * of_nat (32 * k)) = Some (take n (drop (32 * k + 1) P))"
proof -
  have es: "length P - 1 \<le> length es" "unat d mod 4096 + 8 * length es \<le> 4096" "iod_blocks iod = [(d, es)]"
      "\<forall>j. Suc j < length P \<longrightarrow> es ! j = P ! Suc j"
    using assms(1) by (auto simp: one_block_def)
  then have "length es \<le> 512" by simp
  then have "ctrl_list (iod_blocks iod) n (d + 8 * of_nat (32 * k)) = Some (take n (drop (32 * k) es))"
    unfolding es(3) using es(1,2) assms(2,3)
    by (intro ctrl_list_block [where m = "length es"]) (auto simp: list_word_first)
  also have "take n (drop (32 * k) es) = take n (drop (32 * k + 1) P)"
    using es(1,4) assms(2) by (intro take_drop_shift) auto
  finally show ?thesis .
qed

lemma read_two_first:
  assumes "two_blocks iod P d es d' es'" "32 * k + n \<le> 511" "0 < n"
  shows "ctrl_list (iod_blocks iod) n (d + 8 * of_nat (32 * k)) = Some (take n (drop (32 * k + 1) P))"
proof -
  have es: "length es = 512" "unat d mod 4096 = 0" "iod_blocks iod = [(d, es), (d', es')]" "513 < length P"
      "\<forall>j<511. es ! j = P ! Suc j"
    using assms(1) by (auto simp: two_blocks_def)
  have "ctrl_list (iod_blocks iod) n (d + 8 * of_nat (32 * k)) = Some (take n (drop (32 * k) es))"
    unfolding es(3) using es(1,2) assms(2,3)
    by (intro ctrl_list_block [where m = 512]) (auto simp: list_word_first)
  also have "take n (drop (32 * k) es) = take n (drop (32 * k + 1) P)"
    using es(1,4,5) assms(2) by (intro take_drop_shift) auto
  finally show ?thesis .
qed

lemma read_two_second:
  assumes "two_blocks iod P d es d' es'" "513 + j + n \<le> length P" "0 < n"
  shows "ctrl_list (iod_blocks iod) n (d' + 8 * of_nat (1 + j)) = Some (take n (drop (513 + j) P))"
proof -
  have es: "length es = 512" "length es' = 512" "unat d mod 4096 = 0" "unat d' mod 4096 = 0" "d \<noteq> d'"
      "iod_blocks iod = [(d, es), (d', es')]" "length P \<le> 1024"
      "\<forall>j. 512 + j < length P \<longrightarrow> es' ! j = P ! (512 + j)"
    using assms(1) by (auto simp: two_blocks_def)
  have "ctrl_list (iod_blocks iod) n (d' + 8 * of_nat (1 + j)) = Some (take n (drop (1 + j) es'))"
    unfolding es(6) using es(2,4,7) assms(2,3) list_word_second [OF es(3-5,1,2)]
    by (intro ctrl_list_block [where m = 512]) auto
  also have "take n (drop (1 + j) es') = take n (drop (513 + j) P)"
    using es(2,7,8) assms(2) by (intro take_drop_shift) (auto simp: add.assoc)
  finally show ?thesis .
qed

lemma last_count:
  assumes "unat l + 32 * k = unat (nb :: u16)" "length P = unat nb + 1" "l < (32 :: u16)"
  shows "unat l + 1 = min 32 (length P - 32 * k)"
  using assms by (auto simp: word_less_nat_alt min_def)

lemma split_one_block:
  assumes blk: "one_block iod P d es" and len: "length P = unat (uio_nblocks io) + 1" "3 \<le> length P"
    and small: "\<And>p. p \<in> set P \<Longrightarrow> p < 2 ^ 32" and start: "split_common io P 0 sp" "pos_one d 0 sp" "sp_pages sp \<le> 1"
  shows "\<exists>cs. split_cmds (prp_entry iod) (uio_nblocks io) sp = Some cs
    \<and> length cs = unat (uio_nblocks io) div 32 + 1
    \<and> (\<forall>j<length cs. part_cmd (iod_blocks iod) (uio_slba io) P j (cs ! j))"
proof -
  let ?I = "\<lambda>k sp. split_common io P k sp \<and> pos_one d k sp \<and> sp_pages sp \<le> 1"
  let ?nb = "uio_nblocks io"
  have "\<exists>cs. split_cmds (prp_entry iod) ?nb sp = Some cs \<and> length cs + 0 = unat ?nb div 32 + 1
      \<and> (\<forall>j<length cs. part_cmd (iod_blocks iod) (uio_slba io) P (0 + j) (cs ! j))"
  proof (rule split_cmds_run [where I = ?I])
    fix k sp assume I: "?I k sp"
    then show rem: "unat (sp_remaining sp) + 32 * k = unat ?nb" by (simp add: split_common_def)
    show "\<exists>sp'. split_advance (prp_entry iod) sp = Some sp' \<and> ?I (Suc k) sp'" if "32 * Suc k \<le> unat ?nb"
    proof -
      have e: "sp_offset sp + 32 = int (32 * k + 31)" "sp_page_count sp = 0" using I by (auto simp: pos_one_def)
      have "prp_entry iod (sp_page_count sp) (sp_offset sp + 32) = Some (P ! (32 * Suc k))"
        unfolding e using entry_one [OF blk, of "32 * k + 31"] that len by simp
      from advance_same_page [of io P k sp "prp_entry iod", OF _ that _ this] I small that len show ?thesis
        by (auto simp: pos_one_def algebra_simps)
    qed
    show "part_cmd (iod_blocks iod) (uio_slba io) P k (sp_slba sp, 31, sp_prp1 sp, sp_prp2 sp)"
      if "32 * Suc k \<le> unat ?nb"
      using I that len read_one [OF blk, of k 31]
      by (intro part_cmdI) (auto simp: split_common_def pos_one_def)
    show "\<exists>e. prp_entry iod (sp_page_count sp) (sp_offset sp + 1) = Some e
        \<and> part_cmd (iod_blocks iod) (uio_slba io) P k (sp_slba sp, 1, sp_prp1 sp, ucast e)"
      if "sp_remaining sp = 1"
    proof -
      have e: "sp_offset sp + 1 = int (32 * k)" "sp_page_count sp = 0" using I by (auto simp: pos_one_def)
      have n: "1 + 32 * k = unat ?nb" using rem that by simp
      have "prp_entry iod (sp_page_count sp) (sp_offset sp + 1) = Some (P ! (32 * k + 1))"
        unfolding e using entry_one [OF blk, of "32 * k"] n len by simp
      moreover have "part_cmd (iod_blocks iod) (uio_slba io) P k (sp_slba sp, 1, sp_prp1 sp, ucast (P ! (32 * k + 1)))"
        using I n len small [of "P ! (32 * k + 1)"]
        by (intro part_cmdI) (auto simp: split_common_def ucast_u64_dma)
      ultimately show ?thesis by blast
    qed
    show "part_cmd (iod_blocks iod) (uio_slba io) P k (sp_slba sp, sp_remaining sp, sp_prp1 sp, sp_prp2 sp)"
      if "sp_remaining sp < 32" "\<not> (sp_remaining sp = 1 \<and> 1 < ?nb)"
    proof -
      have "unat (sp_remaining sp) \<noteq> 1"
        using that(2) rem len by (auto simp: word_less_nat_alt word_unat_eq_iff)
      then show ?thesis
        using I rem len that(1) read_one [OF blk, of k "unat (sp_remaining sp)"] last_count [OF rem len(1) that(1)]
        by (intro part_cmdI) (auto simp: split_common_def pos_one_def)
    qed
  qed (use start in auto)
  then show ?thesis by simp
qed

text \<open>Two list pages: the sixteenth advance follows the link to the second page.\<close>

definition pos_both :: "dma_addr \<Rightarrow> dma_addr \<Rightarrow> nat \<Rightarrow> split_state \<Rightarrow> bool" where
  "pos_both d d' k sp \<longleftrightarrow> (if k < 16 then pos_one d k sp \<and> sp_pages sp = 2 else pos_two d' k sp)"

lemma advance_next_page:
  assumes "split_common io P 15 sp" "pos_one d 15 sp" "sp_pages sp = 2" "512 \<le> unat (uio_nblocks io)"
    "two_blocks iod P d es d' es'" "P ! 512 < 2 ^ 32"
  shows "\<exists>sp'. split_advance (prp_entry iod) sp = Some sp' \<and> split_common io P 16 sp' \<and> pos_two d' 16 sp'"
proof -
  have "32 \<le> sp_remaining sp" using assms(1,4) by (simp add: split_common_def word_le_nat_alt)
  then have "unat (sp_remaining sp - 32) = unat (sp_remaining sp) - 32" "32 \<le> unat (sp_remaining sp)"
    by (simp_all add: unat_sub word_le_nat_alt)
  moreover have "prp_entry iod 1 0 = Some (P ! 512)"
    using entry_two(3) [OF assms(5), of 0] assms(5) by (simp add: two_blocks_def)
  ultimately show ?thesis using assms entry_two(2) [OF assms(5)]
    by (auto simp: split_advance_def split_common_def pos_one_def pos_two_def Let_def ucast_u64_dma)
qed

lemma advance_both:
  assumes "two_blocks iod P d es d' es'" "length P = unat (uio_nblocks io) + 1" "\<And>p. p \<in> set P \<Longrightarrow> p < 2 ^ 32"
    "split_common io P k sp" "pos_both d d' k sp" "32 * Suc k \<le> unat (uio_nblocks io)"
  shows "\<exists>sp'. split_advance (prp_entry iod) sp = Some sp' \<and> split_common io P (Suc k) sp' \<and> pos_both d d' (Suc k) sp'"
proof -
  have small: "P ! (32 * Suc k) < 2 ^ 32" using assms(2,3,6) by simp
  consider "k < 15" | "k = 15" | "16 \<le> k" by linarith
  then show ?thesis
  proof cases
    case 1
    then have e: "sp_offset sp + 32 = int (32 * k + 31)" "sp_page_count sp = 0"
      using assms(5) by (auto simp: pos_both_def pos_one_def)
    have "prp_entry iod (sp_page_count sp) (sp_offset sp + 32) = Some (P ! (32 * Suc k))"
      unfolding e using entry_two(1) [OF assms(1), of "32 * k + 31"] 1 by simp
    moreover have "sp_offset sp \<noteq> 479" using e 1 by simp
    ultimately obtain sp' where "split_advance (prp_entry iod) sp = Some sp'" "split_common io P (Suc k) sp'"
        "sp_page_count sp' = sp_page_count sp" "sp_offset sp' = sp_offset sp + 32" "sp_pages sp' = sp_pages sp"
        "sp_prp2 sp' = sp_prp2 sp + 256"
      using advance_same_page [of io P k sp "prp_entry iod", OF assms(4,6)] small by blast
    with assms(5) 1 show ?thesis by (auto simp: pos_both_def pos_one_def algebra_simps)
  next
    case 2
    with assms(4-6) small advance_next_page [of io P sp d iod es d' es'] assms(1) show ?thesis
      by (auto simp: pos_both_def)
  next
    case 3
    then have e: "sp_offset sp + 32 = int (32 * (k - 16) + 32)" "sp_page_count sp = 1" "sp_pages sp = 1"
      using assms(5) by (auto simp: pos_both_def pos_two_def)
    have j: "512 + (32 * (k - 16) + 32) = 32 * Suc k" using 3 by simp
    have "32 * Suc k < length P" using assms(2,6) by simp
    then have "prp_entry iod (sp_page_count sp) (sp_offset sp + 32) = Some (P ! (32 * Suc k))"
      unfolding e by (rule entry_two(3) [OF assms(1), of "32 * (k - 16) + 32", unfolded j])
    then obtain sp' where "split_advance (prp_entry iod) sp = Some sp'" "split_common io P (Suc k) sp'"
        "sp_page_count sp' = sp_page_count sp" "sp_offset sp' = sp_offset sp + 32" "sp_pages sp' = sp_pages sp"
        "sp_prp2 sp' = sp_prp2 sp + 256"
      using advance_same_page [of io P k sp "prp_entry iod", OF assms(4,6)] small e(3) by auto
    moreover have "8 * of_nat (1 + 32 * (Suc k - 16)) = (8 * of_nat (1 + 32 * (k - 16)) + 256 :: dma_addr)"
      using 3 by (simp add: Suc_diff_le algebra_simps)
    ultimately show ?thesis using assms(5) 3 by (auto simp: pos_both_def pos_two_def algebra_simps)
  qed
qed

lemma read_both:
  assumes "two_blocks iod P d es d' es'" "pos_both d d' k sp" "32 * k + n < length P" "0 < n" "n \<le> 31"
  shows "ctrl_list (iod_blocks iod) n (sp_prp2 sp) = Some (take n (drop (32 * k + 1) P))"
proof (cases "k < 16")
  case True
  with assms(2) read_two_first [OF assms(1), of k n] assms(4,5) show ?thesis
    by (simp add: pos_both_def pos_one_def)
next
  case False
  then have "513 + 32 * (k - 16) = 32 * k + 1" by simp
  with False assms(2) read_two_second [OF assms(1), of "32 * (k - 16)" n] assms(3,4) show ?thesis
    by (simp add: pos_both_def pos_two_def)
qed

lemma split_two_blocks:
  assumes blk: "two_blocks iod P d es d' es'" and len: "length P = unat (uio_nblocks io) + 1"
    and small: "\<And>p. p \<in> set P \<Longrightarrow> p < 2 ^ 32" and start: "split_common io P 0 sp" "pos_one d 0 sp" "sp_pages sp = 2"
  shows "\<exists>cs. split_cmds (prp_entry iod) (uio_nblocks io) sp = Some cs
    \<and> length cs = unat (uio_nblocks io) div 32 + 1
    \<and> (\<forall>j<length cs. part_cmd (iod_blocks iod) (uio_slba io) P j (cs ! j))"
proof -
  let ?I = "\<lambda>k sp. split_common io P k sp \<and> pos_both d d' k sp"
  let ?nb = "uio_nblocks io"
  have many: "513 \<le> unat ?nb" using blk len by (simp add: two_blocks_def)
  have "\<exists>cs. split_cmds (prp_entry iod) ?nb sp = Some cs \<and> length cs + 0 = unat ?nb div 32 + 1
      \<and> (\<forall>j<length cs. part_cmd (iod_blocks iod) (uio_slba io) P (0 + j) (cs ! j))"
  proof (rule split_cmds_run [where I = ?I])
    fix k sp assume I: "?I k sp"
    then show rem: "unat (sp_remaining sp) + 32 * k = unat ?nb" by (simp add: split_common_def)
    show "\<exists>sp'. split_advance (prp_entry iod) sp = Some sp' \<and> ?I (Suc k) sp'" if "32 * Suc k \<le> unat ?nb"
      using advance_both [of iod P d es d' es' io k sp] blk len small I that by blast
    show "part_cmd (iod_blocks iod) (uio_slba io) P k (sp_slba sp, 31, sp_prp1 sp, sp_prp2 sp)"
      if "32 * Suc k \<le> unat ?nb"
      using I that len read_both [OF blk, of k sp 31]
      by (intro part_cmdI) (auto simp: split_common_def)
    show "\<exists>e. prp_entry iod (sp_page_count sp) (sp_offset sp + 1) = Some e
        \<and> part_cmd (iod_blocks iod) (uio_slba io) P k (sp_slba sp, 1, sp_prp1 sp, ucast e)"
      if "sp_remaining sp = 1"
    proof -
      have n: "1 + 32 * k = unat ?nb" using rem that by simp
      with many have k: "16 \<le> k" by simp
      with I have e: "sp_offset sp + 1 = int (32 * (k - 16) + 1)" "sp_page_count sp = 1"
        by (auto simp: pos_both_def pos_two_def)
      have j: "512 + (32 * (k - 16) + 1) = 32 * k + 1" using k by simp
      have "32 * k + 1 < length P" using n len by simp
      then have "prp_entry iod (sp_page_count sp) (sp_offset sp + 1) = Some (P ! (32 * k + 1))"
        unfolding e by (rule entry_two(3) [OF blk, of "32 * (k - 16) + 1", unfolded j])
      moreover have "part_cmd (iod_blocks iod) (uio_slba io) P k (sp_slba sp, 1, sp_prp1 sp, ucast (P ! (32 * k + 1)))"
        using I n len small [of "P ! (32 * k + 1)"]
        by (intro part_cmdI) (auto simp: split_common_def ucast_u64_dma)
      ultimately show ?thesis by blast
    qed
    show "part_cmd (iod_blocks iod) (uio_slba io) P k (sp_slba sp, sp_remaining sp, sp_prp1 sp, sp_prp2 sp)"
      if "sp_remaining sp < 32" "\<not> (sp_remaining sp = 1 \<and> 1 < ?nb)"
    proof -
      have "unat (sp_remaining sp) \<noteq> 1"
        using that(2) many by (auto simp: word_less_nat_alt word_unat_eq_iff)
      moreover have "unat (sp_remaining sp) < 32" using that(1) by (simp add: word_less_nat_alt)
      ultimately show ?thesis
        using I rem len read_both [OF blk, of k sp "unat (sp_remaining sp)"] last_count [OF rem len that(1)]
        by (intro part_cmdI) (auto simp: split_common_def)
    qed
  qed (use start in \<open>auto simp: pos_both_def\<close>)
  then show ?thesis by simp
qed

section \<open>From the descriptor to the commands\<close>

lemma prp_walk_length: "prp_walk mem n a = Some ws \<Longrightarrow> length ws = n"
proof (induction mem n a arbitrary: ws rule: prp_walk.induct)
  case (1 mem n a)
  from 1(2) show ?case
    by (subst (asm) prp_walk.simps) (auto split: option.splits if_splits dest!: 1(1))
qed

lemma controller_pages_aligned:
  assumes "controller_pages mem prp1 prp2 (4096 * (int n + 1)) = Some P" "uint prp1 mod 4096 = 0"
  shows "length P = n + 1" "P ! 0 = ucast prp1" "n = 1 \<Longrightarrow> P ! 1 = ucast prp2"
    "pages_for 4096 (4096 * (int n + 1) - first_bytes prp1) = n"
proof -
  show n: "pages_for 4096 (4096 * (int n + 1) - first_bytes prp1) = n" using assms(2) by simp
  show "length P = n + 1" "P ! 0 = ucast prp1" "n = 1 \<Longrightarrow> P ! 1 = ucast prp2"
    using assms(1) unfolding controller_pages_def n
    by (auto simp: Let_def split: if_splits dest: prp_walk_length)
qed

lemma seg_pages_small:
  assumes "unat a + nat l \<le> 2 ^ 32" "p \<in> set (seg_pages 4096 a l)"
  shows "p < 2 ^ 32"
proof -
  obtain j where j: "p = a + of_nat j * 4096" "j < nat ((l + 4095) div 4096)"
    using assms(2) by (auto simp: seg_pages_def)
  from j(2) have "int j < (l + 4095) div 4096" by linarith
  then have "4096 * int j < l" by linarith
  then have lt: "unat a + 4096 * j < 2 ^ 32" using assms(1) by linarith
  have "p = of_nat (unat a + 4096 * j)" by (simp add: j(1))
  then have "unat p = unat a + 4096 * j" using lt by (simp only: unat_of_nat) simp
  with lt show ?thesis by (simp add: word_less_nat_alt)
qed

lemma unat_ucast_dma: "unat (ucast (a :: dma_addr) :: u64) = unat a"
  using unsigned_less [of a, where ?'a = nat] by (simp add: unsigned_ucast_eq take_bit_nat_eq_self)

lemma sg_expected_small:
  assumes "sg_covers sg tot" "p \<in> set (sg_expected sg tot)"
  shows "p < 2 ^ 32"
proof -
  obtain a l sgs where sg: "sg = (a, l) # sgs" using sg_covers_Cons [OF assms(1)] by blast
  have bound: "unat b + m \<le> 2 ^ 32" if "(b, m) \<in> set sg" for b m
    using assms(1) that by (auto simp: sg_covers_def)
  have "p \<in> {ucast a} \<union> set (seg_pages 4096 (ucast a + of_int (first_bytes a)) (int l - first_bytes a))
      \<union> set (sg_pages 4096 sgs)"
    using assms(2) by (auto simp: sg dest: in_set_takeD)
  then consider "p = ucast a"
    | "p \<in> set (seg_pages 4096 (ucast a + of_int (first_bytes a)) (int l - first_bytes a))"
    | b m where "(b, m) \<in> set sgs" "p \<in> set (seg_pages 4096 (ucast b) (int m))"
    by (auto simp: sg_pages_def)
  then show ?thesis
  proof cases
    case 1
    then show ?thesis using unsigned_less [of a, where ?'a = nat]
      by (simp add: word_less_nat_alt unat_ucast_dma)
  next
    case 2
    have len: "0 < int l - first_bytes a" using 2 by (cases "0 < int l - first_bytes a") (auto simp: seg_pages_def)
    have "(of_int (first_bytes a) :: u64) = of_nat (nat (first_bytes a))"
      using first_bytes_pos(1) [of a] by (metis of_int_of_nat_eq int_nat_eq less_imp_le)
    moreover have "(ucast a :: u64) = of_nat (unat a)" unfolding unat_ucast_dma [symmetric] by simp
    ultimately have "(ucast a + of_int (first_bytes a) :: u64) = of_nat (unat a + nat (first_bytes a))" by simp
    then have "unat (ucast a + of_int (first_bytes a) :: u64) \<le> unat a + nat (first_bytes a)"
      by (simp only: unat_of_nat mod_less_eq_dividend)
    moreover have "unat a + l \<le> 2 ^ 32" by (rule bound) (simp add: sg)
    ultimately show ?thesis using len first_bytes_pos(1) [of a] by (intro seg_pages_small [OF _ 2]) linarith
  next
    case 3
    then show ?thesis using bound [of b m] by (intro seg_pages_small [OF _ 3(2)]) (auto simp: sg unat_ucast_dma)
  qed
qed

text \<open>A descriptor of pages in the 32-bit bus address space, as the driver's dma_addr_t.\<close>

locale prp_descriptor_32 = prp_descriptor +
  assumes pages_small: "data_ok iod len \<Longrightarrow> p \<in> set (pages iod len) \<Longrightarrow> p < 2 ^ 32"
begin

lemma build_split:
  assumes "pool_ok palloc" "pool_aligned palloc" "iod_npages iod = -1"
    "data_ok iod (4096 * (int (unat (uio_nblocks io)) + 1))" "uint (prp1 iod) mod 4096 = 0" "uio_nblocks io \<le> 1023"
    "build palloc iod (4096 * (int (unat (uio_nblocks io)) + 1))
      = Some (4096 * (int (unat (uio_nblocks io)) + 1), iod')"
  shows "\<exists>cs. split_cmds (prp_entry iod') (uio_nblocks io)
        (split_init io (iod_npages iod') (prp1 iod) (prp2 iod')) = Some cs
    \<and> length cs = unat (uio_nblocks io) div 32 + 1
    \<and> (\<forall>j<length cs. part_cmd (iod_blocks iod') (uio_slba io)
          (pages iod (4096 * (int (unat (uio_nblocks io)) + 1))) j (cs ! j))"
proof -
  let ?n = "unat (uio_nblocks io)"
  define P where "P = pages iod (4096 * (int ?n + 1))"
  let ?sp = "split_init io (iod_npages iod') (prp1 iod) (prp2 iod')"
  from build_post [OF assms(1,3,4)] assms(7)
  have post: "setup_post palloc prp2 (prp1 iod) P (4096 * (int ?n + 1)) (4096 * (int ?n + 1), iod')"
    by (auto simp: P_def)
  then have cp: "controller_pages (map_of (iod_blocks iod')) (prp1 iod) (prp2 iod') (4096 * (int ?n + 1)) = Some P"
    by (simp add: setup_post_def)
  note P = controller_pages_aligned [OF cp assms(5)]
  have small: "p < 2 ^ 32" if "p \<in> set P" for p using pages_small [OF assms(4)] that by (simp add: P_def)
  have len: "?n \<le> 1023" using assms(6) by (simp add: word_le_nat_alt)
  have start: "split_common io P 0 ?sp" "pos_one (prp2 iod') 0 ?sp"
    using P(2) by (auto simp: split_common_def pos_one_def split_init_def)
  show ?thesis
  proof (cases "2 \<le> ?n")
    case True
    then have lay: "list_layout palloc prp2 (tl P) iod'" using post P(4) by (simp add: setup_post_def)
    have "length P \<le> 1024" "3 \<le> length P" using len True P(1) by linarith+
    from layout_cases [OF lay assms(1,2) this]
    consider es where "one_block iod' P (prp2 iod') es"
      | es d' es' where "two_blocks iod' P (prp2 iod') es d' es'"
      by blast
    then show ?thesis
    proof cases
      case 1
      then have "sp_pages ?sp \<le> 1" by (auto simp: one_block_def split_init_def)
      from split_one_block [OF 1 P(1) _ small start this] True P(1) show ?thesis by (simp add: P_def)
    next
      case 2
      then have "sp_pages ?sp = 2" by (auto simp: two_blocks_def split_init_def)
      from split_two_blocks [OF 2 P(1) small start this] show ?thesis by (simp add: P_def)
    qed
  next
    case False
    then have "?n = 0 \<or> ?n = 1" by linarith
    then have "uio_nblocks io = 0 \<or> uio_nblocks io = 1" by (auto simp: word_unat_eq_iff)
    then have run: "split_cmds (prp_entry iod') (uio_nblocks io) ?sp
        = Some [(uio_slba io, uio_nblocks io, prp1 iod, prp2 iod')]"
      by (subst split_cmds.simps) (auto simp: split_init_def)
    have "part_cmd (iod_blocks iod') (uio_slba io) P 0 (uio_slba io, uio_nblocks io, prp1 iod, prp2 iod')"
      using P False by (intro part_cmdI) auto
    with run False show ?thesis by (auto simp: P_def)
  qed
qed

end

interpretation sg_split: prp_descriptor_32
  "\<lambda>palloc. nvme_setup_prps palloc 4096" "\<lambda>iod. fst (hd (iod_sg iod))" iod_first_dma
  "\<lambda>iod. sg_expected (iod_sg iod)" "\<lambda>iod. sg_covers (iod_sg iod)" "nvme_free_iod 4096"
  "\<lambda>iod. if iod_should_kfree iod then [KfreeIod] else []"
  by unfold_locales (rule sg_expected_small)

interpretation phys_split: prp_descriptor_32
  "\<lambda>palloc iod tot. nvme_setup_phys_prps palloc 4096 iod tot a" "\<lambda>iod. a" pio_prp2
  "\<lambda>iod. seg_pages 4096 (ucast a)" "\<lambda>iod. phys_ok a" "nvme_free_phys_iod 4096" "\<lambda>iod. [KfreeIod]"
  for a
proof (unfold_locales, goal_cases)
  case (1 iod len p)
  then have "uint a + len \<le> 2 ^ 32" "0 < len" by (auto simp: phys_ok_def)
  then have "int (unat a + nat len) \<le> int (2 ^ 32)" by simp
  then have "unat a + nat len \<le> 2 ^ 32" by (simp only: zle_int)
  with 1 show ?case by (intro seg_pages_small [of "ucast a" len]) (auto simp: unat_ucast_dma)
qed

end
