(* ===== verification/Chario_Transfer.thy ===== *)
theory Chario_Transfer
  imports Chario_Split Nvme_Queues
begin

text \<open>
  A character-device transfer from the first command to the wake-up of the task: the commands of
  the splitting loop reach the submission queue in order and each with a tag of its own, their
  completions are counted in \<open>chario_cmd_info\<close>, and the last one, and no earlier one, wakes the task.
\<close>

section \<open>Submitting the commands of a transfer\<close>

fun submit_chario_all :: "nat \<Rightarrow> nvme_command list \<Rightarrow> nvme_dev \<Rightarrow> (int \<times> nvme_dev) option" where
  "submit_chario_all info [] dev = Some (0, dev)"
| "submit_chario_all info (c # cs) dev =
     do { (st, dev1) \<leftarrow> nvme_submit_chario_io_cmd c info dev;
          if st \<noteq> 0 then Some (st, dev1) else submit_chario_all info cs dev1 }"

lemma chario_cmd_status: "nvme_submit_chario_io_cmd c info dev = Some (st, dev') \<Longrightarrow> st = 0"
  by (auto simp: nvme_submit_chario_io_cmd_def nvme_submit_chario_cmd_def Let_def
      split: bind_splits if_splits)

lemma split_loop_no_error: "split_loop entry mk info sp dev \<noteq> Some (Inl st, dev')"
proof (induction entry mk info sp dev rule: split_loop.induct)
  case (1 entry mk info sp dev)
  then show ?case by (subst split_loop.simps) (auto split: option.splits dest: chario_cmd_status)
qed

text \<open>The loop and the last command submit exactly the commands of \<open>split_cmds\<close>, in order.\<close>

abbreviation cmd_of ::
  "(u64 \<Rightarrow> u16 \<Rightarrow> dma_addr \<Rightarrow> dma_addr \<Rightarrow> nvme_command) \<Rightarrow> split_cmd \<Rightarrow> nvme_command" where
  "cmd_of mk c \<equiv> (case c of (s, l, prp1, prp2) \<Rightarrow> mk s l prp1 prp2)"

lemma split_cmds_submit:
  assumes "split_cmds entry nb sp = Some cs" "submit_chario_all info (map (cmd_of mk) cs) dev = Some (st, dev')"
  shows "\<exists>sp1 dev2. split_loop entry mk info sp dev = Some (Inr sp1, dev2)
    \<and> split_last entry mk info nb sp1 dev2 = Some (0, dev')"
  using assms
proof (induction entry nb sp arbitrary: cs dev rule: split_cmds.induct)
  case (1 entry nb sp)
  show ?case
  proof (cases "sp_remaining sp < 32")
    case True
    then have "split_loop entry mk info sp dev = Some (Inr sp, dev)" by (subst split_loop.simps) simp
    moreover have "split_last entry mk info nb sp dev = Some (0, dev')"
      using "1.prems" True
      by (subst (asm) split_cmds.simps)
        (auto simp: split_last_def split: if_splits bind_splits dest: chario_cmd_status)
    ultimately show ?thesis by blast
  next
    case False
    with "1.prems"(1) obtain sp1 cs1 where sp1: "split_advance entry sp = Some sp1"
        "split_cmds entry nb sp1 = Some cs1" "cs = (sp_slba sp, 31, sp_prp1 sp, sp_prp2 sp) # cs1"
      by (subst (asm) split_cmds.simps) (auto split: option.splits)
    from "1.prems"(2) sp1(3) obtain dev1 where
        "nvme_submit_chario_io_cmd (mk (sp_slba sp) 31 (sp_prp1 sp) (sp_prp2 sp)) info dev = Some (0, dev1)"
        "submit_chario_all info (map (cmd_of mk) cs1) dev1 = Some (st, dev')"
      by (auto split: bind_splits if_splits dest: chario_cmd_status)
    with "1.IH" [OF False sp1(1,2)] False sp1(1) show ?thesis by (subst split_loop.simps) auto
  qed
qed

section \<open>What a submission leaves in the queue\<close>

definition armed :: "nat \<Rightarrow> nvme_cmd_info option \<Rightarrow> bool" where
  "armed info slot \<longleftrightarrow> (\<exists>ci. slot = Some ci \<and> ci_fn ci = Some chario_completion_fn \<and> ci_ctx ci = CtxChario info)"

lemma submit_chario_step:
  assumes "get_queue dev 1 = Some q" "sq_ok q" "q_next_chario_tag q = int t" "t < length (q_chario_cmds q)"
    "q_chario_cmds q ! t \<noteq> None"
  shows "\<exists>dev' q'. nvme_submit_chario_io_cmd c info dev = Some (0, dev') \<and> get_queue dev' 1 = Some q'
    \<and> sq_ok q' \<and> q_depth q' = q_depth q \<and> q_qid q' = q_qid q \<and> q_next_chario_tag q' = int (Suc t)
    \<and> sq_push (set_command_id (of_nat t) c) q = Some (q'\<lparr>q_next_chario_tag := int t, q_chario_cmds := q_chario_cmds q\<rparr>)
    \<and> (\<exists>slot. armed info slot \<and> q_chario_cmds q' = (q_chario_cmds q)[t := slot])
    \<and> d_chario dev' = d_chario dev
    \<and> d_log dev' = d_log dev @ [Writel (q_db q) (ucast (q_sq_tail q'))]"
proof -
  obtain ci where ci: "q_chario_cmds q ! t = Some ci" using assms(5) by auto
  let ?slot = "ci\<lparr>ci_fn := Some chario_completion_fn, ci_ctx := CtxChario info, ci_aborted := 0, ci_nvmeq := Some 1\<rparr>"
  let ?q1 = "q\<lparr>q_next_chario_tag := int t + 1, q_chario_cmds := (q_chario_cmds q)[t := Some ?slot]\<rparr>"
  let ?c = "set_command_id (of_nat t) c"
  let ?q2 = "?q1\<lparr>q_sq_cmds := (q_sq_cmds q)[unat (q_sq_tail q) := ?c], q_sq_tail := sq_next (q_depth q) (q_sq_tail q)\<rparr>"
  have tail: "unat (q_sq_tail q) < length (q_sq_cmds q)" using assms(2) by (simp add: sq_ok_def word_less_nat_alt)
  then have push: "sq_push ?c ?q1 = Some ?q2" "sq_push ?c q = Some (?q2\<lparr>q_next_chario_tag := int t,
      q_chario_cmds := q_chario_cmds q\<rparr>)"
    using assms(3) by (auto simp: sq_push_def Let_def)
  let ?dev2 = "put_queue 1 ?q2 (kernel_log [Writel (q_db q) (ucast (sq_next (q_depth q) (q_sq_tail q)))]
      (put_queue 1 ?q1 dev))"
  have "nvme_submit_chario_io_cmd c info dev = Some (0, ?dev2)"
    using assms(1,3,4) ci push(1)
    by (simp add: nvme_submit_chario_io_cmd_def nvme_submit_chario_cmd_def nvme_submit_cmd_chario_def
        submit_cmd_locked_def Let_def)
  moreover have "sq_ok ?q2" using assms(2) sq_next_less by (auto simp: sq_ok_def)
  moreover have "get_queue ?dev2 1 = Some ?q2" using assms(1) by simp
  moreover have "armed info (Some ?slot)" by (simp add: armed_def)
  ultimately show ?thesis using push(2) by (intro exI [of _ ?dev2] exI [of _ ?q2]) auto
qed

definition tagged :: "nat \<Rightarrow> nvme_command list \<Rightarrow> nvme_command list" where
  "tagged t cs = map (\<lambda>j. set_command_id (of_nat (t + j)) (cs ! j)) [0..<length cs]"

lemma tagged_Cons: "tagged t (c # cs) = set_command_id (of_nat t) c # tagged (Suc t) cs"
  by (simp add: tagged_def upt_conv_Cons map_Suc_upt [symmetric] add.left_commute del: upt_Suc)

lemma sq_view_update [simp]:
  "sq_view h (q\<lparr>q_next_chario_tag := t, q_chario_cmds := s\<rparr>) = sq_view h q"
  by (simp add: sq_view_def sq_used_def)

lemma submit_chario_all_ok:
  assumes "get_queue dev 1 = Some q" "sq_ok q" "h < unat (q_depth q)"
    "length (sq_view h q) + length cs < unat (q_depth q)" "q_next_chario_tag q = int t"
    "t + length cs \<le> length (q_chario_cmds q)" "\<And>j. t \<le> j \<Longrightarrow> j < length (q_chario_cmds q) \<Longrightarrow> q_chario_cmds q ! j \<noteq> None"
  shows "\<exists>dev' q'. submit_chario_all info cs dev = Some (0, dev') \<and> get_queue dev' 1 = Some q'
    \<and> sq_ok q' \<and> q_depth q' = q_depth q \<and> q_qid q' = q_qid q \<and> sq_view h q' = sq_view h q @ tagged t cs
    \<and> q_next_chario_tag q' = int (t + length cs) \<and> length (q_chario_cmds q') = length (q_chario_cmds q)
    \<and> (\<forall>j. q_chario_cmds q' ! j = (q_chario_cmds q) ! j \<or> t \<le> j \<and> j < t + length cs)
    \<and> (\<forall>j. t \<le> j \<and> j < t + length cs \<longrightarrow> armed info (q_chario_cmds q' ! j))
    \<and> d_chario dev' = d_chario dev \<and> (\<exists>ws. d_log dev' = d_log dev @ ws \<and> length ws = length cs)"
  using assms
proof (induction cs arbitrary: dev q t)
  case Nil
  then show ?case by (auto simp: tagged_def)
next
  case (Cons c cs)
  from submit_chario_step [of dev q t c info] Cons.prems obtain dev1 q1 slot where
      d: "nvme_submit_chario_io_cmd c info dev = Some (0, dev1)" "get_queue dev1 1 = Some q1"
      "sq_ok q1" "q_depth q1 = q_depth q" "q_qid q1 = q_qid q" "q_next_chario_tag q1 = int (Suc t)"
      "sq_push (set_command_id (of_nat t) c) q = Some (q1\<lparr>q_next_chario_tag := int t, q_chario_cmds := q_chario_cmds q\<rparr>)"
      "armed info slot" "q_chario_cmds q1 = (q_chario_cmds q)[t := slot]" "d_chario dev1 = d_chario dev"
      "d_log dev1 = d_log dev @ [Writel (q_db q) (ucast (q_sq_tail q1))]"
    by auto
  have v: "sq_view h q1 = sq_view h q @ [set_command_id (of_nat t) c]"
    using sq_push_view [OF Cons.prems(2,3) _ d(7)] Cons.prems(4) by simp
  from Cons.IH [of dev1 q1 "Suc t"] d v Cons.prems obtain dev' q' ws where
      r: "submit_chario_all info cs dev1 = Some (0, dev')" "get_queue dev' 1 = Some q'" "sq_ok q'"
      "q_depth q' = q_depth q1" "q_qid q' = q_qid q1" "sq_view h q' = sq_view h q1 @ tagged (Suc t) cs"
      "q_next_chario_tag q' = int (Suc t + length cs)" "length (q_chario_cmds q') = length (q_chario_cmds q1)"
      "\<forall>j. q_chario_cmds q' ! j = (q_chario_cmds q1) ! j \<or> Suc t \<le> j \<and> j < Suc t + length cs"
      "\<forall>j. Suc t \<le> j \<and> j < Suc t + length cs \<longrightarrow> armed info (q_chario_cmds q' ! j)"
      "d_chario dev' = d_chario dev1" "d_log dev' = d_log dev1 @ ws" "length ws = length cs"
    by auto
  have t: "t < length (q_chario_cmds q)" using Cons.prems(6) by simp
  have old: "q_chario_cmds q' ! j = q_chario_cmds q ! j \<or> t \<le> j \<and> j < t + length (c # cs)" for j
    using r(9) [rule_format, of j] d(9) by (cases "j = t") auto
  have arm: "armed info (q_chario_cmds q' ! j)" if "t \<le> j" "j < t + length (c # cs)" for j
    using r(9) [rule_format, of j] r(10) [rule_format, of j] that d(8,9) t by (cases "j = t") auto
  show ?case
    using d(1,4,5,9-11) r(1-8,11-13) v old arm
    by (intro exI [of _ dev'] exI [of _ q']) (simp add: tagged_Cons)
qed

section \<open>Completions\<close>

text \<open>The slots T hold commands of the transfer \<open>info\<close> that are under way.\<close>

definition in_flight :: "nat \<Rightarrow> nat set \<Rightarrow> nvme_queue \<Rightarrow> bool" where
  "in_flight info T q \<longleftrightarrow> q_qid q \<noteq> 0 \<and> length (q_chario_cmds q) = 32 \<and> 31 < unat (q_depth q)
     \<and> (\<forall>t\<in>T. t < 32 \<and> armed info (q_chario_cmds q ! t))"

abbreviation cqe_tag :: "nvme_completion \<Rightarrow> nat" where
  "cqe_tag cqe \<equiv> unat (cqe_command_id cqe)"

lemma consume_chario:
  assumes "get_queue dev 1 = Some q" "in_flight info T q" "cqe_tag cqe \<in> T" "d_chario dev info = Some ci"
  shows "\<exists>dev' q'. cq_consume 1 cqe dev = Some dev' \<and> get_queue dev' 1 = Some q'
    \<and> in_flight info (T - {cqe_tag cqe}) q'
    \<and> d_chario dev' info = Some (ci\<lparr>chario_remaining := chario_remaining ci - 32\<rparr>)
    \<and> d_log dev' = d_log dev @ (if chario_remaining ci < 32 then [WakeUpProcess (chario_task ci)] else [])"
proof -
  let ?t = "cqe_tag cqe" and ?q0 = "q\<lparr>q_sq_head := cqe_sq_head cqe\<rparr>"
  have t: "?t < 32" "armed info (q_chario_cmds q ! ?t)" using assms(2,3) by (auto simp: in_flight_def)
  then obtain slot where slot: "q_chario_cmds q ! ?t = Some slot" "ci_fn slot = Some chario_completion_fn"
      "ci_ctx slot = CtxChario info"
    by (auto simp: armed_def)
  let ?q1 = "?q0\<lparr>q_chario_cmds := (q_chario_cmds q)[?t := Some (finished slot)]\<rparr>"
  let ?dev1 = "put_queue 1 ?q1 (put_queue 1 ?q0 dev)"
  have "nvme_finish_cmd 1 ?t (put_queue 1 ?q0 dev) = Some (CtxChario info, Some chario_completion_fn, ?dev1)"
    using assms(1,2) t(1) slot by (auto simp: nvme_finish_cmd_def in_flight_def)
  then have "cq_consume 1 cqe dev = chario_completion (CtxChario info) cqe ?dev1"
    using assms(1) by (simp add: cq_consume_def)
  moreover have "in_flight info (T - {?t}) ?q1" using assms(2) by (auto simp: in_flight_def)
  moreover have "get_queue ?dev1 1 = Some ?q1" using assms(1) by simp
  ultimately show ?thesis using assms(4)
    by (auto simp: chario_completion_def Let_def)
qed

lemma wake_once:
  assumes "0 \<le> r" "n \<le> nat r div 32 + 1"
  shows "concat (map (\<lambda>j. if r - 32 * int j < 32 then [w] else []) [0..<n]) = (if n = nat r div 32 + 1 then [w] else [])"
proof -
  have no: "\<not> r - 32 * int j < 32" if "j < nat r div 32" for j
  proof -
    have "32 * Suc j \<le> 32 * (nat r div 32)" using that by simp
    also have "\<dots> \<le> nat r" by simp
    finally have "int (32 * Suc j) \<le> r" using assms(1) by (simp only: le_nat_iff)
    then show ?thesis by simp
  qed
  have quiet: "concat (map (\<lambda>j. if r - 32 * int j < 32 then [w] else []) [0..<m]) = []" if "m \<le> nat r div 32" for m
    using no that by auto
  have "r - 32 * int (nat r div 32) < 32"
  proof -
    have "nat r mod 32 < 32" "nat r = 32 * (nat r div 32) + nat r mod 32" by simp_all
    then show ?thesis using assms(1) by linarith
  qed
  with quiet [of "nat r div 32"] quiet [of n] assms(2) show ?thesis by (auto simp: le_Suc_eq)
qed

lemma consume_chario_all:
  assumes "get_queue dev 1 = Some q" "in_flight info T q" "distinct (map cqe_tag cqes)" "cqe_tag ` set cqes \<subseteq> T"
    "d_chario dev info = Some ci"
  shows "\<exists>dev' q'. consume_all 1 cqes dev = Some dev' \<and> get_queue dev' 1 = Some q'
    \<and> in_flight info (T - cqe_tag ` set cqes) q'
    \<and> d_chario dev' info = Some (ci\<lparr>chario_remaining := chario_remaining ci - 32 * int (length cqes)\<rparr>)
    \<and> d_log dev' = d_log dev @ concat (map (\<lambda>j. if chario_remaining ci - 32 * int j < 32
          then [WakeUpProcess (chario_task ci)] else []) [0..<length cqes])"
  using assms
proof (induction cqes arbitrary: dev q T ci)
  case (Cons c cs)
  from consume_chario [OF Cons.prems(1,2) _ Cons.prems(5), of c] Cons.prems(4) obtain dev1 q1 where
      d: "cq_consume 1 c dev = Some dev1" "get_queue dev1 1 = Some q1" "in_flight info (T - {cqe_tag c}) q1"
      "d_chario dev1 info = Some (ci\<lparr>chario_remaining := chario_remaining ci - 32\<rparr>)"
      "d_log dev1 = d_log dev @ (if chario_remaining ci < 32 then [WakeUpProcess (chario_task ci)] else [])"
    by auto
  have sub: "cqe_tag ` set cs \<subseteq> T - {cqe_tag c}" using Cons.prems(3,4) by (auto simp: image_iff)
  have shift: "chario_remaining ci - 32 - 32 * int j = chario_remaining ci - 32 * int (Suc j)" for j by simp
  have upt: "[0..<length (c # cs)] = 0 # map Suc [0..<length cs]" by (simp add: upt_conv_Cons map_Suc_upt del: upt_Suc)
  from Cons.IH [OF d(2,3) _ sub d(4)] Cons.prems(3) obtain dev' q' where
      r: "consume_all 1 cs dev1 = Some dev'" "get_queue dev' 1 = Some q'"
      "in_flight info (T - {cqe_tag c} - cqe_tag ` set cs) q'"
      "d_chario dev' info = Some (ci\<lparr>chario_remaining := chario_remaining ci - 32 - 32 * int (length cs)\<rparr>)"
      "d_log dev' = d_log dev1 @ concat (map (\<lambda>j. if chario_remaining ci - 32 - 32 * int j < 32
          then [WakeUpProcess (chario_task ci)] else []) [0..<length cs])"
    by (auto cong: if_cong)
  have "T - {cqe_tag c} - cqe_tag ` set cs = T - cqe_tag ` set (c # cs)" by auto
  with d(1,5) r show ?case unfolding upt shift by (auto simp: comp_def)
qed simp

section \<open>A transfer up to the sleep of the task\<close>

text \<open>
  Before a transfer: queue 1 exists, its tag counter is 0, all 32 slots were allocated, and 32
  commands fit beside those the controller (head h) has not fetched.
\<close>

definition chario_ready :: "nat \<Rightarrow> nvme_dev \<Rightarrow> nvme_queue \<Rightarrow> bool" where
  "chario_ready h dev q \<longleftrightarrow> get_queue dev 1 = Some q \<and> sq_ok q \<and> h < unat (q_depth q)
     \<and> length (sq_view h q) + 32 < unat (q_depth q) \<and> q_qid q \<noteq> 0 \<and> q_next_chario_tag q = 0
     \<and> length (q_chario_cmds q) = 32 \<and> None \<notin> set (q_chario_cmds q)"

text \<open>
  The state in which the task goes to sleep: the controller's view of queue 1 ends with the
  commands, the k-th with tag k and for the k-th part of the pages P; their slots wait for
  completions of this transfer, and the count is the number of blocks.
\<close>

definition transfer_posted ::
  "nat \<Rightarrow> nvme_queue \<Rightarrow> prp_block list \<Rightarrow> (u64 \<Rightarrow> u16 \<Rightarrow> dma_addr \<Rightarrow> dma_addr \<Rightarrow> nvme_command)
     \<Rightarrow> nvme_user_io \<Rightarrow> u64 list \<Rightarrow> task_env \<Rightarrow> nvme_dev \<Rightarrow> bool" where
  "transfer_posted h q bs mk io P env dev \<longleftrightarrow>
     (\<exists>cs q'. get_queue dev 1 = Some q' \<and> sq_view h q' = sq_view h q @ tagged 0 (map (cmd_of mk) cs)
        \<and> length cs = unat (uio_nblocks io) div 32 + 1
        \<and> (\<forall>k<length cs. part_cmd bs (uio_slba io) P k (cs ! k))
        \<and> in_flight (t_frame env) {0..<length cs} q'
        \<and> d_chario dev (t_frame env) = Some \<lparr>chario_task = t_current env, chario_result = t_garbage env,
              chario_status = - EINTR, chario_remaining = uint (uio_nblocks io)\<rparr>)"

lemma chario_transfer_posted:
  assumes split: "split_cmds entry (uio_nblocks io) sp = Some cs" "length cs = unat (uio_nblocks io) div 32 + 1"
      "\<forall>k<length cs. part_cmd bs (uio_slba io) P k (cs ! k)"
    and ready: "chario_ready h dev q" and max: "uio_nblocks io \<le> 1023"
  shows "\<exists>dev'. transfer_posted h q bs mk io P env dev'
    \<and> chario_transfer env entry mk io sp dev
        = do { q4 \<leftarrow> get_queue (t_sched env dev') 1;
               Some (0, put_queue 1 (q4\<lparr>q_next_chario_tag := 0\<rparr>) (t_sched env dev')) }"
proof -
  define dev1 where "dev1 = dev\<lparr>d_chario := (d_chario dev)(t_frame env \<mapsto>
             \<lparr>chario_task = t_current env, chario_result = t_garbage env, chario_status = - EINTR,
              chario_remaining = uint (uio_nblocks io)\<rparr>)\<rparr>"
  have q: "get_queue dev1 1 = Some q" "sq_ok q" "h < unat (q_depth q)" "q_next_chario_tag q = int 0"
      "length (sq_view h q) + 32 < unat (q_depth q)" "length (q_chario_cmds q) = 32" "q_qid q \<noteq> 0"
    using ready by (auto simp: chario_ready_def dev1_def)
  have "None \<notin> set (q_chario_cmds q)" using ready by (simp add: chario_ready_def)
  then have slots: "q_chario_cmds q ! j \<noteq> None" if "j < length (q_chario_cmds q)" for j
    using nth_mem [OF that] by metis
  have "unat (uio_nblocks io) \<le> 1023" using max by (simp add: word_le_nat_alt)
  then have "unat (uio_nblocks io) div 32 \<le> 1023 div 32" by (rule div_le_mono)
  then have len: "length cs \<le> 32" using split(2) by simp
  from submit_chario_all_ok [OF q(1-3) _ q(4), of "map (cmd_of mk) cs" "t_frame env"] q slots len
  obtain dev' q' where r: "submit_chario_all (t_frame env) (map (cmd_of mk) cs) dev1 = Some (0, dev')"
      "get_queue dev' 1 = Some q'" "q_depth q' = q_depth q" "q_qid q' = q_qid q"
      "sq_view h q' = sq_view h q @ tagged 0 (map (cmd_of mk) cs)" "length (q_chario_cmds q') = 32"
      "\<forall>j<length cs. armed (t_frame env) (q_chario_cmds q' ! j)" "d_chario dev' = d_chario dev1"
    by auto
  have "transfer_posted h q bs mk io P env dev'"
    unfolding transfer_posted_def in_flight_def
    using r q split(2,3) len by (intro exI [of _ cs] exI [of _ q']) (auto simp: dev1_def)
  moreover from split_cmds_submit [OF split(1) r(1)] obtain sp1 dev2 where
      "split_loop entry mk (t_frame env) sp dev1 = Some (Inr sp1, dev2)"
      "split_last entry mk (t_frame env) (uio_nblocks io) sp1 dev2 = Some (0, dev')"
    by blast
  then have "chario_transfer env entry mk io sp dev
        = do { q4 \<leftarrow> get_queue (t_sched env dev') 1;
               Some (0, put_queue 1 (q4\<lparr>q_next_chario_tag := 0\<rparr>) (t_sched env dev')) }"
    by (simp add: chario_transfer_def Let_def dev1_def [symmetric])
  ultimately show ?thesis by blast
qed

section \<open>The pages of an aligned user buffer\<close>

lemma user_sg_whole_pages:
  assumes "n \<le> 1024"
  shows "user_sg page i n (of_nat (4096 * n)) 0 = map (\<lambda>j. (page j, 4096)) [i..<i + n]"
  using assms
proof (induction n arbitrary: i)
  case (Suc n)
  have "(of_nat (4096 * Suc n) :: u32) - 4096 = of_nat (4096 * n)" by (simp add: algebra_simps)
  moreover have "unat (of_nat (4096 * Suc n) :: u32) = 4096 * Suc n"
    using Suc.prems by (simp only: unat_of_nat) simp
  then have "unat (min (of_nat (4096 * Suc n) :: u32) 4096) = 4096" by (simp add: min_def word_le_nat_alt)
  moreover have "user_sg page (Suc i) n (of_nat (4096 * n)) 0 = map (\<lambda>j. (page j, 4096)) [Suc i..<Suc i + n]"
    using Suc.prems by (intro Suc.IH) simp
  moreover have "[i..<i + Suc n] = i # [Suc i..<Suc i + n]" by (simp add: upt_conv_Cons)
  ultimately show ?case by (simp del: of_nat_mult of_nat_Suc upt_Suc)
qed simp

lemma seg_pages_one: "seg_pages 4096 a 4096 = [a]"
  by (simp add: seg_pages_def)

lemma sg_expected_whole_pages:
  assumes "0 < n" "\<And>j. uint (page j) mod 4096 = 0"
  shows "sg_expected (map (\<lambda>j. (page j, 4096)) [0..<n]) (4096 * int n) = map (\<lambda>j. ucast (page j)) [0..<n]"
proof -
  have upt: "[0..<n] = 0 # [1..<n]" using assms(1) by (simp add: upt_conv_Cons)
  have "concat (map ((\<lambda>(a, l). seg_pages 4096 (ucast a) (int l)) \<circ> (\<lambda>j. (page j, 4096))) js)
      = map (\<lambda>j. ucast (page j)) js" for js
    by (induction js) (simp_all add: seg_pages_one)
  moreover have "nat ((4096 * int n - 1) div 4096) = n - 1" using assms(1) by linarith
  ultimately show ?thesis
    unfolding upt using assms by (simp add: sg_pages_def seg_pages_def)
qed

section \<open>The length of a transfer\<close>

lemma uio_lengths_4k:
  assumes "ns_lba_shift ns = 12" "ns_ms ns = 0" "uio_nblocks io \<le> 1023"
  shows "uio_lengths ns io = Inr (of_nat (4096 * (unat (uio_nblocks io) + 1)), 0)"
    "uint (of_nat (4096 * (unat (uio_nblocks io) + 1)) :: u32) = 4096 * (int (unat (uio_nblocks io)) + 1)"
proof -
  have n: "unat (uio_nblocks io) \<le> 1023" using assms(3) by (simp add: word_le_nat_alt)
  have "(ucast (uio_nblocks io) :: u32) = of_nat (unat (uio_nblocks io))" by simp
  then have "push_bit 12 (ucast (uio_nblocks io) + 1 :: u32) = of_nat (4096 * (unat (uio_nblocks io) + 1))"
    by (simp add: push_bit_eq_mult algebra_simps)
  then show "uio_lengths ns io = Inr (of_nat (4096 * (unat (uio_nblocks io) + 1)), 0)"
    using assms by (simp add: uio_lengths_def Let_def)
  have "unat (of_nat (4096 * (unat (uio_nblocks io) + 1)) :: u32) = 4096 * (unat (uio_nblocks io) + 1)"
    using n by (simp only: unat_of_nat) simp
  then have "int (unat (of_nat (4096 * (unat (uio_nblocks io) + 1)) :: u32)) = 4096 * (int (unat (uio_nblocks io)) + 1)"
    by simp
  then show "uint (of_nat (4096 * (unat (uio_nblocks io) + 1)) :: u32) = 4096 * (int (unat (uio_nblocks io)) + 1)"
    by (simp only: uint_nat)
qed

abbreviation pages_of_buffer :: "map_env \<Rightarrow> nat \<Rightarrow> u64 list" where
  "pages_of_buffer menv n \<equiv> map (\<lambda>j. ucast (m_page menv j)) [0..<n]"

lemma map_user_whole_pages:
  assumes "nvme_map_user_pages menv 4096 addr (of_nat (4096 * n)) = (Inr iod, evs)"
    "\<And>j. uint (m_page menv j) mod 4096 = 0" "addr AND 4095 = 0" "0 < n" "n \<le> 1024"
  shows "sg_covers (iod_sg iod) (4096 * int n) \<and> iod_npages iod = -1 \<and> evs = []
    \<and> fst (hd (iod_sg iod)) = m_page menv 0 \<and> sg_expected (iod_sg iod) (4096 * int n) = pages_of_buffer menv n"
proof -
  have un: "unat (of_nat (4096 * n) :: u32) = 4096 * n" using assms(5) by (simp only: unat_of_nat) simp
  then have "int (unat (of_nat (4096 * n) :: u32)) = 4096 * int n" by simp
  then have ui: "uint (of_nat (4096 * n) :: u32) = 4096 * int n" by (simp only: uint_nat)
  then have "uint (div_round_up (of_nat (4096 * n)) 4096 :: u32) = (4096 * int n + 4096 - 1) div 4096"
    using assms(5) by (subst uint_div_round_up) (simp_all del: of_nat_mult)
  also have "\<dots> = int n" by simp
  finally have cnt: "unat (div_round_up (of_nat (4096 * n)) 4096 :: u32) = n" by (metis nat_int nat_uint_eq)
  note c = map_user_pages_covers [OF assms(1,2), unfolded assms(3) ui add_0 cnt user_sg_whole_pages [OF assms(5)]]
  then show ?thesis using assms(4) sg_expected_whole_pages [OF assms(4,2)] by (auto simp: hd_map upt_conv_Cons)
qed

text \<open>The transfer of an aligned user buffer, from its mapping to the sleep of the task.\<close>

lemma user_transfer_posted:
  assumes "pool_ok palloc" "pool_aligned palloc"
    "\<And>pool k. int k \<le> (int (unat (uio_nblocks io)) + 1) div 511 \<Longrightarrow> palloc pool k \<noteq> None"
    "uio_nblocks io \<le> 1023" "addr AND 4095 = 0" "\<And>j. uint (m_page menv j) mod 4096 = 0"
    "nvme_map_user_pages menv 4096 addr (of_nat (4096 * (unat (uio_nblocks io) + 1))) = (Inr iod, evs)"
    "chario_ready h dev q"
  shows "\<exists>iod' dev'. nvme_setup_prps palloc 4096 iod (4096 * (int (unat (uio_nblocks io)) + 1))
        = Some (4096 * (int (unat (uio_nblocks io)) + 1), iod') \<and> evs = []
    \<and> fst (hd (iod_sg iod')) = m_page menv 0
    \<and> nvme_free_iod 4096 iod' = Some (blocks_of iod' @ (if iod_should_kfree iod then [KfreeIod] else []))
    \<and> transfer_posted h q (iod_blocks iod') mk io (pages_of_buffer menv (unat (uio_nblocks io) + 1)) env dev'
    \<and> chario_transfer env (prp_entry iod') mk io
             (split_init io (iod_npages iod') (m_page menv 0) (iod_first_dma iod')) dev
          = do { q4 \<leftarrow> get_queue (t_sched env dev') 1;
               Some (0, put_queue 1 (q4\<lparr>q_next_chario_tag := 0\<rparr>) (t_sched env dev')) }"
proof -
  define n where "n = unat (uio_nblocks io) + 1"
  define tot where "tot = 4096 * (int (unat (uio_nblocks io)) + 1)"
  have n: "n \<le> 1024" "0 < n" using assms(4) by (simp_all add: n_def word_le_nat_alt)
  have tot: "tot = 4096 * int n" by (simp add: tot_def n_def)
  have m: "sg_covers (iod_sg iod) tot" "iod_npages iod = -1" "evs = []" "fst (hd (iod_sg iod)) = m_page menv 0"
      "sg_expected (iod_sg iod) tot = pages_of_buffer menv n"
    using map_user_whole_pages [OF assms(7) [folded n_def] assms(6,5) n(2,1)] unfolding tot by blast+
  have "(tot + 4095) div 4096 = int (unat (uio_nblocks io)) + 1"
    by (rule int_div_pos_eq [of _ _ _ 4095]) (simp_all add: tot_def)
  then have "\<And>pool k. int k \<le> (tot + 4095) div 4096 div 511 \<Longrightarrow> palloc pool k \<noteq> None" using assms(3) by metis
  with sg_descr.build_complete [OF assms(1) m(2,1)] obtain iod' where
      b: "nvme_setup_prps palloc 4096 iod tot = Some (tot, iod')" by blast
  from sg_descr.build_then_release [OF assms(1) m(2,1)] b
  have rel: "nvme_free_iod 4096 iod' = Some (blocks_of iod' @ (if iod_should_kfree iod then [KfreeIod] else []))" by auto
  obtain a l sgs where "iod_sg iod = (a, l) # sgs" using sg_covers_Cons [OF m(1)] by blast
  from setup_prps_post [OF assms(1) m(2) this m(1)] b m(4)
  have sg': "fst (hd (iod_sg iod')) = m_page menv 0" by auto
  have al: "uint (fst (hd (iod_sg iod))) mod 4096 = 0" unfolding m(4) by (rule assms(6))
  from sg_split.build_split [OF assms(1,2) m(2) m(1) [unfolded tot_def] al assms(4) b [unfolded tot_def], folded tot_def,
      unfolded m(4,5)] obtain cs where
      cs: "split_cmds (prp_entry iod') (uio_nblocks io)
             (split_init io (iod_npages iod') (m_page menv 0) (iod_first_dma iod')) = Some cs"
          "length cs = unat (uio_nblocks io) div 32 + 1"
          "\<forall>j<length cs. part_cmd (iod_blocks iod') (uio_slba io) (pages_of_buffer menv n) j (cs ! j)"
    by blast
  from chario_transfer_posted [OF cs assms(8,4), of mk env] b m(3) rel sg' show ?thesis
    unfolding tot_def n_def by blast
qed

text \<open>The whole function on an aligned user buffer.\<close>

lemma submit_io_chario_run:
  assumes "pool_ok palloc" "pool_aligned palloc"
    "\<And>pool k. int k \<le> (int (unat (uio_nblocks io)) + 1) div 511 \<Longrightarrow> palloc pool k \<noteq> None"
    "ns_lba_shift ns = 12" "ns_ms ns = 0" "uio_opcode_ok io" "uio_nblocks io \<le> 1023"
    "(ucast (uio_addr io) :: u32) AND 4095 = 0" "\<And>j. uint (m_page menv j) mod 4096 = 0"
    "nvme_map_user_pages menv 4096 (ucast (uio_addr io)) (of_nat (4096 * (unat (uio_nblocks io) + 1))) = (Inr iod, evs)"
    "d_page_size dev = 4096" "chario_ready h dev q"
  shows "\<exists>iod' dev'. nvme_setup_prps palloc 4096 iod (4096 * (int (unat (uio_nblocks io)) + 1))
        = Some (4096 * (int (unat (uio_nblocks io)) + 1), iod')
    \<and> transfer_posted h q (iod_blocks iod') (\<lambda>slba n prp1 prp2. CmdRw (uio_rw ns io 0 slba n prp1 prp2))
        io (pages_of_buffer menv (unat (uio_nblocks io) + 1)) env dev'
    \<and> (\<forall>q4. get_queue (t_sched env dev') 1 = Some q4 \<and> d_page_size (t_sched env dev') = 4096 \<longrightarrow>
        nvme_submit_io_chario env menv uenv palloc ns io dev
          = Some (0, kernel_log (nvme_unmap_user_pages (uio_is_write io) iod'
                        @ map Freed (blocks_of iod' @ (if iod_should_kfree iod then [KfreeIod] else [])))
                      (put_queue 1 (q4\<lparr>q_next_chario_tag := 0\<rparr>) (t_sched env dev'))))"
proof -
  let ?mk = "\<lambda>slba n prp1 prp2. CmdRw (uio_rw ns io 0 slba n prp1 prp2)"
  define n where "n = unat (uio_nblocks io) + 1"
  define tot where "tot = 4096 * (int (unat (uio_nblocks io)) + 1)"
  from user_transfer_posted [OF assms(1-3,7-10,12), of ?mk env, folded tot_def n_def]
  obtain iod' dev' where t: "nvme_setup_prps palloc 4096 iod tot = Some (tot, iod')" "evs = []"
      "fst (hd (iod_sg iod')) = m_page menv 0"
      "nvme_free_iod 4096 iod' = Some (blocks_of iod' @ (if iod_should_kfree iod then [KfreeIod] else []))"
      "transfer_posted h q (iod_blocks iod') ?mk io (pages_of_buffer menv n) env dev'"
      "chario_transfer env (prp_entry iod') ?mk io
             (split_init io (iod_npages iod') (m_page menv 0) (iod_first_dma iod')) dev
          = do { q4 \<leftarrow> get_queue (t_sched env dev') 1;
               Some (0, put_queue 1 (q4\<lparr>q_next_chario_tag := 0\<rparr>) (t_sched env dev')) }"
    by blast
  note len = uio_lengths_4k [OF assms(4,5,7), folded tot_def n_def]
  have "nvme_submit_io_chario env menv uenv palloc ns io dev
          = Some (0, kernel_log (nvme_unmap_user_pages (uio_is_write io) iod'
                        @ map Freed (blocks_of iod' @ (if iod_should_kfree iod then [KfreeIod] else [])))
                      (put_queue 1 (q4\<lparr>q_next_chario_tag := 0\<rparr>) (t_sched env dev')))"
    if "get_queue (t_sched env dev') 1 = Some q4" "d_page_size (t_sched env dev') = 4096" for q4
  proof -
    have "chario_mapped env (uenv\<lparr>u_meta_in := True, u_meta_out := True\<rparr>) palloc ns io (of_nat (4096 * n)) 0 iod dev
        = Some (0, kernel_log (nvme_unmap_user_pages (uio_is_write io) iod'
                        @ map Freed (blocks_of iod' @ (if iod_should_kfree iod then [KfreeIod] else [])))
                      (put_queue 1 (q4\<lparr>q_next_chario_tag := 0\<rparr>) (t_sched env dev')))"
      unfolding chario_mapped_def len(2) assms(11) t(1)
      using that t(3,4,6) by (simp add: uio_meta_setup_def uio_exit_def uio_meta_finish_def)
    then show ?thesis
      unfolding nvme_submit_io_chario_def len(1) using assms(6,11) assms(10) [folded n_def] t(2)
      by (simp del: of_nat_mult)
  qed
  with t(1,5) show ?thesis unfolding tot_def n_def by blast
qed

section \<open>Properties\<close>

text \<open>
  C2: a character-device transfer is correct from the system call's buffer to the controller. For up to
  1024 blocks of 4096 bytes and a page-aligned buffer, \<open>nvme_submit_io_chario\<close> goes to sleep in a
  state where the controller sees, after what was queued before, one command per 32 blocks, in
  order, the k-th with tag k, and where the k-th command, followed by the controller
  through its PRP entries, names exactly the k-th 32 pages of the user buffer and the blocks from
  slba + 32 k on. When the completions have run it returns 0, the tag counter is 0 again, the
  pages are unmapped and exactly the allocated list blocks and the descriptor are freed.
\<close>

theorem nvme_submit_io_chario_correct:
  assumes "pool_ok palloc" "pool_aligned palloc"
    "\<And>pool k. int k \<le> (int (unat (uio_nblocks io)) + 1) div 511 \<Longrightarrow> palloc pool k \<noteq> None"
    "ns_lba_shift ns = 12" "ns_ms ns = 0" "uio_opcode_ok io" "uio_nblocks io \<le> 1023"
    "(ucast (uio_addr io) :: u32) AND 4095 = 0" "\<And>j. uint (m_page menv j) mod 4096 = 0"
    "nvme_map_user_pages menv 4096 (ucast (uio_addr io)) (of_nat (4096 * (unat (uio_nblocks io) + 1))) = (Inr iod, evs)"
    "d_page_size dev = 4096" "chario_ready h dev q"
  shows "\<exists>iod' dev'. nvme_setup_prps palloc 4096 iod (4096 * (int (unat (uio_nblocks io)) + 1))
        = Some (4096 * (int (unat (uio_nblocks io)) + 1), iod')
    \<and> transfer_posted h q (iod_blocks iod') (\<lambda>slba n prp1 prp2. CmdRw (uio_rw ns io 0 slba n prp1 prp2))
        io (pages_of_buffer menv (unat (uio_nblocks io) + 1)) env dev'
    \<and> (\<forall>q4. get_queue (t_sched env dev') 1 = Some q4 \<and> d_page_size (t_sched env dev') = 4096 \<longrightarrow>
        nvme_submit_io_chario env menv uenv palloc ns io dev
          = Some (0, kernel_log (nvme_unmap_user_pages (uio_is_write io) iod'
                        @ map Freed (blocks_of iod' @ (if iod_should_kfree iod then [KfreeIod] else [])))
                      (put_queue 1 (q4\<lparr>q_next_chario_tag := 0\<rparr>) (t_sched env dev'))))"
  by (rule submit_io_chario_run [OF assms])

definition chario_ns :: nvme_ns where
  "chario_ns = \<lparr>ns_id = 1, ns_lba_shift = 12, ns_ms = 0, ns_ext = False, ns_pi_type = 0, ns_queue = 3\<rparr>"

definition chario_io :: nvme_user_io where
  "chario_io = \<lparr>uio_opcode = nvme_cmd_read, uio_flags = 0, uio_control = 0, uio_nblocks = 40, uio_rsvd = 0,
     uio_metadata = 0, uio_addr = 0x1000, uio_slba = 100, uio_dsmgmt = 0, uio_reftag = 0, uio_apptag = 0,
     uio_appmask = 0\<rparr>"

definition chario_queue :: nvme_queue where
  "chario_queue = sample_queue\<lparr>q_depth := 64, q_sq_cmds := replicate 64 (CmdCommon zero_common), q_sq_tail := 0\<rparr>"

definition chario_dev :: nvme_dev where
  "chario_dev = sample_dev\<lparr>d_queues := [None, Some chario_queue]\<rparr>"

definition chario_task_env :: task_env where
  "chario_task_env = \<lparr>t_current = 5, t_frame = 9, t_garbage = 0, t_alloc = (\<lambda>_. Inr 0), t_sched = (\<lambda>d. d)\<rparr>"

definition chario_uenv :: uio_env where
  "chario_uenv = \<lparr>u_copy_in = True, u_meta = None, u_meta_in = True, u_meta_out = True\<rparr>"

lemma chario_dev_ready: "chario_ready 0 chario_dev chario_queue"
  by (simp add: chario_ready_def chario_dev_def chario_queue_def sample_queue_def get_queue_def sq_ok_def sq_used_def)

lemma sample_pool_aligned: "pool_aligned sample_pool"
  by (auto simp: pool_aligned_def sample_pool_def split: if_splits)

lemma chario_map_ok:
  "\<exists>iod. nvme_map_user_pages (sample_map_env\<lparr>m_gup := 41\<rparr>) 4096 (ucast (uio_addr chario_io))
      (of_nat (4096 * (unat (uio_nblocks chario_io) + 1))) = (Inr iod, [])"
  by (simp add: nvme_map_user_pages_def map_args_ok_def sample_map_env_def alloc_iod_def div_round_up_def chario_io_def)

theorem nvme_submit_io_chario_correct_witness:
  "\<exists>iod iod' dev'. nvme_setup_prps sample_pool 4096 iod (4096 * (int (unat (uio_nblocks chario_io)) + 1))
        = Some (4096 * (int (unat (uio_nblocks chario_io)) + 1), iod')
    \<and> transfer_posted 0 chario_queue (iod_blocks iod')
        (\<lambda>slba n prp1 prp2. CmdRw (uio_rw chario_ns chario_io 0 slba n prp1 prp2))
        chario_io (pages_of_buffer (sample_map_env\<lparr>m_gup := 41\<rparr>) (unat (uio_nblocks chario_io) + 1)) chario_task_env dev'
    \<and> (\<forall>q4. get_queue (t_sched chario_task_env dev') 1 = Some q4 \<and> d_page_size (t_sched chario_task_env dev') = 4096 \<longrightarrow>
        nvme_submit_io_chario chario_task_env (sample_map_env\<lparr>m_gup := 41\<rparr>) chario_uenv sample_pool chario_ns chario_io chario_dev
          = Some (0, kernel_log (nvme_unmap_user_pages (uio_is_write chario_io) iod'
                        @ map Freed (blocks_of iod' @ (if iod_should_kfree iod then [KfreeIod] else [])))
                      (put_queue 1 (q4\<lparr>q_next_chario_tag := 0\<rparr>) (t_sched chario_task_env dev'))))"
proof -
  obtain iod where m: "nvme_map_user_pages (sample_map_env\<lparr>m_gup := 41\<rparr>) 4096 (ucast (uio_addr chario_io))
      (of_nat (4096 * (unat (uio_nblocks chario_io) + 1))) = (Inr iod, [])"
    using chario_map_ok ..
  have al: "uint (m_page (sample_map_env\<lparr>m_gup := 41\<rparr>) j) mod 4096 = 0" for j
    using sample_pages_aligned by simp
  show ?thesis
    by (rule exI [of _ iod], rule nvme_submit_io_chario_correct [OF sample_pool_ok sample_pool_aligned _ _ _ _ _ _ al m _ chario_dev_ready])
      (simp_all add: chario_io_def chario_ns_def uio_opcode_ok_def chario_dev_def sample_dev_def sample_pool_first)
qed

text \<open>
  C3: the task is woken exactly once, by its last command. After the commands of a transfer are
  posted, let their completions arrive in any order. Handling k of them never crashes, leaves the
  count at the number of blocks less 32 k, and wakes the task if and only if all commands are
  complete.
\<close>

theorem chario_wakes_once:
  assumes "transfer_posted h q bs mk io P env dev" "distinct (map cqe_tag cqes)"
    "\<And>cqe. cqe \<in> set cqes \<Longrightarrow> cqe_tag cqe < unat (uio_nblocks io) div 32 + 1"
  shows "\<exists>dev'. consume_all 1 cqes dev = Some dev'
    \<and> map_option chario_remaining (d_chario dev' (t_frame env))
        = Some (uint (uio_nblocks io) - 32 * int (length cqes))
    \<and> d_log dev' = d_log dev @ (if length cqes = unat (uio_nblocks io) div 32 + 1
          then [WakeUpProcess (t_current env)] else [])"
proof -
  let ?m = "unat (uio_nblocks io) div 32 + 1"
  from assms(1) obtain q' where q': "get_queue dev 1 = Some q'" "in_flight (t_frame env) {0..<?m} q'"
      "d_chario dev (t_frame env) = Some \<lparr>chario_task = t_current env, chario_result = t_garbage env,
          chario_status = - EINTR, chario_remaining = uint (uio_nblocks io)\<rparr>"
    unfolding transfer_posted_def by metis
  have sub: "cqe_tag ` set cqes \<subseteq> {0..<?m}" using assms(3) by auto
  have "card (cqe_tag ` set cqes) = length cqes" using assms(2) distinct_card by fastforce
  with card_mono [OF _ sub] have "length cqes \<le> ?m" by simp
  then have w: "concat (map (\<lambda>j. if uint (uio_nblocks io) - 32 * int j < 32 then [WakeUpProcess (t_current env)] else [])
        [0..<length cqes]) = (if length cqes = ?m then [WakeUpProcess (t_current env)] else [])"
    using wake_once [of "uint (uio_nblocks io)" "length cqes" "WakeUpProcess (t_current env)"] by simp
  from consume_chario_all [OF q'(1,2) assms(2) sub q'(3), unfolded chario_cmd_info.select_convs w]
  obtain dev' where "consume_all 1 cqes dev = Some dev'"
      "d_log dev' = d_log dev @ (if length cqes = ?m then [WakeUpProcess (t_current env)] else [])"
      "map_option chario_remaining (d_chario dev' (t_frame env)) = Some (uint (uio_nblocks io) - 32 * int (length cqes))"
    by auto
  then show ?thesis by blast
qed

definition chario_cqe :: "u16 \<Rightarrow> nvme_completion" where
  "chario_cqe tag = \<lparr>cqe_result = 0, cqe_sq_head = 0, cqe_sq_id = 1, cqe_command_id = tag, cqe_status = 1\<rparr>"

theorem chario_wakes_once_witness:
  "\<exists>bs mk P dev dev'. transfer_posted 0 chario_queue bs mk chario_io P chario_task_env dev
    \<and> consume_all 1 [chario_cqe 1, chario_cqe 0] dev = Some dev'
    \<and> map_option chario_remaining (d_chario dev' (t_frame chario_task_env))
        = Some (uint (uio_nblocks chario_io) - 32 * int (length [chario_cqe 1, chario_cqe 0]))
    \<and> d_log dev' = d_log dev @ (if length [chario_cqe 1, chario_cqe 0] = unat (uio_nblocks chario_io) div 32 + 1
          then [WakeUpProcess (t_current chario_task_env)] else [])"
proof -
  obtain iod where m: "nvme_map_user_pages (sample_map_env\<lparr>m_gup := 41\<rparr>) 4096 (ucast (uio_addr chario_io))
      (of_nat (4096 * (unat (uio_nblocks chario_io) + 1))) = (Inr iod, [])"
    using chario_map_ok ..
  have "\<exists>bs dev. transfer_posted 0 chario_queue bs mk chario_io
      (pages_of_buffer (sample_map_env\<lparr>m_gup := 41\<rparr>) (unat (uio_nblocks chario_io) + 1)) chario_task_env dev" for mk
    using user_transfer_posted [OF sample_pool_ok sample_pool_aligned _ _ _ _ m chario_dev_ready, of mk chario_task_env]
      sample_pool_first sample_pages_aligned by (fastforce simp: chario_io_def)
  then obtain bs mk P dev where p: "transfer_posted 0 chario_queue bs mk chario_io P chario_task_env dev" by blast
  have "distinct (map cqe_tag [chario_cqe 1, chario_cqe 0])" by (simp add: chario_cqe_def)
  moreover have "cqe_tag cqe < unat (uio_nblocks chario_io) div 32 + 1" if "cqe \<in> set [chario_cqe 1, chario_cqe 0]" for cqe
    using that by (auto simp: chario_cqe_def chario_io_def)
  ultimately show ?thesis using chario_wakes_once [OF p] p by blast
qed

end
