(* ===== verification/Chario.thy ===== *)
theory Chario
  imports Nvme_Submit
begin

text \<open>
  The character device (src/chario.c): read, write and ioctl split a transfer into requests of at most
  4 MiB and hand each to the driver, llseek moves the file position, and the module's initialisation
  registers the device. The platform has 32-bit pointers and size_t, loff_t has 64 bits.

  The driver's entry point (\<open>chario_nvme_submit_io_user\<close>, \<open>chario_nvme_submit_io_phys\<close> or
  \<open>chario_nvme_submit_io_kernel\<close>) is the argument \<open>submit\<close> of the operations, with the state it
  changes; \<open>ns\<close> is the first namespace of the current device.
\<close>

type_synonym loff = "64 word"
type_synonym 's submit_fn = "nvme_user_io \<Rightarrow> 's \<Rightarrow> (int \<times> 's) option"

abbreviation MAX_BYTES :: u32 where "MAX_BYTES \<equiv> 4194304"

record chario_phys_io =
  cpio_address :: u64
  cpio_length :: u32

section \<open>One request\<close>

definition chario_uio :: "nvme_ns \<Rightarrow> u64 \<Rightarrow> u32 \<Rightarrow> loff \<Rightarrow> u8 \<Rightarrow> nvme_user_io" where
  "chario_uio ns addr len offset command =
     \<lparr>uio_opcode = command, uio_flags = 0, uio_control = 0,
      uio_nblocks = ucast (drop_bit (nat (ns_lba_shift ns)) (len - 1)), uio_rsvd = 0, uio_metadata = 0,
      uio_addr = addr, uio_slba = signed_drop_bit (nat (ns_lba_shift ns)) offset, uio_dsmgmt = 0,
      uio_reftag = 0, uio_apptag = 0, uio_appmask = 0\<rparr>"

definition submit_user_io ::
  "'s submit_fn \<Rightarrow> nvme_ns \<Rightarrow> u8 \<Rightarrow> u32 \<Rightarrow> u32 \<Rightarrow> loff \<Rightarrow> 's \<Rightarrow> (int \<times> 's) option" where
  "submit_user_io submit ns command buffer len offset st =
     (let uio = chario_uio ns (ucast buffer) len offset command
      in if len = 0 then Some (0, st) else submit uio st)"

definition submit_phys_request ::
  "'s submit_fn \<Rightarrow> nvme_ns \<Rightarrow> u8 \<Rightarrow> dma_addr \<Rightarrow> u32 \<Rightarrow> loff \<Rightarrow> 's \<Rightarrow> (int \<times> 's) option" where
  "submit_phys_request submit ns command address len offset st =
     (let uio = chario_uio ns (ucast address) len offset command
      in if len = 0 then Some (0, st) else submit uio st)"

text \<open>
  \<open>submit_io_test\<close> reads two blocks into a kmalloc'ed buffer; it uses the buffer also when kmalloc
  failed (data is None), which crashes in strlen at the latest.
\<close>

definition submit_io_test :: "'s submit_fn \<Rightarrow> u32 option \<Rightarrow> 's \<Rightarrow> (int \<times> 's) option" where
  "submit_io_test submit data st =
     do { a \<leftarrow> data;
          submit \<lparr>uio_opcode = nvme_cmd_read, uio_flags = 0, uio_control = 0, uio_nblocks = 1, uio_rsvd = 0,
            uio_metadata = 0, uio_addr = ucast a, uio_slba = 0, uio_dsmgmt = 0, uio_reftag = 0,
            uio_apptag = 0, uio_appmask = 0\<rparr> st }"

section \<open>Splitting into requests of 4 MiB\<close>

text \<open>
  The loop of \<open>dev_read\<close>, \<open>dev_write\<close> and \<open>submit_phys_io\<close> with the request after it; 0 is success of all
  requests, otherwise the error to return.
\<close>

definition chario_error :: "int \<Rightarrow> int" where
  "chario_error result = (if result > 0 then - EIO else result)"

function chunk_loop ::
  "(u32 \<Rightarrow> u32 \<Rightarrow> loff \<Rightarrow> 's \<Rightarrow> (int \<times> 's) option) \<Rightarrow> u32 \<Rightarrow> u32 \<Rightarrow> loff \<Rightarrow> 's \<Rightarrow> (int \<times> 's) option" where
  "chunk_loop piece buffer remaining off st =
     (if remaining > MAX_BYTES
      then (case piece buffer MAX_BYTES off st of
              None \<Rightarrow> None
            | Some (result, st1) \<Rightarrow>
                if result = 0
                then chunk_loop piece (buffer + MAX_BYTES) (remaining - MAX_BYTES) (off + ucast MAX_BYTES) st1
                else Some (chario_error result, st1))
      else (case piece buffer remaining off st of
              None \<Rightarrow> None
            | Some (result, st1) \<Rightarrow> Some (if result = 0 then 0 else chario_error result, st1)))"
  by pat_completeness auto
termination
  by (relation "measure (\<lambda>(piece, buffer, remaining, off, st). unat remaining)")
    (auto simp: word_less_nat_alt unat_sub_if_size word_size)

declare chunk_loop.simps [simp del]

text \<open>The end of the three functions: on success the position moves and the length is returned.\<close>

definition chunk_finish :: "u32 \<Rightarrow> loff \<Rightarrow> (int \<times> 's) option \<Rightarrow> (int \<times> loff \<times> 's) option" where
  "chunk_finish count f_pos res =
     map_option (\<lambda>(result, st). if result = 0 then (sint count, f_pos + ucast count, st)
                                else (result, f_pos, st)) res"

definition dev_read ::
  "'s submit_fn \<Rightarrow> nvme_ns \<Rightarrow> u32 \<Rightarrow> u32 \<Rightarrow> loff \<Rightarrow> 's \<Rightarrow> (int \<times> loff \<times> 's) option" where
  "dev_read submit ns buf count f_pos st =
     chunk_finish count f_pos (chunk_loop (submit_user_io submit ns nvme_cmd_read) buf count f_pos st)"

definition dev_write ::
  "'s submit_fn \<Rightarrow> nvme_ns \<Rightarrow> u32 \<Rightarrow> u32 \<Rightarrow> loff \<Rightarrow> 's \<Rightarrow> (int \<times> loff \<times> 's) option" where
  "dev_write submit ns buf count f_pos st =
     chunk_finish count f_pos (chunk_loop (submit_user_io submit ns nvme_cmd_write) buf count f_pos st)"

definition submit_phys_io ::
  "'s submit_fn \<Rightarrow> nvme_ns \<Rightarrow> u8 \<Rightarrow> chario_phys_io \<Rightarrow> loff \<Rightarrow> 's \<Rightarrow> (int \<times> loff \<times> 's) option" where
  "submit_phys_io submit ns command io f_pos st =
     chunk_finish (cpio_length io) f_pos
       (chunk_loop (submit_phys_request submit ns command) (ucast (cpio_address io)) (cpio_length io) f_pos st)"

datatype chario_ioctl = CHARIO_IOCTL_READ_PHYS | CHARIO_IOCTL_WRITE_PHYS | CHARIO_IOCTL_OTHER

definition dev_ioctl ::
  "'s submit_fn \<Rightarrow> nvme_ns \<Rightarrow> chario_ioctl \<Rightarrow> chario_phys_io \<Rightarrow> loff \<Rightarrow> 's \<Rightarrow> (int \<times> loff \<times> 's) option" where
  "dev_ioctl submit ns cmd arg f_pos st =
     (case cmd of
        CHARIO_IOCTL_READ_PHYS \<Rightarrow> submit_phys_io submit ns nvme_cmd_read arg f_pos st
      | CHARIO_IOCTL_WRITE_PHYS \<Rightarrow> submit_phys_io submit ns nvme_cmd_write arg f_pos st
      | CHARIO_IOCTL_OTHER \<Rightarrow> Some (- EINVAL, f_pos, st))"

section \<open>Seeking, opening, the sysfs attribute\<close>

datatype whence = SEEK_SET | SEEK_CUR | SEEK_END | SEEK_OTHER

definition dev_llseek :: "loff \<Rightarrow> loff \<Rightarrow> whence \<Rightarrow> int \<times> loff" where
  "dev_llseek f_pos off whence =
     (let seek = (\<lambda>newpos. if sint newpos < 0 then (- EINVAL, f_pos) else (sint newpos, newpos))
      in case whence of
           SEEK_SET \<Rightarrow> seek off
         | SEEK_CUR \<Rightarrow> seek (f_pos + off)
         | SEEK_END \<Rightarrow> (- ESPIPE, f_pos)
         | SEEK_OTHER \<Rightarrow> (- EINVAL, f_pos))"

definition dev_open :: int where "dev_open = 0"

definition dev_release :: int where "dev_release = 0"

text \<open>\<open>test_show\<close> prints the result of \<open>submit_io_test\<close>; what it prints is the value.\<close>

definition test_show :: "'s submit_fn \<Rightarrow> u32 option \<Rightarrow> 's \<Rightarrow> (int \<times> 's) option" where
  "test_show submit data st = submit_io_test submit data st"

definition test_store :: "u32 \<Rightarrow> int" where
  "test_store count = sint count"

section \<open>Initialisation and exit\<close>

datatype lkm_event = KobjectCreate | SysfsCreateGroup | RegisterChrdev | ClassCreate | DeviceCreate
  | NvmeInit | NvmeExit | DeviceDestroy | ClassUnregister | ClassDestroy | UnregisterChrdev | KobjectPut

text \<open>The kernel's answers: 0 or an error, for register_chrdev the major number or an error.\<close>

record lkm_env =
  le_kobject :: bool
  le_sysfs :: int
  le_major :: int
  le_class :: int
  le_device :: int
  le_nvme :: int

definition chario_init :: "lkm_env \<Rightarrow> int \<times> lkm_event list" where
  "chario_init env =
     (if \<not> le_kobject env then (- ENOMEM, [])
      else if le_sysfs env \<noteq> 0 then (le_sysfs env, [KobjectCreate, KobjectPut])
      else let evs = [KobjectCreate, SysfsCreateGroup]
        in if le_major env < 0 then (le_major env, evs)
           else if le_class env \<noteq> 0 then (le_class env, evs @ [RegisterChrdev, UnregisterChrdev])
           else if le_device env \<noteq> 0
           then (le_device env, evs @ [RegisterChrdev, ClassCreate, ClassDestroy, UnregisterChrdev])
           else let evs1 = evs @ [RegisterChrdev, ClassCreate, DeviceCreate]
             in if le_nvme env \<noteq> 0
                then (le_nvme env, evs1 @ [DeviceDestroy, ClassUnregister, ClassDestroy, UnregisterChrdev,
                                           KobjectPut])
                else (0, evs1 @ [NvmeInit]))"

definition chario_exit :: "lkm_event list" where
  "chario_exit = [NvmeExit, DeviceDestroy, ClassUnregister, ClassDestroy, UnregisterChrdev, KobjectPut]"

section \<open>The requests of a transfer\<close>

type_synonym piece = "u32 \<times> u32 \<times> loff"

function pieces :: "u32 \<Rightarrow> u32 \<Rightarrow> loff \<Rightarrow> piece list" where
  "pieces buffer remaining off =
     (if remaining > MAX_BYTES
      then (buffer, MAX_BYTES, off) # pieces (buffer + MAX_BYTES) (remaining - MAX_BYTES) (off + 4194304)
      else [(buffer, remaining, off)])"
  by pat_completeness auto
termination
  by (relation "measure (\<lambda>(buffer, remaining, off). unat remaining)")
    (auto simp: word_less_nat_alt unat_sub_if_size word_size)

declare pieces.simps [simp del]

text \<open>Carrying out requests one after another up to the first one that fails.\<close>

fun run_pieces ::
  "(u32 \<Rightarrow> u32 \<Rightarrow> loff \<Rightarrow> 's \<Rightarrow> (int \<times> 's) option) \<Rightarrow> piece list \<Rightarrow> 's \<Rightarrow> (int \<times> 's) option" where
  "run_pieces piece [] st = Some (0, st)"
| "run_pieces piece ((b, l, off) # ps) st =
     (case piece b l off st of
        None \<Rightarrow> None
      | Some (result, st1) \<Rightarrow>
          if result = 0 then run_pieces piece ps st1 else Some (chario_error result, st1))"

lemma chunk_loop_pieces: "chunk_loop piece b r off st = run_pieces piece (pieces b r off) st"
proof (induction piece b r off st rule: chunk_loop.induct)
  case (1 piece b r off st)
  show ?case
  proof (cases "r > MAX_BYTES")
    case True
    then show ?thesis using 1
      by (subst chunk_loop.simps, subst pieces.simps) (auto split: option.splits)
  next
    case False
    then show ?thesis
      by (subst chunk_loop.simps, subst pieces.simps) (auto split: option.splits)
  qed
qed

lemma piece_block_count:
  assumes "0 < l" "l \<le> MAX_BYTES" "ns_lba_shift ns = 12"
  shows "unat (uio_nblocks (chario_uio ns a l off c)) = (unat l - 1) div 4096"
    "(unat l - 1) div 4096 \<le> 1023"
proof -
  have l: "0 < unat l" "unat l \<le> 4194304" using assms(1,2) by (simp_all add: word_less_nat_alt word_le_nat_alt)
  then show small: "(unat l - 1) div 4096 \<le> 1023" by auto
  have "unat (l - 1) = unat l - 1" using l by (simp add: unat_sub word_le_nat_alt)
  then have "unat (drop_bit 12 (l - 1)) = (unat l - 1) div 4096"
    by (simp add: drop_bit_eq_div unat_div_distrib)
  then show "unat (uio_nblocks (chario_uio ns a l off c)) = (unat l - 1) div 4096"
    using small assms(3) by (simp add: chario_uio_def unsigned_ucast_eq unsigned_take_bit_eq take_bit_nat_eq_self)
qed

lemma shift_offset: "signed_drop_bit 12 (off :: loff) = of_int (sint off div 4096)"
proof -
  have "sint (signed_drop_bit 12 off) = sint off div 4096"
    by (simp add: sint_signed_drop_bit_eq drop_bit_eq_div)
  then show ?thesis by (metis of_int_sint scast_id)
qed

lemma sint_add_offset:
  assumes "0 \<le> sint (off :: loff)" "sint off + 4194304 < 2 ^ 63"
  shows "sint (off + 4194304) = sint off + 4194304"
  using assms by (simp add: sint_word_add signed_take_bit_int_eq_self)

text \<open>The blocks of a request with the place in the buffer each belongs to.\<close>

definition piece_blocks :: "nvme_ns \<Rightarrow> u8 \<Rightarrow> piece \<Rightarrow> (u64 \<times> u32) list" where
  "piece_blocks ns c p =
     (case p of (b, l, off) \<Rightarrow>
        let uio = chario_uio ns (ucast b) l off c
        in map (\<lambda>j. (uio_slba uio + of_nat j, b + 4096 * of_nat j)) [0..<unat (uio_nblocks uio) + 1])"

lemma upt_shift: "[0..<m + n] = [0..<m] @ map (\<lambda>j. m + j) [0..<n]"
  by (induction n) simp_all

lemma pieces_cover:
  assumes "ns_lba_shift ns = 12" "0 < r" "0 \<le> sint off" "sint off + uint r < 2 ^ 63"
  shows "concat (map (piece_blocks ns c) (pieces b r off))
    = map (\<lambda>j. (of_int (sint off div 4096) + of_nat j, b + 4096 * of_nat j)) [0..<(unat r - 1) div 4096 + 1]"
  using assms(2-)
proof (induction b r off rule: pieces.induct)
  case (1 b r off)
  show ?case
  proof (cases "r > MAX_BYTES")
    case False
    then have "r \<le> MAX_BYTES" by simp
    note n = piece_block_count(1) [OF "1.prems"(1) this assms(1)]
    show ?thesis
      using False assms(1) unfolding pieces.simps [of b r off] piece_blocks_def Let_def
      by (simp add: n del: upt_Suc) (simp add: chario_uio_def shift_offset del: upt_Suc)
  next
    case True
    from True have big: "4194304 < unat r" by (simp add: word_less_nat_alt)
    from True have "4194304 < uint r" by (simp add: word_less_def)
    note big = big this
    have r': "unat (r - MAX_BYTES) = unat r - 4194304" "uint (r - MAX_BYTES) = uint r - 4194304"
      using big uint_sub_lem [of MAX_BYTES r] by (simp_all add: unat_sub word_le_nat_alt)
    have off: "sint (off + 4194304) = sint off + 4194304"
      using "1.prems" big by (intro sint_add_offset) auto
    have blk: "(sint off + 4194304) div 4096 = 1024 + sint off div 4096"
      using div_mult_self2 [of 4096 "sint off" 1024] by simp
    have "concat (map (piece_blocks ns c) (pieces (b + MAX_BYTES) (r - MAX_BYTES) (off + 4194304)))
        = map (\<lambda>j. (of_int (sint (off + 4194304) div 4096) + of_nat j, b + MAX_BYTES + 4096 * of_nat j))
            [0..<(unat (r - MAX_BYTES) - 1) div 4096 + 1]"
      using "1.prems" big r' off by (intro "1.IH" [OF True]) (auto simp: word_less_nat_alt)
    also have "\<dots> = map (\<lambda>j. (of_int (sint off div 4096) + of_nat (1024 + j), b + 4096 * of_nat (1024 + j)))
            [0..<(unat r - 4194304 - 1) div 4096 + 1]"
      unfolding r' off blk by (simp add: algebra_simps)
    finally have rest: "concat (map (piece_blocks ns c) (pieces (b + MAX_BYTES) (r - MAX_BYTES) (off + 4194304)))
        = map (\<lambda>j. (of_int (sint off div 4096) + of_nat (1024 + j), b + 4096 * of_nat (1024 + j)))
            [0..<(unat r - 4194304 - 1) div 4096 + 1]" .
    have "unat (uio_nblocks (chario_uio ns (ucast b) MAX_BYTES off c)) + 1 = 1024"
      using piece_block_count(1) [of MAX_BYTES ns "ucast b" off c] assms(1) by simp
    then have first: "piece_blocks ns c (b, MAX_BYTES, off)
        = map (\<lambda>j. (of_int (sint off div 4096) + of_nat j, b + 4096 * of_nat j)) [0..<1024]"
      using assms(1) unfolding piece_blocks_def Let_def prod.case
      by (simp add: chario_uio_def shift_offset)
    have n: "(unat r - 1) div 4096 + 1 = 1024 + ((unat r - 4194304 - 1) div 4096 + 1)"
      using big(1) by linarith
    show ?thesis
      unfolding n upt_shift [of 1024] using True rest first
      by (subst pieces.simps) (simp add: comp_def del: upt_Suc of_nat_add)
  qed
qed

lemma pieces_bounds:
  assumes "(b', l, off') \<in> set (pieces b r off)" "0 < r"
  shows "0 < l \<and> l \<le> MAX_BYTES"
  using assms
proof (induction b r off rule: pieces.induct)
  case (1 b r off)
  show ?case
  proof (cases "r > MAX_BYTES")
    case True
    then have "0 < r - MAX_BYTES" by (simp add: word_gt_0)
    then show ?thesis using 1 True by (subst (asm) (2) pieces.simps) auto
  next
    case False
    then show ?thesis using "1.prems" by (subst (asm) pieces.simps) auto
  qed
qed

lemma run_pieces_result:
  assumes "run_pieces piece ps st = Some (r, st')"
  shows "r \<le> 0"
  using assms
  by (induction piece ps st rule: run_pieces.induct) (auto simp: chario_error_def split: option.splits if_splits)

section \<open>What the module holds\<close>

datatype lkm_resource = ResKobject | ResChrdev | ResClass | ResDevice | ResNvme

fun lkm_step :: "lkm_event \<Rightarrow> lkm_resource set \<Rightarrow> lkm_resource set" where
  "lkm_step KobjectCreate S = insert ResKobject S"
| "lkm_step SysfsCreateGroup S = S"
| "lkm_step RegisterChrdev S = insert ResChrdev S"
| "lkm_step ClassCreate S = insert ResClass S"
| "lkm_step DeviceCreate S = insert ResDevice S"
| "lkm_step NvmeInit S = insert ResNvme S"
| "lkm_step NvmeExit S = S - {ResNvme}"
| "lkm_step DeviceDestroy S = S - {ResDevice}"
| "lkm_step ClassUnregister S = S - {ResClass}"
| "lkm_step ClassDestroy S = S - {ResClass}"
| "lkm_step UnregisterChrdev S = S - {ResChrdev}"
| "lkm_step KobjectPut S = S - {ResKobject}"

abbreviation held :: "lkm_event list \<Rightarrow> lkm_resource set" where
  "held evs \<equiv> fold lkm_step evs {}"

section \<open>Properties\<close>


definition sample_chario_ns :: nvme_ns where
  "sample_chario_ns = \<lparr>ns_id = 1, ns_lba_shift = 12, ns_ms = 0, ns_ext = False, ns_pi_type = 0, ns_queue = 3\<rparr>"

text \<open>A driver that records the requests, for the examples.\<close>

definition record_submit :: "nvme_user_io list submit_fn" where
  "record_submit uio st = Some (0, st @ [uio])"


text \<open>
  C33: a read moves the file position by the full length or not at all. When \<open>dev_read\<close> returns, either
  all requests succeeded, the length is returned and the position is advanced by it, or the result is
  a negative error (a positive NVMe status becomes -EIO) and the position is unchanged.
\<close>

theorem dev_read_all_or_nothing:
  assumes "dev_read submit ns buf count f_pos st = Some (ret, f_pos', st')"
  shows "(run_pieces (submit_user_io submit ns nvme_cmd_read) (pieces buf count f_pos) st = Some (0, st')
        \<and> ret = sint count \<and> f_pos' = f_pos + ucast count)
    \<or> (run_pieces (submit_user_io submit ns nvme_cmd_read) (pieces buf count f_pos) st = Some (ret, st')
        \<and> ret < 0 \<and> f_pos' = f_pos)"
proof -
  from assms obtain r where r: "run_pieces (submit_user_io submit ns nvme_cmd_read) (pieces buf count f_pos) st = Some (r, st')"
      "(ret, f_pos') = (if r = 0 then (sint count, f_pos + ucast count) else (r, f_pos))"
    by (auto simp: dev_read_def chunk_loop_pieces chunk_finish_def split: if_splits)
  with run_pieces_result [OF r(1)] show ?thesis by (cases "r = 0") auto
qed

theorem dev_read_all_or_nothing_witness:
  "dev_read (\<lambda>uio n. if n < (2 :: nat) then Some (0, Suc n) else Some (0x80, n)) sample_chario_ns 0x1000 9000000 8192 0
      = Some (- EIO, 8192, 2)
    \<and> ((run_pieces (submit_user_io (\<lambda>uio n. if n < (2 :: nat) then Some (0, Suc n) else Some (0x80, n)) sample_chario_ns nvme_cmd_read)
          (pieces 0x1000 9000000 8192) 0 = Some (0, 2)
        \<and> - EIO = sint (9000000 :: u32) \<and> (8192 :: loff) = 8192 + ucast (9000000 :: u32))
    \<or> (run_pieces (submit_user_io (\<lambda>uio n. if n < (2 :: nat) then Some (0, Suc n) else Some (0x80, n)) sample_chario_ns nvme_cmd_read)
          (pieces 0x1000 9000000 8192) 0 = Some (- EIO, 2)
        \<and> - EIO < 0 \<and> (8192 :: loff) = 8192))"
proof -
  have "dev_read (\<lambda>uio n. if n < (2 :: nat) then Some (0, Suc n) else Some (0x80, n)) sample_chario_ns 0x1000 9000000 8192 0
      = Some (- EIO, 8192, 2)"
    by (simp add: dev_read_def chunk_loop.simps submit_user_io_def chunk_finish_def chario_error_def)
  with dev_read_all_or_nothing [OF this] show ?thesis by blast
qed

text \<open>
  \<open>dev_llseek\<close> returns the new position, which is never negative, or leaves the position alone: seeking
  from the end is -ESPIPE, a negative position (also by wrapping around) and an unknown origin
  are -EINVAL.
\<close>

lemma dev_llseek_cases:
  "dev_llseek f_pos off w =
     (if w = SEEK_END then (- ESPIPE, f_pos)
      else if w = SEEK_SET \<and> 0 \<le> sint off then (sint off, off)
      else if w = SEEK_CUR \<and> 0 \<le> sint (f_pos + off) then (sint (f_pos + off), f_pos + off)
      else (- EINVAL, f_pos))"
  by (cases w) (auto simp: dev_llseek_def)

text \<open>
  C35: what the module's initialisation holds. \<open>chario_init\<close> succeeds with every registration made, and
  \<open>chario_exit\<close> then gives up all of them; after a failure the character device, the class and the
  device are released again, but the sysfs object is kept when the character device, the class or
  the device could not be created.
\<close>

theorem chario_init_held:
  "held (snd (chario_init env)) =
     (if fst (chario_init env) = 0 then UNIV
      else if le_kobject env \<and> le_sysfs env = 0 \<and> (le_major env < 0 \<or> le_class env \<noteq> 0 \<or> le_device env \<noteq> 0)
      then {ResKobject} else {})
   \<and> (fst (chario_init env) = 0 \<longrightarrow> held (snd (chario_init env) @ chario_exit) = {})"
proof -
  have univ: "(UNIV :: lkm_resource set) = {ResKobject, ResChrdev, ResClass, ResDevice, ResNvme}"
    using lkm_resource.exhaust by auto
  show ?thesis by (auto simp: chario_init_def chario_exit_def univ Let_def)
qed

theorem chario_init_held_witness:
  "held (snd (chario_init \<lparr>le_kobject = True, le_sysfs = 0, le_major = 240, le_class = 0, le_device = 0, le_nvme = 0\<rparr>)) = UNIV
    \<and> held (snd (chario_init \<lparr>le_kobject = True, le_sysfs = 0, le_major = 240, le_class = 0, le_device = 0, le_nvme = 0\<rparr>)
          @ chario_exit) = {}"
proof -
  let ?env = "\<lparr>le_kobject = True, le_sysfs = 0, le_major = 240, le_class = 0, le_device = 0, le_nvme = 0\<rparr>"
  have "fst (chario_init ?env) = 0" by (simp add: chario_init_def)
  with chario_init_held [of ?env] show ?thesis by presburger
qed

end
