(* ===== verification/Libchario.thy ===== *)
theory Libchario
  imports Chario "HOL-Library.Signed_Division"
begin

text \<open>
  The user-space library (src/libchario/libchario.c), in the configuration of the repository
  (USE_PHYS is not defined), for a 32-bit platform: size_t and off_t have 32 bits.

  A task is a list of block ranges, each with its place in the one buffer of the library. The system
  calls of the library on the device are the record \<open>lib_ops\<close>, with the state they change; their
  results are only printed.
\<close>

type_synonym off_t = "32 word"

abbreviation CHARIO_BLOCK_SIZE :: "32 word" where "CHARIO_BLOCK_SIZE \<equiv> 4096"
abbreviation DDR_SIZE :: nat where "DDR_SIZE \<equiv> 0x10000000"

record chario_blocks_range =
  rg_start :: off_t
  rg_count :: u32
  rg_buffer_offset :: off_t

record chario_task =
  ct_id :: int
  ct_ranges :: "chario_blocks_range list"
  ct_range_count :: u32
  ct_total_size :: u32

text \<open>The globals fd, mfd and buffer; a NULL buffer is 0.\<close>

record chario_globals =
  lc_fd :: int
  lc_mfd :: int
  lc_buffer :: u32

record 'a lib_ops =
  lib_lseek :: "off_t \<Rightarrow> 'a \<Rightarrow> 'a"
  lib_read :: "u32 \<Rightarrow> u32 \<Rightarrow> 'a \<Rightarrow> 'a"
  lib_write :: "u32 \<Rightarrow> u32 \<Rightarrow> 'a \<Rightarrow> 'a"

section \<open>The device\<close>

text \<open>\<open>chario_init_device\<close>: \<open>opened\<close> is the result of open, \<open>memory\<close> of aligned_alloc.\<close>

definition chario_init_device :: "int \<Rightarrow> u32 \<Rightarrow> chario_globals \<Rightarrow> u32 \<times> chario_globals" where
  "chario_init_device opened memory g =
     (if opened < 0 then (0, g\<lparr>lc_fd := opened\<rparr>)
      else (memory, g\<lparr>lc_fd := opened, lc_buffer := memory\<rparr>))"

definition chario_close_device :: "chario_globals \<Rightarrow> int \<times> chario_globals" where
  "chario_close_device g = (0, g\<lparr>lc_buffer := 0, lc_mfd := -1, lc_fd := -1\<rparr>)"

section \<open>Tasks\<close>

definition chario_init_task :: "chario_task \<Rightarrow> int \<Rightarrow> chario_task" where
  "chario_init_task task i = task\<lparr>ct_id := i, ct_ranges := []\<rparr>"

text \<open>A failed malloc is not checked and crashes: None.\<close>

definition chario_add_range_to_task :: "bool \<Rightarrow> chario_task \<Rightarrow> u32 \<Rightarrow> off_t \<Rightarrow> chario_task option" where
  "chario_add_range_to_task malloc task count offset =
     (if \<not> malloc then None
      else let rg = \<lparr>rg_start = offset, rg_count = count,
                 rg_buffer_offset = (if ct_ranges task = [] then 0
                   else rg_buffer_offset (last (ct_ranges task))
                          + rg_count (last (ct_ranges task)) * CHARIO_BLOCK_SIZE)\<rparr>
        in Some (task\<lparr>ct_ranges := ct_ranges task @ [rg], ct_range_count := ct_range_count task + 1,
                      ct_total_size := ct_total_size task + count * CHARIO_BLOCK_SIZE\<rparr>))"

text \<open>\<open>buffer + range->buffer_offset / 8\<close> on a pointer to 64-bit words.\<close>

definition range_address :: "u32 \<Rightarrow> chario_blocks_range \<Rightarrow> u32" where
  "range_address buffer rg = buffer + of_int (8 * (sint (rg_buffer_offset rg) sdiv 8))"

definition buffer_for_range :: "chario_globals \<Rightarrow> chario_blocks_range \<Rightarrow> u32" where
  "buffer_for_range g rg = (if lc_buffer g = 0 then 0 else range_address (lc_buffer g) rg)"

definition load_range :: "'a lib_ops \<Rightarrow> u32 \<Rightarrow> chario_blocks_range \<Rightarrow> 'a \<Rightarrow> 'a" where
  "load_range ops buffer rg st =
     lib_read ops (range_address buffer rg) (rg_count rg * CHARIO_BLOCK_SIZE)
       (lib_lseek ops (rg_start rg * CHARIO_BLOCK_SIZE) st)"

definition flush_range :: "'a lib_ops \<Rightarrow> u32 \<Rightarrow> chario_blocks_range \<Rightarrow> 'a \<Rightarrow> 'a" where
  "flush_range ops buffer rg st =
     lib_write ops (range_address buffer rg) (rg_count rg * CHARIO_BLOCK_SIZE)
       (lib_lseek ops (rg_start rg * CHARIO_BLOCK_SIZE) st)"

definition chario_load_blocks_for_task :: "'a lib_ops \<Rightarrow> chario_globals \<Rightarrow> chario_task \<Rightarrow> 'a \<Rightarrow> int \<times> 'a" where
  "chario_load_blocks_for_task ops g task st =
     (if lc_fd g = -1 \<or> lc_buffer g = 0 then (1, st)
      else (0, fold (load_range ops (lc_buffer g)) (ct_ranges task) st))"

definition chario_flush_blocks_for_task :: "'a lib_ops \<Rightarrow> chario_globals \<Rightarrow> chario_task \<Rightarrow> 'a \<Rightarrow> int \<times> 'a" where
  "chario_flush_blocks_for_task ops g task st =
     (if lc_fd g = -1 \<or> lc_buffer g = 0 then (1, st)
      else (0, fold (flush_range ops (lc_buffer g)) (ct_ranges task) st))"

section \<open>The layout of the buffer\<close>

abbreviation range_bytes :: "chario_blocks_range \<Rightarrow> nat" where
  "range_bytes r \<equiv> 4096 * unat (rg_count r)"

text \<open>Each rg starts where the one before it ends; the totals count them.\<close>

definition task_ok :: "chario_task \<Rightarrow> bool" where
  "task_ok task \<longleftrightarrow>
     (\<forall>k<length (ct_ranges task).
        rg_buffer_offset (ct_ranges task ! k) = of_nat (sum_list (map range_bytes (take k (ct_ranges task)))))
     \<and> ct_range_count task = of_nat (length (ct_ranges task))
     \<and> ct_total_size task = of_nat (sum_list (map range_bytes (ct_ranges task)))"

lemma task_ok_init: "ct_range_count task = 0 \<Longrightarrow> ct_total_size task = 0 \<Longrightarrow> task_ok (chario_init_task task i)"
  by (simp add: task_ok_def chario_init_task_def)

lemma range_bytes_word: "of_nat (range_bytes r) = rg_count r * CHARIO_BLOCK_SIZE"
  by simp

lemma task_ok_add:
  assumes "task_ok task" "chario_add_range_to_task malloc task count offset = Some task'"
  shows "task_ok task'"
proof -
  let ?rs = "ct_ranges task"
  define new where "new = \<lparr>rg_start = offset, rg_count = count, rg_buffer_offset = (if ?rs = [] then 0
                   else rg_buffer_offset (last ?rs) + rg_count (last ?rs) * CHARIO_BLOCK_SIZE)\<rparr>"
  have t': "ct_ranges task' = ?rs @ [new]" "ct_range_count task' = ct_range_count task + 1"
      "ct_total_size task' = ct_total_size task + count * CHARIO_BLOCK_SIZE"
    using assms(2) by (auto simp: chario_add_range_to_task_def Let_def new_def split: if_splits)
  have "rg_buffer_offset new = of_nat (sum_list (map range_bytes ?rs))"
  proof (cases ?rs rule: rev_cases)
    case Nil
    then show ?thesis by (simp add: new_def)
  next
    case (snoc rs r)
    then have "rg_buffer_offset r = of_nat (sum_list (map range_bytes rs))"
      using assms(1) by (auto simp: task_ok_def dest: spec [of _ "length rs"])
    then show ?thesis using snoc by (simp add: new_def)
  qed
  then show ?thesis
    using assms(1) t' by (auto simp: task_ok_def nth_append less_Suc_eq new_def)
qed

inductive task_reachable :: "chario_task \<Rightarrow> bool" where
  Init: "ct_range_count task = 0 \<Longrightarrow> ct_total_size task = 0 \<Longrightarrow> task_reachable (chario_init_task task i)"
| Add: "task_reachable task \<Longrightarrow> chario_add_range_to_task malloc task count offset = Some task'
    \<Longrightarrow> task_reachable task'"

lemma task_reachable_ok: "task_reachable task \<Longrightarrow> task_ok task"
  by (induction rule: task_reachable.induct) (auto intro: task_ok_init task_ok_add)

lemma sum_list_take_le: "k \<le> length xs \<Longrightarrow> sum_list (map f (take k xs)) \<le> sum_list (map (f :: 'b \<Rightarrow> nat) xs)"
  by (metis append_take_drop_id le_add1 map_append sum_list_append)

lemma range_end_le:
  assumes "j < k" "k \<le> length xs"
  shows "sum_list (map f (take j xs)) + f (xs ! j) \<le> sum_list (map (f :: 'b \<Rightarrow> nat) (take k xs))"
proof -
  have "take (Suc j) xs = take j xs @ [xs ! j]" using assms by (simp add: take_Suc_conv_app_nth)
  then have "sum_list (map f (take j xs)) + f (xs ! j) = sum_list (map f (take (Suc j) (take k xs)))"
    using assms by (simp add: min_def)
  also have "\<dots> \<le> sum_list (map f (take k xs))" using assms by (intro sum_list_take_le) simp
  finally show ?thesis .
qed

lemma range_bytes_dvd: "8 dvd sum_list (map range_bytes rs)"
  by (induction rs) (auto intro!: dvd_add)

lemma sint_off_small: "n < 2 ^ 31 \<Longrightarrow> sint (of_nat n :: off_t) = int n"
proof -
  assume "n < 2 ^ 31"
  moreover have "sint (of_int (int n) :: off_t) = signed_take_bit 31 (int n)"
    using sint_sbintrunc' [where 'a = 32, of "int n"] by simp
  ultimately show ?thesis by (simp add: signed_take_bit_int_eq_self)
qed

lemma range_address_eq:
  assumes "rg_buffer_offset r = of_nat n" "8 dvd n" "n < DDR_SIZE" "unat b + DDR_SIZE \<le> 2 ^ 32"
  shows "unat (range_address b r) = unat b + n"
proof -
  obtain m where m: "n = 8 * m" using assms(2) by (elim dvdE)
  have "sint (of_nat n :: off_t) = int n" using assms(3) by (intro sint_off_small) simp
  moreover have "int n sdiv 8 = int m" by (cases "m = 0") (simp_all add: m signed_divide_int_def sgn_1_pos)
  ultimately have "8 * (sint (rg_buffer_offset r) sdiv 8) = int n" unfolding assms(1) by (simp add: m)
  then have "range_address b r = b + of_nat n" by (simp only: range_address_def of_int_of_nat_eq)
  moreover have "unat (of_nat n :: u32) = n" using assms(3) by (simp only: unat_of_nat) simp
  ultimately have "unat (range_address b r) = (unat b + n) mod 2 ^ 32" by (simp only: unat_word_ariths) simp
  then show ?thesis using assms(3,4) by simp
qed

section \<open>Properties\<close>

text \<open>
  C16: the ranges of a task have disjoint places in the buffer. For a task made by \<open>chario_init_task\<close> (on
  zeroed memory) and any calls of \<open>chario_add_range_to_task\<close>, whose ranges fit in the buffer together:
  the place \<open>buffer_for_range\<close> of every rg that is not empty lies inside the buffer, after the
  places of the ranges added before it, and the total size is the sum of the ranges.
\<close>

theorem libchario_ranges_disjoint:
  assumes "task_reachable task" "sum_list (map range_bytes (ct_ranges task)) \<le> DDR_SIZE"
    "lc_buffer g \<noteq> 0" "unat (lc_buffer g) + DDR_SIZE \<le> 2 ^ 32"
  shows "unat (ct_total_size task) = sum_list (map range_bytes (ct_ranges task))
    \<and> (\<forall>k<length (ct_ranges task). rg_count (ct_ranges task ! k) \<noteq> 0 \<longrightarrow>
          unat (lc_buffer g) \<le> unat (buffer_for_range g (ct_ranges task ! k))
          \<and> unat (buffer_for_range g (ct_ranges task ! k)) + range_bytes (ct_ranges task ! k)
              \<le> unat (lc_buffer g) + unat (ct_total_size task)
          \<and> (\<forall>j<k. rg_count (ct_ranges task ! j) \<noteq> 0 \<longrightarrow>
                unat (buffer_for_range g (ct_ranges task ! j)) + range_bytes (ct_ranges task ! j)
                  \<le> unat (buffer_for_range g (ct_ranges task ! k))))"
proof -
  let ?rs = "ct_ranges task" and ?b = "lc_buffer g"
  let ?s = "\<lambda>k. sum_list (map range_bytes (take k ?rs))"
  have ok: "task_ok task" by (rule task_reachable_ok [OF assms(1)])
  have "unat (of_nat (sum_list (map range_bytes ?rs)) :: u32) = sum_list (map range_bytes ?rs)"
    using assms(2) by (simp only: unat_of_nat) simp
  with ok have total: "unat (ct_total_size task) = sum_list (map range_bytes ?rs)" by (simp add: task_ok_def)
  have last: "?s k + range_bytes (?rs ! k) \<le> sum_list (map range_bytes ?rs)" if "k < length ?rs" for k
    using range_end_le [of k "length ?rs" ?rs range_bytes] that by simp
  have addr: "unat (buffer_for_range g (?rs ! k)) = unat ?b + ?s k"
    if "k < length ?rs" "rg_count (?rs ! k) \<noteq> 0" for k
  proof -
    have "0 < unat (rg_count (?rs ! k))" using that(2) by (simp add: unat_gt_0)
    then have "?s k < DDR_SIZE" using last [OF that(1)] assms(2) by linarith
    moreover have "rg_buffer_offset (?rs ! k) = of_nat (?s k)" using ok that(1) by (simp only: task_ok_def)
    ultimately have "unat (range_address ?b (?rs ! k)) = unat ?b + ?s k"
      by (intro range_address_eq range_bytes_dvd assms(4))
    then show ?thesis using assms(3) by (simp add: buffer_for_range_def)
  qed
  show ?thesis
    using total addr last range_end_le [of _ _ ?rs range_bytes] assms(3)
    by (auto simp: less_imp_le)
qed

definition sample_globals :: chario_globals where
  "sample_globals = \<lparr>lc_fd = 3, lc_mfd = -1, lc_buffer = 0xA0000000\<rparr>"

definition sample_task :: chario_task where
  "sample_task = \<lparr>ct_id = 1,
     ct_ranges = [\<lparr>rg_start = 0, rg_count = 1, rg_buffer_offset = 0\<rparr>, \<lparr>rg_start = 50, rg_count = 2, rg_buffer_offset = 4096\<rparr>],
     ct_range_count = 2, ct_total_size = 12288\<rparr>"

lemma sample_task_reachable: "task_reachable sample_task"
proof -
  let ?zero = "\<lparr>ct_id = 0, ct_ranges = [], ct_range_count = 0, ct_total_size = 0\<rparr>"
  let ?one = "\<lparr>ct_id = 1, ct_ranges = [\<lparr>rg_start = 0, rg_count = 1, rg_buffer_offset = 0\<rparr>], ct_range_count = 1,
     ct_total_size = 4096\<rparr>"
  have "task_reachable (chario_init_task ?zero 1)" by (rule task_reachable.Init) simp_all
  moreover have "chario_add_range_to_task True (chario_init_task ?zero 1) 1 0 = Some ?one"
    by (simp add: chario_add_range_to_task_def chario_init_task_def)
  ultimately have "task_reachable ?one" by (rule task_reachable.Add)
  moreover have "chario_add_range_to_task True ?one 2 50 = Some sample_task"
    by (simp add: chario_add_range_to_task_def sample_task_def)
  ultimately show ?thesis by (rule task_reachable.Add)
qed

theorem libchario_ranges_disjoint_witness:
  "unat (ct_total_size sample_task) = sum_list (map range_bytes (ct_ranges sample_task))
    \<and> unat (lc_buffer sample_globals) \<le> unat (buffer_for_range sample_globals (ct_ranges sample_task ! 1))
    \<and> unat (buffer_for_range sample_globals (ct_ranges sample_task ! 1)) + range_bytes (ct_ranges sample_task ! 1)
        \<le> unat (lc_buffer sample_globals) + unat (ct_total_size sample_task)
    \<and> unat (buffer_for_range sample_globals (ct_ranges sample_task ! 0)) + range_bytes (ct_ranges sample_task ! 0)
        \<le> unat (buffer_for_range sample_globals (ct_ranges sample_task ! 1))"
proof -
  have pre: "sum_list (map range_bytes (ct_ranges sample_task)) \<le> DDR_SIZE" "lc_buffer sample_globals \<noteq> 0"
      "unat (lc_buffer sample_globals) + DDR_SIZE \<le> 2 ^ 32"
    by (simp_all add: sample_task_def sample_globals_def)
  have "1 < length (ct_ranges sample_task)" "rg_count (ct_ranges sample_task ! 1) \<noteq> 0"
      "rg_count (ct_ranges sample_task ! 0) \<noteq> 0"
    by (simp_all add: sample_task_def)
  with libchario_ranges_disjoint [OF sample_task_reachable pre] show ?thesis by blast
qed



end
