(* ===== verification/Scsi_Base.thy ===== *)
theory Scsi_Base
  imports Nvme_Device
begin

text \<open>
  The base of the SCSI translation (src/nvme-scsi.c): struct sg_io_hdr with its byte layout, user
  memory and the copies from and to it, kernel buffers, the fields of a command descriptor
  block (CDB), the writing of status and sense data (\<open>nvme_trans_completion\<close>) and the translation of
  NVMe status codes (\<open>nvme_trans_status_code\<close>).

  User memory is a partial function from addresses to bytes; an access where it is None faults.
  A kernel buffer is the list of its bytes, and an access outside of it is None. \<open>scsi\<close> is the
  state a translation changes: the header (a local variable of \<open>nvme_sg_io\<close>), user memory, the
  driver, the kernel buffers and DMA buffers that are allocated, the number of allocations so
  far, the two fields of the namespace that MODE SELECT leaves for FORMAT UNIT, and the range
  lists written for UNMAP. \<open>scsi_env\<close> is what does not change, and the answers of the kernel and of the
  controller as functions of the state.
\<close>

section \<open>The header\<close>

text \<open>Pointers and ints are words of 32 bits.\<close>

record sg_io_hdr =
  h_interface_id :: u32
  h_dxfer_direction :: u32
  h_cmd_len :: u8
  h_mx_sb_len :: u8
  h_iovec_count :: u16
  h_dxfer_len :: u32
  h_dxferp :: u32
  h_cmdp :: u32
  h_sbp :: u32
  h_timeout :: u32
  h_flags :: u32
  h_pack_id :: u32
  h_usr_ptr :: u32
  h_status :: u8
  h_masked_status :: u8
  h_msg_status :: u8
  h_sb_len_wr :: u8
  h_host_status :: u16
  h_driver_status :: u16
  h_resid :: u32
  h_duration :: u32
  h_info :: u32

definition encode_hdr :: "sg_io_hdr \<Rightarrow> u8 list" where
  "encode_hdr h =
     le_bytes 4 (h_interface_id h) @ le_bytes 4 (h_dxfer_direction h) @ [h_cmd_len h, h_mx_sb_len h]
     @ le_bytes 2 (h_iovec_count h) @ le_bytes 4 (h_dxfer_len h) @ le_bytes 4 (h_dxferp h)
     @ le_bytes 4 (h_cmdp h) @ le_bytes 4 (h_sbp h) @ le_bytes 4 (h_timeout h) @ le_bytes 4 (h_flags h)
     @ le_bytes 4 (h_pack_id h) @ le_bytes 4 (h_usr_ptr h)
     @ [h_status h, h_masked_status h, h_msg_status h, h_sb_len_wr h]
     @ le_bytes 2 (h_host_status h) @ le_bytes 2 (h_driver_status h) @ le_bytes 4 (h_resid h)
     @ le_bytes 4 (h_duration h) @ le_bytes 4 (h_info h)"

text \<open>The little-endian word of n bytes at offset k.\<close>

definition le_at :: "nat \<Rightarrow> nat \<Rightarrow> u8 list \<Rightarrow> 'a::len word" where
  "le_at n k bs = of_le_bytes (take n (drop k bs))"

definition decode_hdr :: "u8 list \<Rightarrow> sg_io_hdr" where
  "decode_hdr bs =
     \<lparr>h_interface_id = le_at 4 0 bs, h_dxfer_direction = le_at 4 4 bs, h_cmd_len = le_at 1 8 bs,
      h_mx_sb_len = le_at 1 9 bs, h_iovec_count = le_at 2 10 bs, h_dxfer_len = le_at 4 12 bs,
      h_dxferp = le_at 4 16 bs, h_cmdp = le_at 4 20 bs, h_sbp = le_at 4 24 bs, h_timeout = le_at 4 28 bs,
      h_flags = le_at 4 32 bs, h_pack_id = le_at 4 36 bs, h_usr_ptr = le_at 4 40 bs,
      h_status = le_at 1 44 bs, h_masked_status = le_at 1 45 bs, h_msg_status = le_at 1 46 bs,
      h_sb_len_wr = le_at 1 47 bs, h_host_status = le_at 2 48 bs, h_driver_status = le_at 2 50 bs,
      h_resid = le_at 4 52 bs, h_duration = le_at 4 56 bs, h_info = le_at 4 60 bs\<rparr>"

abbreviation SIZEOF_SG_IO_HDR :: nat where "SIZEOF_SG_IO_HDR \<equiv> 64"
abbreviation SIZEOF_SG_IOVEC :: nat where "SIZEOF_SG_IOVEC \<equiv> 8"

section \<open>State\<close>

type_synonym user_mem = "u32 \<Rightarrow> u8 option"

record scsi =
  s_hdr :: sg_io_hdr
  s_mem :: user_mem
  s_dev :: nvme_dev
  s_kmem :: nat
  s_dma :: "(nat \<times> dma_addr) list"
  s_calls :: nat
  s_mode_select_num_blocks :: u64
  s_mode_select_block_len :: u32
  s_ranges :: "(dma_addr \<times> (u32 \<times> u32 \<times> u64) list) list"

text \<open>
  The further fields of the identify data that the translation reads; the temperature of the SMART
  log is two bytes.
\<close>

record scsi_id_ns = nvme_id_ns +
  id_nlbaf :: u8
  id_dpc :: u8
  id_eui64 :: "u8 list"
  id_nguid :: "u8 list"

record scsi_id_ctrl = nvme_id_ctrl +
  ic_npss :: u8

record scsi_env =
  e_admin :: task_env
  e_io :: task_env
  e_map :: "scsi \<Rightarrow> map_env"
  e_palloc :: "prp_pool \<Rightarrow> pool_alloc"
  e_kmalloc :: "scsi \<Rightarrow> bool"
  e_kmem :: "nat \<Rightarrow> u8"
  e_stack :: "nat \<Rightarrow> u8"
  e_dma_alloc :: "scsi \<Rightarrow> dma_addr option"
  e_id_ns :: "scsi \<Rightarrow> scsi_id_ns"
  e_id_ctrl :: "scsi \<Rightarrow> scsi_id_ctrl"
  e_smart :: "scsi \<Rightarrow> u8 \<times> u8"
  e_vs :: u32
  e_csts :: u32
  e_capable :: bool
  e_vendor :: u16
  e_max_hw_sectors :: u32
  e_disk :: nvme_disk
  e_serial :: "u8 list"
  e_model :: "u8 list"
  e_firmware_rev :: "u8 list"

abbreviation e_ns :: "scsi_env \<Rightarrow> nvme_ns" where "e_ns env \<equiv> n_ns (e_disk env)"

section \<open>Memory\<close>

text \<open>
  copy_to_user and copy_from_user return the number of bytes not copied; the rest of the kernel
  buffer is cleared when copy_from_user faults.
\<close>

fun copy_to_user :: "u32 \<Rightarrow> u8 list \<Rightarrow> user_mem \<Rightarrow> nat \<times> user_mem" where
  "copy_to_user a [] m = (0, m)"
| "copy_to_user a (b # bs) m =
     (case m a of None \<Rightarrow> (Suc (length bs), m) | Some _ \<Rightarrow> copy_to_user (a + 1) bs (m(a \<mapsto> b)))"

fun copy_from_user :: "u32 \<Rightarrow> nat \<Rightarrow> user_mem \<Rightarrow> nat \<times> u8 list" where
  "copy_from_user a 0 m = (0, [])"
| "copy_from_user a (Suc n) m =
     (case m a of None \<Rightarrow> (Suc n, replicate (Suc n) 0)
      | Some b \<Rightarrow> map_prod (\<lambda>k. k) ((#) b) (copy_from_user (a + 1) n m))"

text \<open>Reading the first n bytes of a kernel buffer, and writing bytes at an offset.\<close>

definition buf_take :: "nat \<Rightarrow> u8 list \<Rightarrow> u8 list option" where
  "buf_take n buf = (if n \<le> length buf then Some (take n buf) else None)"

definition poke :: "nat \<Rightarrow> u8 list \<Rightarrow> u8 list \<Rightarrow> u8 list option" where
  "poke k bs buf = (if k + length bs \<le> length buf then Some (take k buf @ bs @ drop (k + length bs) buf) else None)"

fun pokes :: "(nat \<times> u8 list) list \<Rightarrow> u8 list \<Rightarrow> u8 list option" where
  "pokes [] buf = Some buf"
| "pokes ((k, bs) # ws) buf = do { buf' \<leftarrow> poke k bs buf; pokes ws buf' }"

definition peek :: "nat \<Rightarrow> u8 list \<Rightarrow> u8 option" where
  "peek k buf = (if k < length buf then Some (buf ! k) else None)"

definition kmalloc :: "scsi_env \<Rightarrow> nat \<Rightarrow> scsi \<Rightarrow> (u8 list \<times> scsi) option" where
  "kmalloc env n s =
     (if e_kmalloc env s
      then Some (map (e_kmem env) [0..<n], s\<lparr>s_kmem := s_kmem s + 1, s_calls := s_calls s + 1\<rparr>)
      else None)"

definition kzalloc :: "scsi_env \<Rightarrow> nat \<Rightarrow> scsi \<Rightarrow> (u8 list \<times> scsi) option" where
  "kzalloc env n s = map_option (map_prod (\<lambda>_. replicate n 0) (\<lambda>s'. s')) (kmalloc env n s)"

definition kfree :: "scsi \<Rightarrow> scsi" where
  "kfree s = s\<lparr>s_kmem := s_kmem s - 1\<rparr>"

definition dma_alloc_coherent :: "scsi_env \<Rightarrow> nat \<Rightarrow> scsi \<Rightarrow> (dma_addr \<times> scsi) option" where
  "dma_alloc_coherent env n s =
     map_option (\<lambda>d. (d, s\<lparr>s_dma := (n, d) # s_dma s, s_calls := s_calls s + 1\<rparr>)) (e_dma_alloc env s)"

definition dma_free_coherent :: "nat \<Rightarrow> dma_addr \<Rightarrow> scsi \<Rightarrow> scsi" where
  "dma_free_coherent n d s = s\<lparr>s_dma := remove1 (n, d) (s_dma s)\<rparr>"

section \<open>Copies through the header\<close>

text \<open>The iovec with number i at \<open>hdr->dxferp\<close>: its base and its length.\<close>

definition read_iovec :: "nat \<Rightarrow> scsi \<Rightarrow> (u32 \<times> u32) option" where
  "read_iovec i s =
     (case copy_from_user (h_dxferp (s_hdr s) + of_nat (i * SIZEOF_SG_IOVEC)) SIZEOF_SG_IOVEC (s_mem s) of
        (not_copied, bs) \<Rightarrow> if not_copied \<noteq> 0 then None else Some (le_at 4 0 bs, le_at 4 4 bs))"

text \<open>The loops over the iovecs, from number i with k of them left; \<open>from\<close> is what remains to copy.\<close>

fun copy_to_iovecs :: "nat \<Rightarrow> nat \<Rightarrow> u8 list \<Rightarrow> scsi \<Rightarrow> int \<times> scsi" where
  "copy_to_iovecs i 0 from s = (0, s)"
| "copy_to_iovecs i (Suc k) from s =
     (case read_iovec i s of
        None \<Rightarrow> (- EFAULT, s)
      | Some (iov_base, iov_len) \<Rightarrow>
          let xfer_len = min (length from) (unat iov_len);
              (not_copied, mem) = copy_to_user iov_base (take xfer_len from) (s_mem s);
              s' = s\<lparr>s_mem := mem\<rparr>
          in if not_copied \<noteq> 0 then (- EFAULT, s')
             else if drop xfer_len from = [] then (0, s')
             else copy_to_iovecs (Suc i) k (drop xfer_len from) s')"

definition nvme_trans_copy_to_user :: "u8 list \<Rightarrow> scsi \<Rightarrow> int \<times> scsi" where
  "nvme_trans_copy_to_user from s =
     (if h_iovec_count (s_hdr s) > 0 then copy_to_iovecs 0 (unat (h_iovec_count (s_hdr s))) from s
      else case copy_to_user (h_dxferp (s_hdr s)) from (s_mem s) of
             (not_copied, mem) \<Rightarrow> (if not_copied \<noteq> 0 then - EFAULT else 0, s\<lparr>s_mem := mem\<rparr>))"

text \<open>The copy from user space fills the start of the buffer \<open>to\<close>; what it does not reach stays.\<close>

fun copy_from_iovecs :: "nat \<Rightarrow> nat \<Rightarrow> nat \<Rightarrow> u8 list \<Rightarrow> u8 list \<Rightarrow> scsi \<Rightarrow> int \<times> u8 list" where
  "copy_from_iovecs i 0 n done to s = (0, done @ to)"
| "copy_from_iovecs i (Suc k) n done to s =
     (case read_iovec i s of
        None \<Rightarrow> (- EFAULT, done @ to)
      | Some (iov_base, iov_len) \<Rightarrow>
          let xfer_len = min n (unat iov_len);
              (not_copied, bs) = copy_from_user iov_base xfer_len (s_mem s)
          in if not_copied \<noteq> 0 then (- EFAULT, done @ bs @ drop xfer_len to)
             else if n - xfer_len = 0 then (0, done @ bs @ drop xfer_len to)
             else copy_from_iovecs (Suc i) k (n - xfer_len) (done @ bs) (drop xfer_len to) s)"

definition nvme_trans_copy_from_user :: "nat \<Rightarrow> u8 list \<Rightarrow> scsi \<Rightarrow> (int \<times> u8 list) option" where
  "nvme_trans_copy_from_user n to s =
     (if length to < n then None
      else if h_iovec_count (s_hdr s) > 0
      then Some (copy_from_iovecs 0 (unat (h_iovec_count (s_hdr s))) n [] to s)
      else case copy_from_user (h_dxferp (s_hdr s)) n (s_mem s) of
             (not_copied, bs) \<Rightarrow> Some (if not_copied \<noteq> 0 then - EFAULT else 0, bs @ drop n to))"

section \<open>Command descriptor blocks\<close>

text \<open>
  The macros GET_U8_FROM_CDB to GET_U64_FROM_CDB. Up to 32 bits they compute an int, here its bit
  pattern.
\<close>

definition get_u8 :: "u8 list \<Rightarrow> nat \<Rightarrow> u32" where
  "get_u8 cdb i = ucast (cdb ! i)"

definition get_u16 :: "u8 list \<Rightarrow> nat \<Rightarrow> u32" where
  "get_u16 cdb i = push_bit 8 (ucast (cdb ! i)) OR ucast (cdb ! (i + 1))"

definition get_u24 :: "u8 list \<Rightarrow> nat \<Rightarrow> u32" where
  "get_u24 cdb i = push_bit 16 (ucast (cdb ! i)) OR push_bit 8 (ucast (cdb ! (i + 1))) OR ucast (cdb ! (i + 2))"

definition get_u32 :: "u8 list \<Rightarrow> nat \<Rightarrow> u32" where
  "get_u32 cdb i = push_bit 24 (ucast (cdb ! i)) OR push_bit 16 (ucast (cdb ! (i + 1)))
     OR push_bit 8 (ucast (cdb ! (i + 2))) OR ucast (cdb ! (i + 3))"

definition get_u64 :: "u8 list \<Rightarrow> nat \<Rightarrow> u64" where
  "get_u64 cdb i = push_bit 56 (ucast (cdb ! i)) OR push_bit 48 (ucast (cdb ! (i + 1)))
     OR push_bit 40 (ucast (cdb ! (i + 2))) OR push_bit 32 (ucast (cdb ! (i + 3)))
     OR push_bit 24 (ucast (cdb ! (i + 4))) OR push_bit 16 (ucast (cdb ! (i + 5)))
     OR push_bit 8 (ucast (cdb ! (i + 6))) OR ucast (cdb ! (i + 7))"

section \<open>Status and sense data\<close>

abbreviation SAM_STAT_GOOD :: u8 where "SAM_STAT_GOOD \<equiv> 0"
abbreviation SAM_STAT_CHECK_CONDITION :: u8 where "SAM_STAT_CHECK_CONDITION \<equiv> 2"
abbreviation SAM_STAT_TASK_ABORTED :: u8 where "SAM_STAT_TASK_ABORTED \<equiv> 0x40"

abbreviation NO_SENSE :: u8 where "NO_SENSE \<equiv> 0"
abbreviation NOT_READY :: u8 where "NOT_READY \<equiv> 2"
abbreviation MEDIUM_ERROR :: u8 where "MEDIUM_ERROR \<equiv> 3"
abbreviation HARDWARE_ERROR :: u8 where "HARDWARE_ERROR \<equiv> 4"
abbreviation ILLEGAL_REQUEST :: u8 where "ILLEGAL_REQUEST \<equiv> 5"
abbreviation ABORTED_COMMAND :: u8 where "ABORTED_COMMAND \<equiv> 0xb"
abbreviation MISCOMPARE :: u8 where "MISCOMPARE \<equiv> 0xe"

abbreviation SCSI_ASC_NO_SENSE :: u8 where "SCSI_ASC_NO_SENSE \<equiv> 0"
abbreviation SCSI_ASC_LUN_NOT_READY :: u8 where "SCSI_ASC_LUN_NOT_READY \<equiv> 4"
abbreviation SCSI_ASC_ILLEGAL_COMMAND :: u8 where "SCSI_ASC_ILLEGAL_COMMAND \<equiv> 0x20"
abbreviation SCSI_ASC_INVALID_CDB :: u8 where "SCSI_ASC_INVALID_CDB \<equiv> 0x24"
abbreviation SCSI_ASC_INVALID_PARAMETER :: u8 where "SCSI_ASC_INVALID_PARAMETER \<equiv> 0x26"
abbreviation SCSI_ASCQ_CAUSE_NOT_REPORTABLE :: u8 where "SCSI_ASCQ_CAUSE_NOT_REPORTABLE \<equiv> 0"
abbreviation SCSI_ASCQ_FORMAT_IN_PROGRESS :: u8 where "SCSI_ASCQ_FORMAT_IN_PROGRESS \<equiv> 4"

definition scsi_status_is_good :: "u8 \<Rightarrow> bool" where
  "scsi_status_is_good status \<longleftrightarrow> status AND 0xfe \<in> {0, 0x10, 0x14, 0x22}"

abbreviation DESC_FMT_SENSE_DATA_SIZE :: nat where "DESC_FMT_SENSE_DATA_SIZE \<equiv> 8"

definition nvme_trans_completion :: "u8 \<Rightarrow> u8 \<Rightarrow> u8 \<Rightarrow> u8 \<Rightarrow> scsi \<Rightarrow> int \<times> scsi" where
  "nvme_trans_completion status sense_key asc ascq s =
     (if scsi_status_is_good status
      then (0, s\<lparr>s_hdr := (s_hdr s)\<lparr>h_status := SAM_STAT_GOOD, h_masked_status := 0, h_host_status := 0,
                 h_driver_status := 0, h_sb_len_wr := 0\<rparr>\<rparr>)
      else
        (let resp = [0x72, sense_key, asc, ascq, 0, 0, 0, 0];
             xfer_len = min (h_mx_sb_len (s_hdr s)) 8;
             hdr = (s_hdr s)\<lparr>h_status := status, h_masked_status := drop_bit 1 status, h_host_status := 0,
                      h_driver_status := 0, h_sb_len_wr := xfer_len\<rparr>;
             (not_copied, mem) = copy_to_user (h_sbp hdr) (take (unat xfer_len) resp) (s_mem s)
         in (if not_copied > 0 then - EFAULT else 0, s\<lparr>s_hdr := hdr, s_mem := mem\<rparr>)))"

text \<open>The switch of \<open>nvme_trans_status_code\<close>: status, sense key, additional code and qualifier.\<close>

definition sense_of_status :: "int \<Rightarrow> u8 \<times> u8 \<times> u8 \<times> u8" where
  "sense_of_status sc =
     (if sc = 0x0 then (SAM_STAT_GOOD, NO_SENSE, 0, 0)
      else if sc = 0x1 then (SAM_STAT_CHECK_CONDITION, ILLEGAL_REQUEST, 0x20, 0)
      else if sc = 0x2 then (SAM_STAT_CHECK_CONDITION, ILLEGAL_REQUEST, 0x24, 0)
      else if sc = 0x4 then (SAM_STAT_CHECK_CONDITION, MEDIUM_ERROR, 0, 0)
      else if sc = 0x5 then (SAM_STAT_TASK_ABORTED, ABORTED_COMMAND, 0x0b, 0x08)
      else if sc = 0x6 then (SAM_STAT_CHECK_CONDITION, HARDWARE_ERROR, 0x44, 0)
      else if sc = 0x7 then (SAM_STAT_TASK_ABORTED, ABORTED_COMMAND, 0, 0)
      else if sc = 0x8 then (SAM_STAT_TASK_ABORTED, ABORTED_COMMAND, 0, 0)
      else if sc = 0x9 then (SAM_STAT_TASK_ABORTED, ABORTED_COMMAND, 0, 0)
      else if sc = 0xa then (SAM_STAT_TASK_ABORTED, ABORTED_COMMAND, 0, 0)
      else if sc = 0xb then (SAM_STAT_CHECK_CONDITION, ILLEGAL_REQUEST, 0x20, 0x09)
      else if sc = 0x80 then (SAM_STAT_CHECK_CONDITION, ILLEGAL_REQUEST, 0x21, 0)
      else if sc = 0x81 then (SAM_STAT_CHECK_CONDITION, MEDIUM_ERROR, 0, 0)
      else if sc = 0x82 then (SAM_STAT_CHECK_CONDITION, NOT_READY, 0x04, 0)
      else if sc = 0x10a then (SAM_STAT_CHECK_CONDITION, ILLEGAL_REQUEST, 0x31, 0x01)
      else if sc = 0x180 then (SAM_STAT_CHECK_CONDITION, ILLEGAL_REQUEST, 0x24, 0)
      else if sc = 0x280 then (SAM_STAT_CHECK_CONDITION, MEDIUM_ERROR, 0x03, 0)
      else if sc = 0x281 then (SAM_STAT_CHECK_CONDITION, MEDIUM_ERROR, 0x11, 0)
      else if sc = 0x282 then (SAM_STAT_CHECK_CONDITION, MEDIUM_ERROR, 0x10, 0x01)
      else if sc = 0x283 then (SAM_STAT_CHECK_CONDITION, MEDIUM_ERROR, 0x10, 0x02)
      else if sc = 0x284 then (SAM_STAT_CHECK_CONDITION, MEDIUM_ERROR, 0x10, 0x03)
      else if sc = 0x285 then (SAM_STAT_CHECK_CONDITION, MISCOMPARE, 0x1d, 0)
      else if sc = 0x286 then (SAM_STAT_CHECK_CONDITION, ILLEGAL_REQUEST, 0x20, 0x09)
      else (SAM_STAT_CHECK_CONDITION, ILLEGAL_REQUEST, 0, 0))"

definition nvme_trans_status_code :: "int \<Rightarrow> scsi \<Rightarrow> int \<times> scsi" where
  "nvme_trans_status_code nvme_sc s =
     (if nvme_sc < 0 then (nvme_sc, s)
      else case sense_of_status (nvme_sc AND 0x7ff) of
             (status, sense_key, asc, ascq) \<Rightarrow> nvme_trans_completion status sense_key asc ascq s)"

text \<open>The reply to a CDB that the code refuses.\<close>

abbreviation invalid_cdb :: "scsi \<Rightarrow> int \<times> scsi" where
  "invalid_cdb \<equiv> nvme_trans_completion SAM_STAT_CHECK_CONDITION ILLEGAL_REQUEST SCSI_ASC_INVALID_CDB
     SCSI_ASCQ_CAUSE_NOT_REPORTABLE"

section \<open>Commands to the controller\<close>

text \<open>
  \<open>on_dev\<close> runs an operation of the driver. \<open>translated\<close> is the sequence that follows most commands: the
  status is translated; the result is the error of the translation if there is one, and the
  status otherwise.
\<close>

definition on_dev :: "(nvme_dev \<Rightarrow> (int \<times> nvme_dev) option) \<Rightarrow> scsi \<Rightarrow> (int \<times> scsi) option" where
  "on_dev f s = map_option (\<lambda>(r, dev). (r, s\<lparr>s_dev := dev\<rparr>)) (f (s_dev s))"

definition translated :: "(nvme_dev \<Rightarrow> (int \<times> nvme_dev) option) \<Rightarrow> scsi \<Rightarrow> (int \<times> scsi) option" where
  "translated f s =
     do { (nvme_sc, s1) \<leftarrow> on_dev f s;
          let (res, s2) = nvme_trans_status_code nvme_sc s1;
          Some (if res \<noteq> 0 then res else nvme_sc, s2) }"

definition admin_cmd :: "scsi_env \<Rightarrow> nvme_command \<Rightarrow> nvme_dev \<Rightarrow> (int \<times> nvme_dev) option" where
  "admin_cmd env c dev = status_only (nvme_submit_admin_cmd (e_admin env) c dev)"

definition identify_ns :: "scsi_env \<Rightarrow> dma_addr \<Rightarrow> scsi \<Rightarrow> (int \<times> scsi) option" where
  "identify_ns env dma_addr s = translated (nvme_identify (e_admin env) (ns_id (e_ns env)) 0 dma_addr) s"

definition identify_ctrl :: "scsi_env \<Rightarrow> dma_addr \<Rightarrow> scsi \<Rightarrow> (int \<times> scsi) option" where
  "identify_ctrl env dma_addr s = translated (nvme_identify (e_admin env) 0 1 dma_addr) s"

text \<open>sizeof(struct nvme_id_ns) and of struct nvme_smart_log.\<close>

abbreviation SIZEOF_ID_NS :: nat where "SIZEOF_ID_NS \<equiv> 4096"
abbreviation SIZEOF_SMART_LOG :: nat where "SIZEOF_SMART_LOG \<equiv> 512"

text \<open>
  A DMA buffer around \<open>body\<close>: -ENOMEM when there is none, and it is freed at the label that every exit
  of the body reaches. Likewise for a kernel buffer.
\<close>

definition with_dma ::
  "scsi_env \<Rightarrow> nat \<Rightarrow> (dma_addr \<Rightarrow> scsi \<Rightarrow> (int \<times> scsi) option) \<Rightarrow> scsi \<Rightarrow> (int \<times> scsi) option" where
  "with_dma env n body s =
     (case dma_alloc_coherent env n s of
        None \<Rightarrow> Some (- ENOMEM, s)
      | Some (dma_addr, s1) \<Rightarrow>
          do { (res, s2) \<leftarrow> body dma_addr s1; Some (res, dma_free_coherent n dma_addr s2) })"

definition with_kmem ::
  "(nat \<Rightarrow> scsi \<Rightarrow> (u8 list \<times> scsi) option) \<Rightarrow> nat \<Rightarrow> (u8 list \<Rightarrow> scsi \<Rightarrow> (int \<times> scsi) option) \<Rightarrow> scsi
     \<Rightarrow> (int \<times> scsi) option" where
  "with_kmem alloc n body s =
     (case alloc n s of
        None \<Rightarrow> Some (- ENOMEM, s)
      | Some (buf, s1) \<Rightarrow> do { (res, s2) \<leftarrow> body buf s1; Some (res, kfree s2) })"

text \<open>The reply: the first \<open>xfer_len\<close> bytes of a buffer go to the user.\<close>

definition reply :: "int \<Rightarrow> u8 list \<Rightarrow> scsi \<Rightarrow> (int \<times> scsi) option" where
  "reply xfer_len buf s = do { bs \<leftarrow> buf_take (nat xfer_len) buf; Some (nvme_trans_copy_to_user bs s) }"

section \<open>Copies\<close>

text \<open>\<open>mapped m a n\<close>: the n bytes from address a on can be accessed.\<close>

definition mapped :: "user_mem \<Rightarrow> u32 \<Rightarrow> nat \<Rightarrow> bool" where
  "mapped m a n \<longleftrightarrow> (\<forall>i < n. m (a + of_nat i) \<noteq> None)"

lemma mapped_0 [simp]: "mapped m a 0"
  by (simp add: mapped_def)

lemma mapped_Suc: "mapped m a (Suc n) \<longleftrightarrow> m a \<noteq> None \<and> mapped m (a + 1) n"
proof -
  have "(\<forall>i < Suc n. m (a + of_nat i) \<noteq> None) \<longleftrightarrow> m a \<noteq> None \<and> (\<forall>i < n. m (a + of_nat (Suc i)) \<noteq> None)"
    by (simp add: All_less_Suc2)
  then show ?thesis by (simp add: mapped_def add.assoc)
qed

lemma mapped_upd: "mapped m a n \<Longrightarrow> mapped (m(x \<mapsto> b)) a n"
  by (simp add: mapped_def)

lemma mapped_le: "mapped m a n \<Longrightarrow> k \<le> n \<Longrightarrow> mapped m a k"
  by (simp add: mapped_def)

lemma copy_to_user_frame:
  "copy_to_user a bs m = (k, m') \<Longrightarrow> (\<And>i. i < length bs \<Longrightarrow> x \<noteq> a + of_nat i) \<Longrightarrow> m' x = m x"
proof (induction a bs m arbitrary: k m' rule: copy_to_user.induct)
  case (2 a b bs m)
  have "x \<noteq> a" using 2(3) [of 0] by simp
  moreover have "x \<noteq> a + 1 + of_nat i" if "i < length bs" for i
    using 2(3) [of "Suc i"] that by (simp add: add.assoc)
  ultimately show ?case using 2(1) 2(2) by (fastforce split: option.splits)
qed simp

lemma copy_to_user_mapped: "mapped m a (length bs) \<Longrightarrow> fst (copy_to_user a bs m) = 0"
  by (induction a bs m rule: copy_to_user.induct) (auto simp: mapped_Suc mapped_upd split: option.splits)

lemma copy_to_user_dom: "dom (snd (copy_to_user a bs m)) = dom m"
proof (induction a bs m rule: copy_to_user.induct)
  case (2 a b bs m)
  then show ?case by (cases "m a") (simp_all add: insert_absorb domI del: fun_upd_apply)
qed simp

lemma mapped_dom: "dom m = dom m' \<Longrightarrow> mapped m a n = mapped m' a n"
  by (auto simp: mapped_def dom_def set_eq_iff)

lemma copy_from_user_length: "length (snd (copy_from_user a n m)) = n"
  by (induction a n m rule: copy_from_user.induct) (auto split: option.splits)

lemma copy_from_user_mapped: "mapped m a n \<longleftrightarrow> fst (copy_from_user a n m) = 0"
  by (induction a n m rule: copy_from_user.induct) (auto simp: mapped_Suc split: option.splits)

text \<open>What copy_to_user stores without a fault is what copy_from_user reads back.\<close>

lemma of_nat_u32_eq_0: "n < 2 ^ 32 \<Longrightarrow> (of_nat n :: u32) = 0 \<Longrightarrow> n = 0"
  using unat_of_nat [of n, where 'a = 32] by (simp add: take_bit_nat_eq_self)

lemma copy_roundtrip:
  "copy_to_user a bs m = (0, m') \<Longrightarrow> length bs \<le> 2 ^ 32 \<Longrightarrow> copy_from_user a (length bs) m' = (0, bs)"
proof (induction a bs m arbitrary: m' rule: copy_to_user.induct)
  case (2 a b bs m)
  then obtain b0 where m: "m a = Some b0" "copy_to_user (a + 1) bs (m(a \<mapsto> b)) = (0, m')"
    by (auto split: option.splits)
  have "a \<noteq> a + 1 + of_nat i" if "i < length bs" for i
  proof
    assume "a = a + 1 + of_nat i"
    then have "of_nat (Suc i) = (0 :: u32)" by (simp add: add.assoc)
    then show False using of_nat_u32_eq_0 [of "Suc i"] that 2(3) by simp
  qed
  then have "m' a = Some b" using copy_to_user_frame [OF m(2), of a] by simp
  then show ?case using 2(1) [OF m(1,2)] 2(3) by simp
qed simp

section \<open>Status and sense data reach the user\<close>

lemma sense_of_status_cases:
  assumes "sense_of_status sc = (status, key, asc, ascq)"
  shows "sc = 0 \<and> status = SAM_STAT_GOOD
    \<or> sc \<noteq> 0 \<and> (status = SAM_STAT_CHECK_CONDITION \<or> status = SAM_STAT_TASK_ABORTED)"
  using assms unfolding sense_of_status_def by (simp split: if_splits)

lemma nvme_trans_completion_bad:
  assumes "\<not> scsi_status_is_good status" "mapped (s_mem s) (h_sbp (s_hdr s)) 8"
  shows "\<exists>s'. nvme_trans_completion status key asc ascq s = (0, s')
    \<and> s' = s\<lparr>s_hdr := (s_hdr s)\<lparr>h_status := status, h_masked_status := drop_bit 1 status, h_host_status := 0,
          h_driver_status := 0, h_sb_len_wr := min (h_mx_sb_len (s_hdr s)) 8\<rparr>, s_mem := s_mem s'\<rparr>
    \<and> copy_from_user (h_sbp (s_hdr s)) (unat (min (h_mx_sb_len (s_hdr s)) 8)) (s_mem s')
        = (0, take (unat (min (h_mx_sb_len (s_hdr s)) 8)) [0x72, key, asc, ascq, 0, 0, 0, 0])"
proof -
  let ?n = "unat (min (h_mx_sb_len (s_hdr s)) 8)"
  let ?bs = "take ?n [0x72, key, asc, ascq, 0, 0, 0, 0]"
  have n: "?n \<le> 8" by (simp add: min_def word_le_nat_alt)
  then have len: "length ?bs = ?n" by simp
  obtain m where m: "copy_to_user (h_sbp (s_hdr s)) ?bs (s_mem s) = (0, m)"
    using copy_to_user_mapped [of "s_mem s" "h_sbp (s_hdr s)" ?bs] mapped_le [OF assms(2) n] len
    by (metis prod.collapse)
  then show ?thesis
    using assms(1) copy_roundtrip [OF m] n len by (simp add: nvme_trans_completion_def Let_def)
qed

section \<open>The contract of a command\<close>

text \<open>
  A command gives back the buffers it takes and does not change which user memory is mapped. Its clients
  rely on this contract only.
\<close>

definition bufs :: "scsi \<Rightarrow> nat \<times> (nat \<times> dma_addr) list \<times> u32 set" where
  "bufs s = (s_kmem s, s_dma s, dom (s_mem s))"

locale scsi_command =
  fixes command :: "scsi \<Rightarrow> (int \<times> scsi) option"
  assumes keeps: "command s = Some (res, s') \<Longrightarrow> bufs s' = bufs s"
begin

lemma no_leak: "command s = Some (res, s') \<Longrightarrow> s_kmem s' = s_kmem s \<and> s_dma s' = s_dma s"
  using keeps by (simp add: bufs_def)

lemma mapped_after: "command s = Some (res, s') \<Longrightarrow> mapped (s_mem s') a n = mapped (s_mem s) a n"
  using keeps by (intro mapped_dom) (simp add: bufs_def)

end

named_theorems bufs_frame

lemma bufs_simps [simp]:
  "bufs (s\<lparr>s_hdr := h\<rparr>) = bufs s" "bufs (s\<lparr>s_dev := d\<rparr>) = bufs s"
  "bufs (s\<lparr>s_mode_select_num_blocks := n\<rparr>) = bufs s" "bufs (s\<lparr>s_mode_select_block_len := l\<rparr>) = bufs s"
  "bufs (s\<lparr>s_ranges := rs\<rparr>) = bufs s"
  by (simp_all add: bufs_def)

lemma bufs_mem: "copy_to_user a bs (s_mem s) = (k, m) \<Longrightarrow> bufs (s\<lparr>s_mem := m\<rparr>) = bufs s"
  using copy_to_user_dom [of a bs "s_mem s"] by (simp add: bufs_def)

lemma bufs_completion [simp]: "bufs (snd (nvme_trans_completion status key asc ascq s)) = bufs s"
proof -
  obtain k m where "copy_to_user (h_sbp (s_hdr s)) (take (unat (min (h_mx_sb_len (s_hdr s)) 8))
      [0x72, key, asc, ascq, 0, 0, 0, 0]) (s_mem s) = (k, m)" by fastforce
  then show ?thesis using bufs_mem by (simp add: nvme_trans_completion_def Let_def bufs_def)
qed

lemma bufs_completion_eq [bufs_frame]:
  "nvme_trans_completion status key asc ascq s = (res, s') \<Longrightarrow> bufs s' = bufs s"
  using bufs_completion [of status key asc ascq s] by simp

lemma bufs_status [simp]: "bufs (snd (nvme_trans_status_code nvme_sc s)) = bufs s"
  by (auto simp: nvme_trans_status_code_def split: prod.splits dest: bufs_completion_eq)

lemma bufs_status_eq [bufs_frame]: "nvme_trans_status_code nvme_sc s = (res, s') \<Longrightarrow> bufs s' = bufs s"
  using bufs_status [of nvme_sc s] by simp

lemma bufs_on_dev [bufs_frame]: "on_dev f s = Some (res, s') \<Longrightarrow> bufs s' = bufs s"
  by (auto simp: on_dev_def)

lemma bufs_translated [bufs_frame]: "translated f s = Some (res, s') \<Longrightarrow> bufs s' = bufs s"
  by (auto simp: translated_def Let_def split: Option.bind_splits prod.splits dest!: bufs_frame)

lemma bufs_identify [bufs_frame]:
  "identify_ns env d s = Some (res, s') \<Longrightarrow> bufs s' = bufs s"
  "identify_ctrl env d s = Some (res, s') \<Longrightarrow> bufs s' = bufs s"
  by (auto simp: identify_ns_def identify_ctrl_def dest: bufs_translated)

lemma bufs_to_iovecs: "copy_to_iovecs i k from s = (res, s') \<Longrightarrow> bufs s' = bufs s"
proof (induction i k "from" s arbitrary: res s' rule: copy_to_iovecs.induct)
  case (2 i k "from" s)
  then show ?case
    by (auto simp: Let_def split: option.splits prod.splits if_splits dest!: bufs_mem)
qed simp

lemma bufs_copy_to_user [bufs_frame]: "nvme_trans_copy_to_user from s = (res, s') \<Longrightarrow> bufs s' = bufs s"
  by (auto simp: nvme_trans_copy_to_user_def split: if_splits prod.splits dest: bufs_to_iovecs bufs_mem)

lemma bufs_reply [bufs_frame]: "reply n buf s = Some (res, s') \<Longrightarrow> bufs s' = bufs s"
  by (auto simp: reply_def split: Option.bind_splits dest: bufs_copy_to_user)

lemma bufs_with_dma:
  assumes "\<And>d s res s'. body d s = Some (res, s') \<Longrightarrow> bufs s' = bufs s"
  shows "with_dma env n body s = Some (res, s') \<Longrightarrow> bufs s' = bufs s"
  by (auto simp: with_dma_def dma_alloc_coherent_def dma_free_coherent_def bufs_def
      dest!: assms [unfolded bufs_def] split: option.splits Option.bind_splits del: equalityI)

lemma bufs_with_kmem:
  assumes "alloc = kmalloc env \<or> alloc = kzalloc env"
    and "\<And>buf s res s'. body buf s = Some (res, s') \<Longrightarrow> bufs s' = bufs s"
  shows "with_kmem alloc n body s = Some (res, s') \<Longrightarrow> bufs s' = bufs s"
  using assms(1)
  by (auto simp: with_kmem_def kmalloc_def kzalloc_def kfree_def bufs_def
      dest!: assms(2) [unfolded bufs_def] split: option.splits Option.bind_splits if_splits del: equalityI)

section \<open>An example\<close>

definition sample_hdr :: sg_io_hdr where
  "sample_hdr = \<lparr>h_interface_id = 0x53, h_dxfer_direction = 0, h_cmd_len = 10, h_mx_sb_len = 32, h_iovec_count = 0,
     h_dxfer_len = 0x1400, h_dxferp = 0x20000, h_cmdp = 0x100, h_sbp = 0x200, h_timeout = 0, h_flags = 0,
     h_pack_id = 0, h_usr_ptr = 0, h_status = 0, h_masked_status = 0, h_msg_status = 0, h_sb_len_wr = 0,
     h_host_status = 0, h_driver_status = 0, h_resid = 0, h_duration = 0, h_info = 0\<rparr>"

definition sample_scsi :: scsi where
  "sample_scsi = \<lparr>s_hdr = sample_hdr, s_mem = (\<lambda>_. Some 0), s_dev = sample_admin_dev, s_kmem = 0, s_dma = [],
     s_calls = 0, s_mode_select_num_blocks = 0, s_mode_select_block_len = 0, s_ranges = []\<rparr>"

definition sample_scsi_id_ns :: scsi_id_ns where
  "sample_scsi_id_ns = \<lparr>id_nsze = 1000, id_ncap = 1000, id_flbas = 0, id_dps = 0,
     id_lbaf = \<lparr>lbaf_ms = 0, lbaf_ds = 9, lbaf_rp = 0\<rparr> # replicate 15 zero_lbaf,
     id_nlbaf = 1, id_dpc = 0, id_eui64 = replicate 8 0, id_nguid = replicate 16 0\<rparr>"

definition sample_scsi_id_ctrl :: scsi_id_ctrl where
  "sample_scsi_id_ctrl = \<lparr>ic_sn = replicate 20 0x31, ic_mn = replicate 40 0x32, ic_fr = replicate 8 0x33,
     ic_mdts = 0, ic_acl = 0, ic_nn = 1, ic_oncs = 0, ic_vwc = 0, ic_vs3 = 0, ic_npss = 4\<rparr>"

definition sample_scsi_env :: scsi_env where
  "sample_scsi_env = \<lparr>e_admin = sample_env (sample_cqe 2 0), e_io = sample_env (sample_cqe 2 0),
     e_map = (\<lambda>_. sample_map_env), e_palloc = sample_pool, e_kmalloc = (\<lambda>_. True), e_kmem = (\<lambda>_. 0xcc),
     e_stack = (\<lambda>_. 0xdd), e_dma_alloc = (\<lambda>_. Some 0x5000), e_id_ns = (\<lambda>_. sample_scsi_id_ns),
     e_id_ctrl = (\<lambda>_. sample_scsi_id_ctrl), e_smart = (\<lambda>_. (0x36, 1)), e_vs = 0x10000, e_csts = 1,
     e_capable = True, e_vendor = 0x8086, e_max_hw_sectors = 4, e_disk = sample_disk,
     e_serial = replicate 20 0x31, e_model = replicate 40 0x32, e_firmware_rev = replicate 8 0x33\<rparr>"

text \<open>
  C28: the status of an NVMe command reaches the user as SCSI status and sense data. For every status
  that is not an errno, \<open>nvme_trans_status_code\<close> returns 0 and leaves the status of the table in the
  header, GOOD exactly when the 11 bits of the status code are zero. Otherwise the sense buffer of the
  user holds the descriptor with sense key and codes, cut to the length the header allows, and
  \<open>sb_len_wr\<close> is that length.
\<close>

theorem nvme_trans_status_code_reported:
  assumes "0 \<le> nvme_sc" "mapped (s_mem s) (h_sbp (s_hdr s)) 8"
    "sense_of_status (nvme_sc AND 0x7ff) = (status, key, asc, ascq)"
  shows "\<exists>s'. nvme_trans_status_code nvme_sc s = (0, s') \<and> h_status (s_hdr s') = status
    \<and> (h_status (s_hdr s') = SAM_STAT_GOOD \<longleftrightarrow> nvme_sc AND 0x7ff = 0)
    \<and> copy_from_user (h_sbp (s_hdr s)) (unat (h_sb_len_wr (s_hdr s'))) (s_mem s')
        = (0, if status = SAM_STAT_GOOD then []
              else take (min (unat (h_mx_sb_len (s_hdr s))) 8) [0x72, key, asc, ascq, 0, 0, 0, 0])"
proof (cases "nvme_sc AND 0x7ff = 0")
  case True
  then have "status = SAM_STAT_GOOD" using sense_of_status_cases [OF assms(3)] by simp
  then show ?thesis
    using assms True by (simp add: nvme_trans_status_code_def nvme_trans_completion_def scsi_status_is_good_def)
next
  case False
  then have st: "status = SAM_STAT_CHECK_CONDITION \<or> status = SAM_STAT_TASK_ABORTED"
    using sense_of_status_cases [OF assms(3)] by simp
  then have bad: "\<not> scsi_status_is_good status" by (auto simp: scsi_status_is_good_def)
  have "unat (min (h_mx_sb_len (s_hdr s)) 8) = min (unat (h_mx_sb_len (s_hdr s))) 8"
    by (simp add: min_def word_le_nat_alt)
  moreover obtain s' where s': "nvme_trans_completion status key asc ascq s = (0, s')"
      "s' = s\<lparr>s_hdr := (s_hdr s)\<lparr>h_status := status, h_masked_status := drop_bit 1 status, h_host_status := 0,
          h_driver_status := 0, h_sb_len_wr := min (h_mx_sb_len (s_hdr s)) 8\<rparr>, s_mem := s_mem s'\<rparr>"
      "copy_from_user (h_sbp (s_hdr s)) (unat (min (h_mx_sb_len (s_hdr s)) 8)) (s_mem s')
        = (0, take (unat (min (h_mx_sb_len (s_hdr s)) 8)) [0x72, key, asc, ascq, 0, 0, 0, 0])"
    using nvme_trans_completion_bad [OF bad assms(2)] by blast
  moreover have "s_hdr s' = (s_hdr s)\<lparr>h_status := status, h_masked_status := drop_bit 1 status, h_host_status := 0,
          h_driver_status := 0, h_sb_len_wr := min (h_mx_sb_len (s_hdr s)) 8\<rparr>"
    by (subst s'(2)) simp
  ultimately show ?thesis
    using assms(1,3) st False by (auto simp: nvme_trans_status_code_def)
qed

theorem nvme_trans_status_code_reported_witness:
  "\<exists>s'. nvme_trans_status_code 0x4281 sample_scsi = (0, s')
    \<and> h_status (s_hdr s') = SAM_STAT_CHECK_CONDITION
    \<and> copy_from_user 0x200 (unat (h_sb_len_wr (s_hdr s'))) (s_mem s')
        = (0, [0x72, MEDIUM_ERROR, 0x11, 0, 0, 0, 0, 0])"
proof -
  have code: "(0x4281 :: int) AND 0x7ff = 0x281" by simp
  have s: "h_sbp (s_hdr sample_scsi) = 0x200" "h_mx_sb_len (s_hdr sample_scsi) = 32"
      "mapped (s_mem sample_scsi) (h_sbp (s_hdr sample_scsi)) 8"
    by (simp_all add: sample_scsi_def sample_hdr_def mapped_def)
  show ?thesis
    using nvme_trans_status_code_reported [of "0x4281" sample_scsi SAM_STAT_CHECK_CONDITION MEDIUM_ERROR "0x11" 0] s
    by (auto simp: code sense_of_status_def)
qed

end
