(* ===== verification/Scsi_Io.thy ===== *)
theory Scsi_Io
  imports Scsi_Base Nvme_Block
begin

text \<open>
  Reads and writes of the SCSI translation (src/nvme-scsi.c): the four CDB forms
  (\<open>nvme_trans_get_io_cdb6\<close> to \<open>nvme_trans_get_io_cdb16\<close>), the loop that sends one NVMe command per iovec or
  per \<open>max_blocks\<close> blocks (\<open>nvme_trans_do_nvme_io\<close>) and \<open>nvme_trans_io\<close>.
\<close>

section \<open>CDB fields\<close>

record nvme_trans_io_cdb =
  cdb_fua :: u8
  cdb_prot_info :: u8
  cdb_lba :: u64
  cdb_xfer_len :: u32

text \<open>
  A 32-bit LBA is an int in the macro and is extended with its sign. The shift in
  \<open>IO_CDB_WP_MASK >> IO_CDB_WP_SHIFT\<close> binds before the \<open>&\<close>.
\<close>

abbreviation IO_CDB_WP_MASK :: u32 where "IO_CDB_WP_MASK \<equiv> 0xe0"
abbreviation IO_CDB_FUA_MASK :: u32 where "IO_CDB_FUA_MASK \<equiv> 8"
abbreviation IO_6_CDB_LBA_MASK :: u32 where "IO_6_CDB_LBA_MASK \<equiv> 0x1fffff"

definition nvme_trans_get_io_cdb6 :: "u8 list \<Rightarrow> nvme_trans_io_cdb" where
  "nvme_trans_get_io_cdb6 cmd =
     \<lparr>cdb_fua = 0, cdb_prot_info = 0, cdb_lba = ucast (get_u32 cmd 0 AND IO_6_CDB_LBA_MASK),
      cdb_xfer_len = (if get_u8 cmd 4 = 0 then 256 else get_u8 cmd 4)\<rparr>"

definition nvme_trans_get_io_cdb10 :: "u8 list \<Rightarrow> nvme_trans_io_cdb" where
  "nvme_trans_get_io_cdb10 cmd =
     \<lparr>cdb_fua = ucast (get_u8 cmd 1 AND IO_CDB_FUA_MASK),
      cdb_prot_info = ucast (get_u8 cmd 1 AND drop_bit 5 IO_CDB_WP_MASK),
      cdb_lba = scast (get_u32 cmd 2), cdb_xfer_len = get_u16 cmd 7\<rparr>"

definition nvme_trans_get_io_cdb12 :: "u8 list \<Rightarrow> nvme_trans_io_cdb" where
  "nvme_trans_get_io_cdb12 cmd =
     \<lparr>cdb_fua = ucast (get_u8 cmd 1 AND IO_CDB_FUA_MASK),
      cdb_prot_info = ucast (get_u8 cmd 1 AND drop_bit 5 IO_CDB_WP_MASK),
      cdb_lba = scast (get_u32 cmd 2), cdb_xfer_len = get_u32 cmd 6\<rparr>"

definition nvme_trans_get_io_cdb16 :: "u8 list \<Rightarrow> nvme_trans_io_cdb" where
  "nvme_trans_get_io_cdb16 cmd =
     \<lparr>cdb_fua = ucast (get_u8 cmd 1 AND IO_CDB_FUA_MASK),
      cdb_prot_info = ucast (get_u8 cmd 1 AND drop_bit 5 IO_CDB_WP_MASK),
      cdb_lba = get_u64 cmd 2, cdb_xfer_len = get_u32 cmd 10\<rparr>"

section \<open>Sending the commands\<close>

text \<open>\<open>max_blocks\<close> is \<open>queue_max_hw_sectors\<close>. A division by a zero \<open>max_blocks\<close> is None.\<close>

definition nvme_trans_io_get_num_cmds :: "sg_io_hdr \<Rightarrow> nvme_trans_io_cdb \<Rightarrow> u32 \<Rightarrow> u32 option" where
  "nvme_trans_io_get_num_cmds hdr cdb_info max_blocks =
     (if h_iovec_count hdr > 0 then Some (ucast (h_iovec_count hdr))
      else if cdb_xfer_len cdb_info > max_blocks
           then (if max_blocks = 0 then None else Some ((cdb_xfer_len cdb_info - 1) div max_blocks + 1))
           else Some 1)"

definition nvme_trans_io_get_control :: "nvme_trans_io_cdb \<Rightarrow> u16" where
  "nvme_trans_io_get_control cdb_info = (if cdb_fua cdb_info > 0 then NVME_RW_FUA else 0)"

text \<open>The blocks, the bytes and the user address of command i, or the fault on its iovec.\<close>

definition io_unit ::
  "nvme_ns \<Rightarrow> u32 \<Rightarrow> nvme_trans_io_cdb \<Rightarrow> nat \<Rightarrow> u64 \<Rightarrow> scsi \<Rightarrow> (u64 \<times> u64 \<times> u32) option" where
  "io_unit ns max_blocks cdb_info i nvme_offset s =
     (let shift = nat (ns_lba_shift ns)
      in if h_iovec_count (s_hdr s) > 0
         then do { (iov_base, iov_len) \<leftarrow> read_iovec i s;
                   let unit_len = (ucast iov_len :: u64);
                   Some (drop_bit shift unit_len, unit_len, iov_base) }
         else let unit_num_blocks = min (ucast max_blocks) (ucast (cdb_xfer_len cdb_info) - nvme_offset)
              in Some (unit_num_blocks, push_bit shift unit_num_blocks,
                       h_dxferp (s_hdr s) + ucast (ucast (push_bit shift (1 :: u32)) * nvme_offset)))"

definition io_command ::
  "nvme_ns \<Rightarrow> nvme_trans_io_cdb \<Rightarrow> bool \<Rightarrow> u64 \<Rightarrow> u64 \<Rightarrow> dma_addr \<Rightarrow> dma_addr \<Rightarrow> nvme_rw_command" where
  "io_command ns cdb_info is_write nvme_offset unit_num_blocks prp1 prp2 =
     zero_rw\<lparr>rw_opcode := (if is_write then nvme_cmd_write else nvme_cmd_read), rw_nsid := ns_id ns,
       rw_slba := cdb_lba cdb_info + nvme_offset, rw_length := ucast (unit_num_blocks - 1),
       rw_control := nvme_trans_io_get_control cdb_info, rw_prp1 := ucast prp1, rw_prp2 := ucast prp2\<rparr>"

definition scsi_log :: "kevent list \<Rightarrow> scsi \<Rightarrow> scsi" where
  "scsi_log evs s = s\<lparr>s_dev := kernel_log evs (s_dev s)\<rparr>"

text \<open>
  The body of the loop after the unit is known: map the pages, build the PRP list, submit, unmap.
  \<open>Inl res\<close> leaves the loop, \<open>Inr\<close> goes on. The length is cut to 32 bits by \<open>nvme_map_user_pages\<close> and to an
  int by \<open>nvme_setup_prps\<close>.
\<close>

definition io_release :: "bool \<Rightarrow> nvme_iod \<Rightarrow> scsi \<Rightarrow> scsi option" where
  "io_release is_write iod s =
     do { frees \<leftarrow> nvme_free_iod (d_page_size (s_dev s)) iod;
          Some (scsi_log (nvme_unmap_user_pages is_write iod @ map Freed frees) s) }"

definition io_step ::
  "scsi_env \<Rightarrow> nvme_trans_io_cdb \<Rightarrow> bool \<Rightarrow> u64 \<Rightarrow> u64 \<times> u64 \<times> u32 \<Rightarrow> scsi \<Rightarrow> (int option \<times> scsi) option" where
  "io_step env cdb_info is_write nvme_offset io_u s =
     (case io_u of (unit_num_blocks, unit_len, addr) \<Rightarrow>
        case nvme_map_user_pages (e_map env s) (d_page_size (s_dev s)) addr (ucast unit_len) of
          (Inl err, evs) \<Rightarrow> Some (Some err, scsi_log evs s)
        | (Inr iod, evs) \<Rightarrow>
            do { let s1 = scsi_log evs s;
                 (retcode, iod1) \<leftarrow> nvme_setup_prps (e_palloc env) (d_page_size (s_dev s1)) iod
                                      (sint (ucast unit_len :: u32));
                 if ucast (of_int retcode :: u32) \<noteq> unit_len
                 then do { s2 \<leftarrow> io_release is_write iod1 s1; Some (Some (- ENOMEM), s2) }
                 else do {
                   (nvme_sc, s2) \<leftarrow> on_dev (\<lambda>dev. status_only (nvme_submit_io_cmd (e_io env)
                      (CmdRw (io_command (e_ns env) cdb_info is_write nvme_offset unit_num_blocks
                         (fst (hd (iod_sg iod1))) (iod_first_dma iod1))) dev)) s1;
                   s3 \<leftarrow> io_release is_write iod1 s2;
                   Some (if nvme_sc \<noteq> 0
                         then (let (res, s4) = nvme_trans_status_code nvme_sc s3 in (Some res, s4))
                         else (None, s3)) } })"

text \<open>The loop from command i with k left.\<close>

fun io_loop ::
  "scsi_env \<Rightarrow> nvme_trans_io_cdb \<Rightarrow> bool \<Rightarrow> nat \<Rightarrow> nat \<Rightarrow> u64 \<Rightarrow> scsi \<Rightarrow> (int \<times> scsi) option" where
  "io_loop env cdb_info is_write i 0 nvme_offset s = Some (nvme_trans_status_code 0 s)"
| "io_loop env cdb_info is_write i (Suc k) nvme_offset s =
     (case io_unit (e_ns env) (e_max_hw_sectors env) cdb_info i nvme_offset s of
        None \<Rightarrow> Some (- EFAULT, s)
      | Some io_u \<Rightarrow>
          do { (exit, s1) \<leftarrow> io_step env cdb_info is_write nvme_offset io_u s;
               case exit of Some res \<Rightarrow> Some (res, s1)
               | None \<Rightarrow> io_loop env cdb_info is_write (Suc i) k (nvme_offset + fst io_u) s1 })"

definition nvme_trans_do_nvme_io ::
  "scsi_env \<Rightarrow> nvme_trans_io_cdb \<Rightarrow> bool \<Rightarrow> scsi \<Rightarrow> (int \<times> scsi) option" where
  "nvme_trans_do_nvme_io env cdb_info is_write s =
     do { num_cmds \<leftarrow> nvme_trans_io_get_num_cmds (s_hdr s) cdb_info (e_max_hw_sectors env);
          io_loop env cdb_info is_write 0 (unat num_cmds) 0 s }"

section \<open>nvme_trans_io\<close>

text \<open>The sum of the iovec lengths; \<open>Inl\<close> is a fault or a length that is not a multiple of the block size.\<close>

fun sum_iovecs :: "nat \<Rightarrow> nat \<Rightarrow> nat \<Rightarrow> u64 \<Rightarrow> scsi \<Rightarrow> (int \<times> scsi) + u64" where
  "sum_iovecs shift i 0 sum_iov_len s = Inr sum_iov_len"
| "sum_iovecs shift i (Suc k) sum_iov_len s =
     (case read_iovec i s of
        None \<Rightarrow> Inl (- EFAULT, s)
      | Some (_, iov_len) \<Rightarrow>
          if iov_len mod push_bit shift 1 \<noteq> 0
          then Inl (nvme_trans_completion SAM_STAT_CHECK_CONDITION ILLEGAL_REQUEST
                      SCSI_ASC_INVALID_PARAMETER SCSI_ASCQ_CAUSE_NOT_REPORTABLE s)
          else sum_iovecs shift (Suc i) k (sum_iov_len + ucast iov_len) s)"

abbreviation READ_6 :: u8 where "READ_6 \<equiv> 0x08"
abbreviation WRITE_6 :: u8 where "WRITE_6 \<equiv> 0x0a"
abbreviation READ_10 :: u8 where "READ_10 \<equiv> 0x28"
abbreviation WRITE_10 :: u8 where "WRITE_10 \<equiv> 0x2a"
abbreviation READ_12 :: u8 where "READ_12 \<equiv> 0xa8"
abbreviation WRITE_12 :: u8 where "WRITE_12 \<equiv> 0xaa"
abbreviation READ_16 :: u8 where "READ_16 \<equiv> 0x88"
abbreviation WRITE_16 :: u8 where "WRITE_16 \<equiv> 0x8a"

abbreviation SNTI_INTERNAL_ERROR :: int where "SNTI_INTERNAL_ERROR \<equiv> 1"

definition get_io_cdb :: "u8 list \<Rightarrow> nvme_trans_io_cdb option" where
  "get_io_cdb cmd =
     (let opcode = cmd ! 0
      in if opcode = WRITE_6 \<or> opcode = READ_6 then Some (nvme_trans_get_io_cdb6 cmd)
         else if opcode = WRITE_10 \<or> opcode = READ_10 then Some (nvme_trans_get_io_cdb10 cmd)
         else if opcode = WRITE_12 \<or> opcode = READ_12 then Some (nvme_trans_get_io_cdb12 cmd)
         else if opcode = WRITE_16 \<or> opcode = READ_16 then Some (nvme_trans_get_io_cdb16 cmd)
         else None)"

definition nvme_trans_io :: "scsi_env \<Rightarrow> bool \<Rightarrow> u8 list \<Rightarrow> scsi \<Rightarrow> (int \<times> scsi) option" where
  "nvme_trans_io env is_write cmd s =
     (case get_io_cdb cmd of
        None \<Rightarrow> Some (SNTI_INTERNAL_ERROR, s)
      | Some cdb_info \<Rightarrow>
          let hdr = s_hdr s; shift = nat (ns_lba_shift (e_ns env))
          in case (if h_iovec_count hdr > 0 then sum_iovecs shift 0 (unat (h_iovec_count hdr)) 0 s
                   else Inr (ucast (h_dxfer_len hdr))) of
               Inl r \<Rightarrow> Some r
             | Inr sum_iov_len \<Rightarrow>
                 let xfer_bytes = min (ucast (h_dxfer_len hdr)) sum_iov_len
                 in if xfer_bytes \<noteq> ucast (push_bit shift (cdb_xfer_len cdb_info)) then Some (- EINVAL, s)
                    else if cdb_xfer_len cdb_info = 0 then Some (0, s)
                    else nvme_trans_do_nvme_io env cdb_info is_write s)"

section \<open>Buffers\<close>

lemma bufs_scsi_log [simp]: "bufs (scsi_log evs s) = bufs s"
  by (simp add: scsi_log_def)

lemma bufs_io_release [bufs_frame]: "io_release w iod s = Some s' \<Longrightarrow> bufs s' = bufs s"
  by (auto simp: io_release_def split: Option.bind_splits)

lemma bufs_io_step: "io_step env cdb w off u s = Some (exit, s') \<Longrightarrow> bufs s' = bufs s"
  by (cases u)
    (auto simp: io_step_def Let_def split: prod.splits sum.splits if_splits Option.bind_splits dest!: bufs_frame)

lemma bufs_io_loop: "io_loop env cdb w i k off s = Some (res, s') \<Longrightarrow> bufs s' = bufs s"
proof (induction env cdb w i k off s arbitrary: res s' rule: io_loop.induct)
  case (2 env cdb w i k off s)
  then show ?case
    by (fastforce split: option.splits Option.bind_splits dest: bufs_io_step)
qed (auto dest: bufs_frame)

lemma bufs_sum_iovecs: "sum_iovecs shift i k acc s = Inl (res, s') \<Longrightarrow> bufs s' = bufs s"
  by (induction shift i k acc s rule: sum_iovecs.induct)
    (auto split: option.splits if_splits dest: bufs_frame)

lemma bufs_trans_io: "nvme_trans_io env w cmd s = Some (res, s') \<Longrightarrow> bufs s' = bufs s"
  by (auto simp: nvme_trans_io_def nvme_trans_do_nvme_io_def Let_def
      split: option.splits if_splits sum.splits Option.bind_splits dest: bufs_io_loop bufs_sum_iovecs)

section \<open>The split of a transfer\<close>

text \<open>
  The reference: chunks (offset, blocks) of at most m blocks that follow each other, run one after
  the other until one of them fails.
\<close>

fun io_chunks :: "nat \<Rightarrow> nat \<Rightarrow> nat \<Rightarrow> (nat \<times> nat) list" where
  "io_chunks m off n =
     (if n = 0 \<or> m = 0 then [] else (off, min m n) # io_chunks m (off + min m n) (n - min m n))"

declare io_chunks.simps [simp del]

definition chunk_unit :: "nat \<Rightarrow> u32 \<Rightarrow> nat \<times> nat \<Rightarrow> u64 \<times> u64 \<times> u32" where
  "chunk_unit shift buf c =
     (of_nat (snd c), of_nat (snd c * 2 ^ shift), buf + of_nat (fst c * 2 ^ shift))"

fun io_run :: "scsi_env \<Rightarrow> nvme_trans_io_cdb \<Rightarrow> bool \<Rightarrow> u32 \<Rightarrow> (nat \<times> nat) list \<Rightarrow> scsi \<Rightarrow> (int \<times> scsi) option" where
  "io_run env cdb_info is_write buf [] s = Some (nvme_trans_status_code 0 s)"
| "io_run env cdb_info is_write buf (c # cs) s =
     do { (exit, s1) \<leftarrow> io_step env cdb_info is_write (of_nat (fst c))
                          (chunk_unit (nat (ns_lba_shift (e_ns env))) buf c) s;
          case exit of Some res \<Rightarrow> Some (res, s1) | None \<Rightarrow> io_run env cdb_info is_write buf cs s1 }"

lemma io_chunks_0 [simp]: "io_chunks m off 0 = []"
  by (simp add: io_chunks.simps)

lemma io_chunks_cover:
  "0 < m \<Longrightarrow> concat (map (\<lambda>(o', k). [o'..<o' + k]) (io_chunks m off n)) = [off..<off + n]"
proof (induction m off n rule: io_chunks.induct)
  case (1 m off n)
  show ?case
  proof (cases "n = 0")
    case False
    let ?k = "min m n"
    have "concat (map (\<lambda>(o', k). [o'..<o' + k]) (io_chunks m off n)) =
        [off..<off + ?k] @ [off + ?k..<off + ?k + (n - ?k)]"
      using 1 False by (subst io_chunks.simps) simp
    also have "\<dots> = [off..<off + n]"
      using upt_add_eq_append [of off "off + ?k" "n - ?k"] by simp
    finally show ?thesis .
  qed simp
qed

lemma io_chunks_bounded:
  "c \<in> set (io_chunks m off n) \<Longrightarrow> 0 < snd c \<and> snd c \<le> m \<and> off \<le> fst c \<and> fst c + snd c \<le> off + n"
proof (induction m off n rule: io_chunks.induct)
  case (1 m off n)
  show ?case
  proof (cases "n = 0 \<or> m = 0")
    case True
    then show ?thesis using 1(2) by (auto simp: io_chunks.simps)
  next
    case False
    then have eq: "io_chunks m off n = (off, min m n) # io_chunks m (off + min m n) (n - min m n)"
      by (subst io_chunks.simps) simp
    show ?thesis
    proof (cases "c = (off, min m n)")
      case True
      then show ?thesis using False by simp
    next
      case c: False
      then have "c \<in> set (io_chunks m (off + min m n) (n - min m n))" using 1(2) eq by simp
      then show ?thesis using 1(1) [OF False] by fastforce
    qed
  qed
qed

lemma length_io_chunks: "0 < m \<Longrightarrow> 0 < n \<Longrightarrow> length (io_chunks m off n) = (n - 1) div m + 1"
proof (induction m off n rule: io_chunks.induct)
  case (1 m off n)
  show ?case
  proof (cases "n \<le> m")
    case True
    then show ?thesis using 1(2,3) by (subst io_chunks.simps) (simp add: min_def)
  next
    case False
    then have "length (io_chunks m off n) = Suc ((n - m - 1) div m + 1)"
      using 1 by (subst io_chunks.simps) (simp add: min_def)
    also have "(n - m - 1) div m + 1 = (n - 1) div m"
    proof -
      have "n - 1 = m + (n - m - 1)" using False by simp
      then show ?thesis using 1(2) by (metis div_add_self1 less_numeral_extra(3) not_gr_zero)
    qed
    finally show ?thesis by simp
  qed
qed

lemma io_unit_chunk:
  assumes "h_iovec_count (s_hdr s) = 0" "nat (ns_lba_shift ns) < 32" "off + n = unat (cdb_xfer_len cdb)"
  shows "io_unit ns m cdb i (of_nat off) s
    = Some (chunk_unit (nat (ns_lba_shift ns)) (h_dxferp (s_hdr s)) (off, min (unat m) n))"
proof -
  let ?k = "nat (ns_lba_shift ns)"
  have "unat (cdb_xfer_len cdb) < 2 ^ 32" by (rule order_less_le_trans [OF unsigned_less]) simp
  then have "n < 2 ^ 32" using assms(3) by simp
  then have blocks: "min (ucast m) (of_nat n) = (of_nat (min (unat m) n) :: u64)"
    by (auto simp: min_def word_le_nat_alt unat_ucast_up unat_of_nat take_bit_nat_eq_self of_nat_unat_ucast)
  have left: "(ucast (cdb_xfer_len cdb) :: u64) - of_nat off = of_nat n"
    unfolding of_nat_unat_ucast [symmetric] assms(3) [symmetric] by simp
  have "ucast (push_bit ?k (1 :: u32)) = (push_bit ?k 1 :: u64)"
    using assms(2) by (intro bit_word_eqI) (auto simp: bit_simps)
  then have addr: "ucast (ucast (push_bit ?k (1 :: u32)) * of_nat off :: u64) = (of_nat (off * 2 ^ ?k) :: u32)"
    unfolding ucast_of_nat_64_32 [symmetric] by (simp add: push_bit_eq_mult mult.commute)
  have len: "push_bit ?k (of_nat a :: u64) = of_nat (a * 2 ^ ?k)" for a
    by (simp add: push_bit_eq_mult mult.commute)
  show ?thesis
    unfolding io_unit_def chunk_unit_def Let_def left blocks addr len using assms(1) by simp
qed

lemma io_step_hdr: "io_step env cdb w off u s = Some (None, s1) \<Longrightarrow> s_hdr s1 = s_hdr s"
  by (cases u)
    (auto simp: io_step_def io_release_def scsi_log_def on_dev_def Let_def
      split: prod.splits sum.splits if_splits Option.bind_splits)

lemma io_loop_chunks:
  assumes "h_iovec_count (s_hdr s) = 0" "nat (ns_lba_shift (e_ns env)) < 32" "0 < e_max_hw_sectors env"
    "off + n = unat (cdb_xfer_len cdb)"
  shows "io_loop env cdb w i (length (io_chunks (unat (e_max_hw_sectors env)) off n)) (of_nat off) s
    = io_run env cdb w (h_dxferp (s_hdr s)) (io_chunks (unat (e_max_hw_sectors env)) off n) s"
  using assms
proof (induction "unat (e_max_hw_sectors env)" off n arbitrary: i s rule: io_chunks.induct)
  case (1 off n)
  let ?m = "unat (e_max_hw_sectors env)"
  show ?case
  proof (cases "n = 0")
    case False
    have m: "?m \<noteq> 0" using 1(4) by (simp add: word_neq_0_conv unat_eq_0)
    let ?k = "min ?m n"
    have eq: "io_chunks ?m off n = (off, ?k) # io_chunks ?m (off + ?k) (n - ?k)"
      using False m by (subst io_chunks.simps) simp
    have IH: "io_loop env cdb w (Suc i) (length (io_chunks ?m (off + ?k) (n - ?k))) (of_nat (off + ?k)) s1
        = io_run env cdb w (h_dxferp (s_hdr s)) (io_chunks ?m (off + ?k) (n - ?k)) s1"
      if "s_hdr s1 = s_hdr s" for s1
      using 1(1) [of s1 "Suc i"] False m that 1(2-5) by simp
    show ?thesis
      unfolding eq using io_unit_chunk [OF 1(2,3,5), of "e_max_hw_sectors env" i]
      by (auto simp: chunk_unit_def IH [simplified] io_step_hdr split: option.splits Option.bind_splits)
  qed simp
qed

lemma num_cmds_chunks:
  assumes "h_iovec_count hdr = 0" "0 < m" "0 < cdb_xfer_len cdb"
  shows "\<exists>n. nvme_trans_io_get_num_cmds hdr cdb m = Some n
    \<and> unat n = length (io_chunks (unat m) 0 (unat (cdb_xfer_len cdb)))"
proof -
  let ?x = "unat (cdb_xfer_len cdb)"
  have pos: "0 < unat m" "0 < ?x" using assms by (simp_all add: word_less_nat_alt)
  have len: "length (io_chunks (unat m) 0 ?x) = (?x - 1) div unat m + 1"
    using length_io_chunks [OF pos] .
  have x1: "unat (cdb_xfer_len cdb - 1) = ?x - 1"
    using unat_sub_le [of 1 "cdb_xfer_len cdb"] pos(2) by (simp add: word_le_nat_alt)
  have "?x < 2 ^ 32" by (rule order_less_le_trans [OF unsigned_less]) simp
  moreover have "(?x - 1) div unat m \<le> ?x - 1" by simp
  ultimately have "Suc ((?x - 1) div unat m) < 2 ^ 32" using pos(2) by linarith
  then have "unat ((cdb_xfer_len cdb - 1) div m + 1) = (?x - 1) div unat m + 1"
    by (simp add: unat_word_ariths unat_div x1 take_bit_nat_eq_self)
  then show ?thesis
    using assms len pos by (auto simp: nvme_trans_io_get_num_cmds_def word_less_nat_alt not_less)
qed

text \<open>
  C26: a SCSI read or write is split exactly. With one buffer and a limit of at most 65536
  blocks, \<open>nvme_trans_do_nvme_io\<close> does what the reference does: one NVMe command after the other,
  until one fails, for chunks whose blocks together are the blocks 0, 1, ... of the transfer,
  each once and in order. Each command names the logical blocks of its chunk, with a length
  field that is exact.
\<close>

theorem nvme_trans_do_nvme_io_splits:
  assumes "h_iovec_count (s_hdr s) = 0" "nat (ns_lba_shift (e_ns env)) < 32" "0 < cdb_xfer_len cdb"
    "0 < e_max_hw_sectors env" "e_max_hw_sectors env \<le> 65536"
    "cs = io_chunks (unat (e_max_hw_sectors env)) 0 (unat (cdb_xfer_len cdb))"
  shows "nvme_trans_do_nvme_io env cdb w s = io_run env cdb w (h_dxferp (s_hdr s)) cs s
    \<and> concat (map (\<lambda>(off, k). [off..<off + k]) cs) = [0..<unat (cdb_xfer_len cdb)]
    \<and> list_all (\<lambda>(off, k). let c = io_command (e_ns env) cdb w (of_nat off) (of_nat k) prp1 prp2
          in rw_slba c = cdb_lba cdb + of_nat off \<and> unat (rw_length c) + 1 = k) cs"
proof (intro conjI)
  have pos: "0 < unat (e_max_hw_sectors env)" using assms(4) by (simp add: word_less_nat_alt)
  obtain n where "nvme_trans_io_get_num_cmds (s_hdr s) cdb (e_max_hw_sectors env) = Some n"
      "unat n = length cs"
    using num_cmds_chunks [OF assms(1,4,3)] assms(6) by blast
  then show "nvme_trans_do_nvme_io env cdb w s = io_run env cdb w (h_dxferp (s_hdr s)) cs s"
    using io_loop_chunks [OF assms(1,2,4), of 0 "unat (cdb_xfer_len cdb)" cdb w 0] assms(6)
    by (simp add: nvme_trans_do_nvme_io_def)
  show "concat (map (\<lambda>(off, k). [off..<off + k]) cs) = [0..<unat (cdb_xfer_len cdb)]"
    using io_chunks_cover [OF pos, of 0] assms(6) by simp
  have exact: "unat (ucast (of_nat k - 1 :: u64) :: u16) + 1 = k" if "0 < k" "k \<le> 65536" for k :: nat
  proof -
    have "of_nat k - 1 = (of_nat (k - 1) :: u64)" using that by (simp add: of_nat_diff)
    moreover have "ucast (of_nat (k - 1) :: u64) = (of_nat (k - 1) :: u16)"
      by (rule bit_word_eqI) (simp add: bit_simps)
    moreover have "unat (of_nat (k - 1) :: u16) = k - 1"
      using that by (simp add: unat_of_nat take_bit_nat_eq_self del: of_nat_diff)
    ultimately show ?thesis using that by simp
  qed
  have "unat (e_max_hw_sectors env) \<le> 65536" using assms(5) by (simp add: word_le_nat_alt)
  then have "0 < k \<and> k \<le> 65536" if "(off, k) \<in> set cs" for off k
    using io_chunks_bounded [of "(off, k)"] that unfolding assms(6) by fastforce
  then show "list_all (\<lambda>(off, k). let c = io_command (e_ns env) cdb w (of_nat off) (of_nat k) prp1 prp2
          in rw_slba c = cdb_lba cdb + of_nat off \<and> unat (rw_length c) + 1 = k) cs"
    using exact by (auto simp: list_all_iff Let_def io_command_def zero_rw_def)
qed

definition sample_cdb :: nvme_trans_io_cdb where
  "sample_cdb = \<lparr>cdb_fua = 0, cdb_prot_info = 0, cdb_lba = 100, cdb_xfer_len = 10\<rparr>"

theorem nvme_trans_do_nvme_io_splits_witness:
  "nvme_trans_do_nvme_io sample_scsi_env sample_cdb True sample_scsi
      = io_run sample_scsi_env sample_cdb True 0x20000 [(0, 4), (4, 4), (8, 2)] sample_scsi
   \<and> concat (map (\<lambda>(off, k). [off..<off + k]) [(0, 4), (4, 4), (8, 2)]) = [0..<(10 :: nat)]
   \<and> list_all (\<lambda>(off, k). let c = io_command (e_ns sample_scsi_env) sample_cdb True (of_nat off) (of_nat k) 0 0
          in rw_slba c = 100 + of_nat off \<and> unat (rw_length c) + 1 = k) [(0, 4), (4, 4), (8, 2)]"
proof -
  have "h_iovec_count (s_hdr sample_scsi) = 0" "h_dxferp (s_hdr sample_scsi) = 0x20000"
    by (simp_all add: sample_scsi_def sample_hdr_def)
  moreover have "nat (ns_lba_shift (e_ns sample_scsi_env)) < 32" "e_max_hw_sectors sample_scsi_env = 4"
    by (simp_all add: sample_scsi_env_def sample_disk_def)
  moreover have "io_chunks 4 0 10 = [(0, 4), (4, 4), (8, 2)]" by (simp add: io_chunks.simps)
  moreover have "cdb_xfer_len sample_cdb = 10" "cdb_lba sample_cdb = 100" by (simp_all add: sample_cdb_def)
  ultimately show ?thesis
    using nvme_trans_do_nvme_io_splits [of sample_scsi sample_scsi_env sample_cdb "[(0, 4), (4, 4), (8, 2)]" True 0 0]
    by simp
qed

section \<open>Decoding a CDB\<close>

lemma be_bytes_2: "be_bytes 2 w = [ucast (drop_bit 8 w), ucast w]"
  by (simp add: be_bytes_def le_bytes_def upt_rec)

lemma be_bytes_3: "be_bytes 3 w = [ucast (drop_bit 16 w), ucast (drop_bit 8 w), ucast w]"
  by (simp add: be_bytes_def le_bytes_def upt_rec)

lemma be_bytes_4: "be_bytes 4 w = [ucast (drop_bit 24 w), ucast (drop_bit 16 w), ucast (drop_bit 8 w), ucast w]"
  by (simp add: be_bytes_def le_bytes_def upt_rec)

lemma be_bytes_8:
  "be_bytes 8 w = [ucast (drop_bit 56 w), ucast (drop_bit 48 w), ucast (drop_bit 40 w), ucast (drop_bit 32 w),
     ucast (drop_bit 24 w), ucast (drop_bit 16 w), ucast (drop_bit 8 w), ucast w]"
  by (simp add: be_bytes_def le_bytes_def upt_rec)

lemma bytes_join_32:
  "push_bit 24 (ucast (ucast (drop_bit 24 w) :: u8)) OR push_bit 16 (ucast (ucast (drop_bit 16 w) :: u8))
     OR push_bit 8 (ucast (ucast (drop_bit 8 w) :: u8)) OR ucast (ucast w :: u8) = (w :: u32)"
proof -
  have "of_le_bytes (le_bytes 4 w) = w" by (simp add: of_le_bytes_full)
  then show ?thesis by (simp add: le_bytes_def upt_rec push_bit_or ac_simps)
qed

lemma bytes_join_64:
  "push_bit 56 (ucast (ucast (drop_bit 56 w) :: u8)) OR push_bit 48 (ucast (ucast (drop_bit 48 w) :: u8))
     OR push_bit 40 (ucast (ucast (drop_bit 40 w) :: u8)) OR push_bit 32 (ucast (ucast (drop_bit 32 w) :: u8))
     OR push_bit 24 (ucast (ucast (drop_bit 24 w) :: u8)) OR push_bit 16 (ucast (ucast (drop_bit 16 w) :: u8))
     OR push_bit 8 (ucast (ucast (drop_bit 8 w) :: u8)) OR ucast (ucast w :: u8) = (w :: u64)"
proof -
  have "of_le_bytes (le_bytes 8 w) = w" by (simp add: of_le_bytes_full)
  then show ?thesis by (simp add: le_bytes_def upt_rec push_bit_or ac_simps)
qed

lemma bytes_join_16:
  "push_bit 8 (ucast (ucast (drop_bit 8 w) :: u8)) OR ucast (ucast w :: u8) = (ucast (w :: u16) :: u32)"
  by (rule bit_word_eqI) (auto simp: bit_simps not_less dest: bit_imp_le_length)

lemma scast_ucast_iff: "scast w = (ucast w :: u64) \<longleftrightarrow> (w :: u32) < 2 ^ 31"
proof -
  have top: "bit w n \<longleftrightarrow> n < 31 \<and> bit w n" if "\<not> bit w 31" for n
    using bit_imp_le_length [of w n] that by (cases "n = 31") auto
  have "scast w = (ucast w :: u64) \<longleftrightarrow> \<not> bit w 31"
  proof
    assume "scast w = (ucast w :: u64)"
    then have "bit (scast w :: u64) 63 = bit (ucast w :: u64) 63" by simp
    then show "\<not> bit w 31" by (auto simp: bit_simps dest: bit_imp_le_length)
  next
    assume w: "\<not> bit w 31"
    show "scast w = (ucast w :: u64)"
      using w top by (intro bit_word_eqI) (auto simp: bit_simps min_def simp flip: not_less)
  qed
  also have "\<dots> \<longleftrightarrow> take_bit 31 w = w"
  proof
    assume "\<not> bit w 31"
    then show "take_bit 31 w = w"
      using top by (intro bit_word_eqI) (simp add: bit_take_bit_iff)
  next
    assume "take_bit 31 w = w"
    then have "bit (take_bit 31 w) 31 = bit w 31" by simp
    then show "\<not> bit w 31" by (simp add: bit_take_bit_iff)
  qed
  also have "\<dots> \<longleftrightarrow> w < 2 ^ 31"
    by (simp add: word_uint_eq_iff unsigned_take_bit_eq take_bit_int_eq_self_iff word_less_def)
  finally show ?thesis .
qed

text \<open>
  C32: reads and writes are decoded from their CDBs. The CDBs of 16 bytes give the LBA and the length as they
  are encoded. Those of 10 bytes do so for LBAs below 2^31 only: from there on the 32-bit LBA is
  extended with its sign, and the command addresses another block.
\<close>

theorem get_io_cdb_decodes:
  fixes lba10 :: u32 and len10 :: u16
  assumes "op16 = READ_16 \<or> op16 = WRITE_16" "op10 = READ_10 \<or> op10 = WRITE_10"
  shows "get_io_cdb ([op16, flags] @ be_bytes 8 lba @ be_bytes 4 len @ [grp, control])
      = Some \<lparr>cdb_fua = flags AND 8, cdb_prot_info = flags AND 7, cdb_lba = lba, cdb_xfer_len = len\<rparr>
    \<and> get_io_cdb ([op10, flags] @ be_bytes 4 lba10 @ [grp] @ be_bytes 2 len10 @ control # rest)
      = Some \<lparr>cdb_fua = flags AND 8, cdb_prot_info = flags AND 7, cdb_lba = scast lba10,
          cdb_xfer_len = ucast len10\<rparr>
    \<and> (scast lba10 = (ucast lba10 :: u64) \<longleftrightarrow> lba10 < 2 ^ 31)"
proof -
  have low: "ucast ((ucast flags :: u32) AND 8) = flags AND 8" "ucast ((ucast flags :: u32) AND 7) = flags AND 7"
    by (rule bit_word_eqI, auto simp: bit_simps)+
  have "get_io_cdb ([op16, flags] @ be_bytes 8 lba @ be_bytes 4 len @ [grp, control])
      = Some \<lparr>cdb_fua = flags AND 8, cdb_prot_info = flags AND 7, cdb_lba = lba, cdb_xfer_len = len\<rparr>"
    using assms(1) low
    by (auto simp: get_io_cdb_def nvme_trans_get_io_cdb16_def be_bytes_4 be_bytes_8 get_u8_def get_u32_def
        get_u64_def bytes_join_32 bytes_join_64)
  moreover have "get_io_cdb ([op10, flags] @ be_bytes 4 lba10 @ [grp] @ be_bytes 2 len10 @ control # rest)
      = Some \<lparr>cdb_fua = flags AND 8, cdb_prot_info = flags AND 7, cdb_lba = scast lba10,
          cdb_xfer_len = ucast len10\<rparr>"
    using assms(2) low
    by (auto simp: get_io_cdb_def nvme_trans_get_io_cdb10_def be_bytes_4 be_bytes_2 get_u8_def get_u32_def
        get_u16_def bytes_join_32 bytes_join_16)
  moreover have "scast lba10 = (ucast lba10 :: u64) \<longleftrightarrow> lba10 < 2 ^ 31"
    by (rule scast_ucast_iff)
  ultimately show ?thesis by blast
qed

theorem get_io_cdb_decodes_witness:
  "get_io_cdb ([READ_16, 0x28] @ be_bytes 8 (0x123456789a :: u64) @ be_bytes 4 (0x80 :: u32) @ [0, 0])
      = Some \<lparr>cdb_fua = 8, cdb_prot_info = 0, cdb_lba = 0x123456789a, cdb_xfer_len = 0x80\<rparr>
    \<and> get_io_cdb ([WRITE_10, 0x28] @ be_bytes 4 (0x80000000 :: u32) @ [0] @ be_bytes 2 (0x80 :: u16) @ 0 # [])
      = Some \<lparr>cdb_fua = 8, cdb_prot_info = 0, cdb_lba = 0xffffffff80000000, cdb_xfer_len = 0x80\<rparr>
    \<and> (scast (0x80000000 :: u32) :: u64) \<noteq> ucast (0x80000000 :: u32)"
  using get_io_cdb_decodes [of READ_16 WRITE_10 "0x28" "0x123456789a" "0x80" 0 0 "0x80000000" "0x80" "[]"]
  by simp

end
