(* ===== verification/Scsi_Inquiry.thy ===== *)
theory Scsi_Inquiry
  imports Scsi_Base
begin

text \<open>
  The INQUIRY pages and the LOG SENSE pages of src/nvme-scsi.c. A page is a list of writes
  (\<open>pokes\<close>) into the response buffer, followed by the copy to the user.
\<close>

section \<open>C strings\<close>

definition strncpy_bytes :: "nat \<Rightarrow> u8 list \<Rightarrow> u8 list" where
  "strncpy_bytes n src = take n (takeWhile (\<lambda>b. b \<noteq> 0) src @ replicate n 0)"

definition hex_digit :: "nat \<Rightarrow> u8" where
  "hex_digit d = of_nat (if d < 10 then 48 + d else 87 + d)"

fun hex_digits :: "nat \<Rightarrow> u8 list" where
  "hex_digits n = (if n < 16 then [hex_digit n] else hex_digits (n div 16) @ [hex_digit (n mod 16)])"

declare hex_digits.simps [simp del]

text \<open>The bytes that sprintf writes for the format \<open>%04x\<close>, with the final zero.\<close>

definition sprintf_04x :: "u32 \<Rightarrow> u8 list" where
  "sprintf_04x w = (let ds = hex_digits (unat w) in replicate (4 - length ds) 48 @ ds @ [0])"

section \<open>INQUIRY\<close>

abbreviation STANDARD_INQUIRY_LENGTH :: nat where "STANDARD_INQUIRY_LENGTH \<equiv> 36"
abbreviation EXTENDED_INQUIRY_DATA_PAGE_LENGTH :: nat where "EXTENDED_INQUIRY_DATA_PAGE_LENGTH \<equiv> 0x3c"

text \<open>The loop that drops trailing blanks of the firmware revision, at most to length 4.\<close>

fun fw_trim :: "u8 list \<Rightarrow> nat \<Rightarrow> nat" where
  "fw_trim fr 0 = 0"
| "fw_trim fr (Suc n) = (if fr ! n = 0x20 \<and> Suc n > 4 then fw_trim fr n else Suc n)"

definition nvme_trans_standard_inquiry_page ::
  "scsi_env \<Rightarrow> u8 list \<Rightarrow> int \<Rightarrow> scsi \<Rightarrow> (int \<times> scsi) option" where
  "nvme_trans_standard_inquiry_page env inq_response alloc_len =
     with_dma env SIZEOF_ID_NS (\<lambda>dma_addr s.
       do { (res, s1) \<leftarrow> identify_ns env dma_addr s;
            if res \<noteq> 0 then Some (res, s1)
            else do {
              let protect = (if id_dps (e_id_ns env s1) \<noteq> 0 then 1 else 0);
              let fw = e_firmware_rev env;
              let fw_offset = fw_trim fw 8 - 4;
              resp \<leftarrow> pokes [(0, replicate STANDARD_INQUIRY_LENGTH 0), (2, [6]), (3, [2]), (4, [31]),
                (5, [protect]), (7, [2]), (8, [0x4e, 0x56, 0x4d, 0x65, 0x20, 0x20, 0x20, 0x20]),
                (16, strncpy_bytes 16 (e_model env)),
                (32, strncpy_bytes 4 (drop fw_offset fw))] inq_response;
              reply (min alloc_len (int STANDARD_INQUIRY_LENGTH)) resp s1 } })"

definition nvme_trans_supported_vpd_pages ::
  "scsi_env \<Rightarrow> u8 list \<Rightarrow> int \<Rightarrow> scsi \<Rightarrow> (int \<times> scsi) option" where
  "nvme_trans_supported_vpd_pages env inq_response alloc_len s =
     do { resp \<leftarrow> pokes [(0, replicate STANDARD_INQUIRY_LENGTH 0), (1, [0]), (3, [6]), (4, [0]), (5, [0x80]),
            (6, [0x83]), (7, [0x86]), (8, [0xb1]), (9, [0xb0])] inq_response;
          reply (min alloc_len (int STANDARD_INQUIRY_LENGTH)) resp s }"

definition nvme_trans_unit_serial_page ::
  "scsi_env \<Rightarrow> u8 list \<Rightarrow> int \<Rightarrow> scsi \<Rightarrow> (int \<times> scsi) option" where
  "nvme_trans_unit_serial_page env inq_response alloc_len s =
     do { resp \<leftarrow> pokes [(0, replicate STANDARD_INQUIRY_LENGTH 0), (1, [0x80]), (3, [0x14]),
            (4, strncpy_bytes 0x14 (e_serial env))] inq_response;
          reply (min alloc_len (int STANDARD_INQUIRY_LENGTH)) resp s }"

text \<open>
  The device identification page. \<open>eui_designator\<close> is the EUI-64, or the NGUID on version 1.2 when the EUI-64
  is zero; an empty one means that the code goes on at the label \<open>scsi_string\<close>.
\<close>

definition eui_designator :: "u32 \<Rightarrow> scsi_id_ns \<Rightarrow> u8 list" where
  "eui_designator vs idn =
     (let eui = (if vs \<ge> 0x10200 \<and> (\<forall>b \<in> set (id_eui64 idn). b = 0) then id_nguid idn else id_eui64 idn)
      in if \<forall>b \<in> set eui. b = 0 then [] else eui)"

definition device_id_string :: "scsi_env \<Rightarrow> u8 list \<Rightarrow> int \<Rightarrow> scsi \<Rightarrow> (int \<times> scsi) option" where
  "device_id_string env resp alloc_len s =
     (if alloc_len < 72 then Some (invalid_cdb s)
      else do {
        resp' \<leftarrow> pokes [(3, [0x48]), (4, [0x03]), (5, [0x08]), (6, [0x00]), (7, [0x44]),
          (8, sprintf_04x (ucast (e_vendor env))), (12, e_model env),
          (52, sprintf_04x (of_le_bytes (be_bytes 4 (ns_id (e_ns env))))),
          (56, e_serial env)] resp;
        reply alloc_len resp' s })"

definition nvme_trans_device_id_page ::
  "scsi_env \<Rightarrow> u8 list \<Rightarrow> int \<Rightarrow> scsi \<Rightarrow> (int \<times> scsi) option" where
  "nvme_trans_device_id_page env inq_response alloc_len =
     with_dma env SIZEOF_ID_NS (\<lambda>dma_addr s.
       do { resp \<leftarrow> pokes [(0, replicate (nat alloc_len) 0), (1, [0x83])] inq_response;
            if e_vs env < 0x10100 then device_id_string env resp alloc_len s
            else do {
              (res, s1) \<leftarrow> identify_ns env dma_addr s;
              if res \<noteq> 0 then Some (res, s1)
              else let eui = eui_designator (e_vs env) (e_id_ns env s1); len = length eui
                   in if eui = [] then device_id_string env resp alloc_len s1
                      else do {
                        resp' \<leftarrow> pokes [(3, [of_nat (4 + len)]), (4, [0x01]), (5, [0x02]), (6, [0x00]),
                          (7, [of_nat len]), (8, eui)] resp;
                        reply alloc_len resp' s1 } } })"

definition spt_lut :: "u8 list" where "spt_lut = [0, 0, 2, 1, 4, 6, 5, 7]"

definition nvme_trans_ext_inq_page :: "scsi_env \<Rightarrow> int \<Rightarrow> scsi \<Rightarrow> (int \<times> scsi) option" where
  "nvme_trans_ext_inq_page env alloc_len =
     with_kmem (kmalloc env) EXTENDED_INQUIRY_DATA_PAGE_LENGTH (\<lambda>inq_response.
     with_dma env SIZEOF_ID_NS (\<lambda>dma_addr s.
       do { (res, s1) \<leftarrow> identify_ns env dma_addr s;
            if res \<noteq> 0 then Some (res, s1)
            else do {
              let idn = e_id_ns env s1;
              let spt = push_bit 3 (spt_lut ! unat (id_dpc idn AND 7));
              let protect = (if id_dps idn \<noteq> 0 then 1 else 0);
              (res2, s2) \<leftarrow> identify_ctrl env dma_addr s1;
              if res2 \<noteq> 0 then Some (res2, s2)
              else do {
                let v_sup = ic_vwc (e_id_ctrl env s2);
                resp \<leftarrow> pokes [(0, replicate EXTENDED_INQUIRY_DATA_PAGE_LENGTH 0), (1, [0x86]), (2, [0]), (3, [0x3c]),
                  (4, [0x80 OR spt OR push_bit 2 protect OR push_bit 1 protect OR protect]), (5, [0x20]), (6, [v_sup]),
                  (7, [0x01]), (8, [0]), (9, [0])] inq_response;
                reply (min alloc_len (int EXTENDED_INQUIRY_DATA_PAGE_LENGTH)) resp s2 } } }))"

text \<open>The block limits page; \<open>nvme_block_nr\<close> shifts by \<open>lba_shift - 9\<close>, None if that is negative.\<close>

definition nvme_trans_bdev_limits_page ::
  "scsi_env \<Rightarrow> u8 list \<Rightarrow> int \<Rightarrow> scsi \<Rightarrow> (int \<times> scsi) option" where
  "nvme_trans_bdev_limits_page env inq_response alloc_len s =
     (let max_sectors = drop_bit (nat (ns_lba_shift (e_ns env) - 9)) (e_max_hw_sectors env);
          max_discard = n_max_discard_sectors (e_disk env)
      in if ns_lba_shift (e_ns env) < 9 then None
         else do { resp \<leftarrow> pokes ([(0, replicate STANDARD_INQUIRY_LENGTH 0), (1, [0xb0]), (3, [0x3c]),
                (8, be_bytes 4 max_sectors), (20, be_bytes 4 max_discard)]
                @ (if max_discard \<noteq> 0 then [(24, be_bytes 4 (0x100 :: u32))] else [])) inq_response;
              reply 0x3c resp s })"

definition nvme_trans_bdev_char_page :: "scsi_env \<Rightarrow> int \<Rightarrow> scsi \<Rightarrow> (int \<times> scsi) option" where
  "nvme_trans_bdev_char_page env alloc_len =
     with_kmem (kzalloc env) EXTENDED_INQUIRY_DATA_PAGE_LENGTH (\<lambda>inq_response s.
       do { resp \<leftarrow> pokes [(1, [0xb1]), (2, [0x00]), (3, [0x3c]), (4, [0x00]), (5, [0x01]), (6, [0x00])] inq_response;
            reply (min alloc_len (int EXTENDED_INQUIRY_DATA_PAGE_LENGTH)) resp s })"

text \<open>The pages with their codes, and the command.\<close>

definition vpd_page :: "scsi_env \<Rightarrow> u32 \<Rightarrow> u8 list \<Rightarrow> int \<Rightarrow> scsi \<Rightarrow> (int \<times> scsi) option" where
  "vpd_page env page_code inq_response alloc_len s =
     (if page_code = 0x00 then nvme_trans_supported_vpd_pages env inq_response alloc_len s
      else if page_code = 0x80 then nvme_trans_unit_serial_page env inq_response alloc_len s
      else if page_code = 0x83 then nvme_trans_device_id_page env inq_response alloc_len s
      else if page_code = 0x86 then nvme_trans_ext_inq_page env alloc_len s
      else if page_code = 0xb0 then nvme_trans_bdev_limits_page env inq_response alloc_len s
      else if page_code = 0xb1 then nvme_trans_bdev_char_page env alloc_len s
      else Some (invalid_cdb s))"

definition nvme_trans_inquiry :: "scsi_env \<Rightarrow> u8 list \<Rightarrow> scsi \<Rightarrow> (int \<times> scsi) option" where
  "nvme_trans_inquiry env cmd =
     (let evpd = get_u8 cmd 1 AND 1; page_code = get_u8 cmd 2; alloc_len = uint (get_u16 cmd 3)
      in with_kmem (kmalloc env) (max (nat alloc_len) STANDARD_INQUIRY_LENGTH) (\<lambda>inq_response s.
           if evpd \<noteq> 0 then vpd_page env page_code inq_response alloc_len s
           else if page_code = 0x00 then nvme_trans_standard_inquiry_page env inq_response alloc_len s
           else Some (invalid_cdb s)))"

section \<open>LOG SENSE\<close>

definition nvme_trans_log_supp_pages :: "scsi_env \<Rightarrow> int \<Rightarrow> scsi \<Rightarrow> (int \<times> scsi) option" where
  "nvme_trans_log_supp_pages env alloc_len =
     with_kmem (kzalloc env) 7 (\<lambda>log_response s.
       do { resp \<leftarrow> pokes [(0, [0x00]), (3, [3]), (4, [0x00]), (5, [0x2f]), (6, [0x0d])] log_response;
            reply (min alloc_len 7) resp s })"

definition smart_log_cmd :: "dma_addr \<Rightarrow> nvme_command" where
  "smart_log_cmd dma_addr =
     CmdCommon (zero_common\<lparr>common_opcode := 0x02, common_nsid := 0xffffffff, common_prp1 := ucast dma_addr,
       common_cdw10 := [push_bit 16 (of_nat (SIZEOF_SMART_LOG div 4 - 1)) OR 2, 0, 0, 0, 0, 0]\<rparr>)"

text \<open>The temperature in degrees Celsius at 8 bits, 0xff when the command fails.\<close>

definition smart_temperature :: "scsi_env \<Rightarrow> dma_addr \<Rightarrow> scsi \<Rightarrow> (u8 \<times> scsi) option" where
  "smart_temperature env dma_addr s =
     do { (res, s1) \<leftarrow> on_dev (admin_cmd env (smart_log_cmd dma_addr)) s;
          Some (if res \<noteq> 0 then 0xff
                else case e_smart env s1 of (t0, t1) \<Rightarrow>
                       ucast ((push_bit 8 (ucast t1) + ucast t0 :: u16) - 273), s1) }"

definition nvme_trans_log_info_exceptions :: "scsi_env \<Rightarrow> int \<Rightarrow> scsi \<Rightarrow> (int \<times> scsi) option" where
  "nvme_trans_log_info_exceptions env alloc_len =
     with_kmem (kzalloc env) 0xc (\<lambda>log_response.
     with_dma env SIZEOF_SMART_LOG (\<lambda>dma_addr s.
       do { (temp_c, s1) \<leftarrow> smart_temperature env dma_addr s;
            resp \<leftarrow> pokes [(0, [0x2f]), (3, [8]), (6, [0x23]), (7, [0x04]), (10, [temp_c])] log_response;
            reply (min alloc_len 0xc) resp s1 }))"

definition get_features_no_dma :: "scsi_env \<Rightarrow> u32 \<Rightarrow> scsi \<Rightarrow> (int \<times> u32 \<times> scsi) option" where
  "get_features_no_dma env fid s =
     map_option (\<lambda>(st, result, dev). (st, result, s\<lparr>s_dev := dev\<rparr>))
       (nvme_get_features (e_admin env) fid 0 0 (s_dev s))"

definition nvme_trans_log_temperature :: "scsi_env \<Rightarrow> int \<Rightarrow> scsi \<Rightarrow> (int \<times> scsi) option" where
  "nvme_trans_log_temperature env alloc_len =
     with_kmem (kzalloc env) 0x10 (\<lambda>log_response.
     with_dma env SIZEOF_SMART_LOG (\<lambda>dma_addr s.
       do { (temp_c_cur, s1) \<leftarrow> smart_temperature env dma_addr s;
            (res, feature_resp, s2) \<leftarrow> get_features_no_dma env 4 s1;
            let temp_c_thresh = (if res \<noteq> 0 then 0xff else ucast ((feature_resp AND 0xffff) - 273));
            resp \<leftarrow> pokes [(0, [0x0d]), (3, [0xc]), (6, [0x01]), (7, [0x02]), (9, [temp_c_cur]), (11, [0x01]),
              (12, [0x01]), (13, [0x02]), (15, [temp_c_thresh])] log_response;
            reply (min alloc_len 0x10) resp s2 }))"

definition nvme_trans_log_sense :: "scsi_env \<Rightarrow> u8 list \<Rightarrow> scsi \<Rightarrow> (int \<times> scsi) option" where
  "nvme_trans_log_sense env cmd s =
     (let sp = get_u8 cmd 1; page_code = get_u8 cmd 2 AND 0x3f; pc = drop_bit 6 (get_u8 cmd 2 AND 0xc0);
          alloc_len = uint (get_u16 cmd 7)
      in if sp \<noteq> 0 then Some (invalid_cdb s)
         else if pc \<noteq> 1 then Some (invalid_cdb s)
         else if page_code = 0x00 then nvme_trans_log_supp_pages env alloc_len s
         else if page_code = 0x2f then nvme_trans_log_info_exceptions env alloc_len s
         else if page_code = 0x0d then nvme_trans_log_temperature env alloc_len s
         else Some (invalid_cdb s))"

section \<open>Buffers\<close>

lemmas bufs_splits = Option.bind_splits if_splits option.splits prod.splits

lemma bufs_standard_inquiry [bufs_frame]:
  "nvme_trans_standard_inquiry_page env buf n s = Some (res, s') \<Longrightarrow> bufs s' = bufs s"
  unfolding nvme_trans_standard_inquiry_page_def
  by (erule bufs_with_dma [rotated]) (auto simp: Let_def split: bufs_splits dest!: bufs_frame)

lemma bufs_vpd_pages [bufs_frame]:
  "nvme_trans_supported_vpd_pages env buf n s = Some (res, s') \<Longrightarrow> bufs s' = bufs s"
  "nvme_trans_unit_serial_page env buf n s = Some (res, s') \<Longrightarrow> bufs s' = bufs s"
  "nvme_trans_bdev_limits_page env buf n s = Some (res, s') \<Longrightarrow> bufs s' = bufs s"
  by (auto simp: nvme_trans_supported_vpd_pages_def nvme_trans_unit_serial_page_def
      nvme_trans_bdev_limits_page_def Let_def split: bufs_splits dest!: bufs_frame)

lemma bufs_device_id_string [bufs_frame]:
  "device_id_string env resp n s = Some (res, s') \<Longrightarrow> bufs s' = bufs s"
  by (auto simp: device_id_string_def split: bufs_splits dest!: bufs_frame)

lemma bufs_device_id [bufs_frame]:
  "nvme_trans_device_id_page env buf n s = Some (res, s') \<Longrightarrow> bufs s' = bufs s"
  unfolding nvme_trans_device_id_page_def
  by (erule bufs_with_dma [rotated]) (auto simp: Let_def split: bufs_splits dest!: bufs_frame)

lemma bufs_ext_inq [bufs_frame]: "nvme_trans_ext_inq_page env n s = Some (res, s') \<Longrightarrow> bufs s' = bufs s"
  unfolding nvme_trans_ext_inq_page_def
  by (erule bufs_with_kmem [rotated 2, where env = env], simp, erule bufs_with_dma [rotated])
    (auto simp: Let_def split: bufs_splits dest!: bufs_frame)

lemma bufs_bdev_char [bufs_frame]: "nvme_trans_bdev_char_page env n s = Some (res, s') \<Longrightarrow> bufs s' = bufs s"
  unfolding nvme_trans_bdev_char_page_def
  by (erule bufs_with_kmem [rotated 2, where env = env], simp) (auto split: bufs_splits dest!: bufs_frame)

lemma bufs_inquiry: "nvme_trans_inquiry env cmd s = Some (res, s') \<Longrightarrow> bufs s' = bufs s"
  unfolding nvme_trans_inquiry_def Let_def
  by (erule bufs_with_kmem [rotated 2, where env = env], simp)
    (auto simp: vpd_page_def split: if_splits dest!: bufs_frame)

lemma bufs_log_supp [bufs_frame]: "nvme_trans_log_supp_pages env n s = Some (res, s') \<Longrightarrow> bufs s' = bufs s"
  unfolding nvme_trans_log_supp_pages_def
  by (erule bufs_with_kmem [rotated 2, where env = env], simp) (auto split: bufs_splits dest!: bufs_frame)

lemma bufs_smart [bufs_frame]: "smart_temperature env d s = Some (t, s') \<Longrightarrow> bufs s' = bufs s"
  by (auto simp: smart_temperature_def split: bufs_splits dest!: bufs_frame)

lemma bufs_get_features [bufs_frame]: "get_features_no_dma env fid s = Some (st, r, s') \<Longrightarrow> bufs s' = bufs s"
  by (auto simp: get_features_no_dma_def)

lemma bufs_log_info [bufs_frame]: "nvme_trans_log_info_exceptions env n s = Some (res, s') \<Longrightarrow> bufs s' = bufs s"
  unfolding nvme_trans_log_info_exceptions_def
  by (erule bufs_with_kmem [rotated 2, where env = env], simp, erule bufs_with_dma [rotated])
    (auto split: bufs_splits dest!: bufs_frame)

lemma bufs_log_temperature [bufs_frame]: "nvme_trans_log_temperature env n s = Some (res, s') \<Longrightarrow> bufs s' = bufs s"
  unfolding nvme_trans_log_temperature_def
  by (erule bufs_with_kmem [rotated 2, where env = env], simp, erule bufs_with_dma [rotated])
    (auto simp: Let_def split: bufs_splits dest!: bufs_frame)

lemma bufs_log_sense: "nvme_trans_log_sense env cmd s = Some (res, s') \<Longrightarrow> bufs s' = bufs s"
  by (auto simp: nvme_trans_log_sense_def Let_def split: if_splits dest!: bufs_frame)

end
