(* ===== verification/Scsi_Mode.thy ===== *)
theory Scsi_Mode
  imports Scsi_Inquiry
begin

text \<open>
  MODE SENSE and MODE SELECT of src/nvme-scsi.c. The functions that fill a mode page get the part of
  the response buffer from the page on, with the length they may use, and return it changed.

  The loops of MODE SELECT over the parameter list run while a 16-bit index is below the length of
  the list. The index can wrap around, so they have fuel; running out of it is None, as is a read
  behind the list.
\<close>

section \<open>MODE SENSE\<close>

type_synonym page_fill = "scsi_env \<Rightarrow> u8 list \<Rightarrow> int \<Rightarrow> scsi \<Rightarrow> (int \<times> u8 list \<times> scsi) option"

definition nvme_trans_fill_mode_parm_hdr ::
  "u8 list \<Rightarrow> int \<Rightarrow> bool \<Rightarrow> u8 \<Rightarrow> u16 \<Rightarrow> u16 \<Rightarrow> (int \<times> u8 list) option" where
  "nvme_trans_fill_mode_parm_hdr resp len cdb10 llbaa mode_data_length blk_desc_len =
     (if cdb10 \<and> len < 8 \<or> \<not> cdb10 \<and> len < 4 then Some (1, resp)
      else map_option (Pair 0)
        (if cdb10
         then pokes [(0, [ucast (drop_bit 8 (mode_data_length AND 0xff00))]), (1, [ucast (mode_data_length AND 0xff)]),
                (4, [llbaa]), (5, [0]), (6, [ucast (drop_bit 8 (blk_desc_len AND 0xff00))]),
                (7, [ucast (blk_desc_len AND 0xff)])] resp
         else pokes [(0, [ucast (mode_data_length AND 0xff)]), (3, [ucast (blk_desc_len AND 0xff)])] resp))"

text \<open>\<open>lbaf[flbas].ds\<close> and \<open>1 << ds\<close>, None for a shift by 32 or more.\<close>

definition lba_length :: "'a nvme_id_ns_scheme \<Rightarrow> nat \<Rightarrow> u32 option" where
  "lba_length idn i = (if i < length (id_lbaf idn) then shl_one (unat (lbaf_ds (id_lbaf idn ! i))) else None)"

definition flbas_length :: "'a nvme_id_ns_scheme \<Rightarrow> u32 option" where
  "flbas_length idn = lba_length idn (unat (id_flbas idn AND 0x0f))"

text \<open>A DMA buffer around the filling of a page.\<close>

definition fill_with_dma ::
  "scsi_env \<Rightarrow> u8 list \<Rightarrow> (dma_addr \<Rightarrow> scsi \<Rightarrow> (int \<times> u8 list \<times> scsi) option) \<Rightarrow> scsi
     \<Rightarrow> (int \<times> u8 list \<times> scsi) option" where
  "fill_with_dma env resp body s =
     (case dma_alloc_coherent env SIZEOF_ID_NS s of
        None \<Rightarrow> Some (- ENOMEM, resp, s)
      | Some (dma_addr, s1) \<Rightarrow>
          do { (res, resp', s2) \<leftarrow> body dma_addr s1;
               Some (res, resp', dma_free_coherent SIZEOF_ID_NS dma_addr s2) })"

definition nvme_trans_fill_blk_desc ::
  "scsi_env \<Rightarrow> u8 list \<Rightarrow> int \<Rightarrow> u8 \<Rightarrow> scsi \<Rightarrow> (int \<times> u8 list \<times> scsi) option" where
  "nvme_trans_fill_blk_desc env resp len llbaa s =
     (if llbaa = 0 \<and> len < 8 then Some (1, resp, s)
      else if llbaa > 0 \<and> len < 16 then Some (1, resp, s)
      else fill_with_dma env resp (\<lambda>dma_addr s.
             do { (res, s1) \<leftarrow> identify_ns env dma_addr s;
                  if res \<noteq> 0 then Some (res, resp, s1)
                  else do {
                    let idn = e_id_ns env s1;
                    lba_len \<leftarrow> flbas_length idn;
                    resp' \<leftarrow> (if llbaa = 0
                      then pokes [(0, be_bytes 4 (ucast (id_ncap idn) :: u32)),
                                  (4, be_bytes 4 (lba_len AND 0x00ffffff))] resp
                      else pokes [(0, be_bytes 8 (id_ncap idn)), (12, be_bytes 4 lba_len)] resp);
                    Some (0, resp', s1) } }) s)"

definition nvme_trans_fill_control_page :: page_fill where
  "nvme_trans_fill_control_page env resp len s =
     (if len < 0x0c then Some (1, resp, s)
      else do { resp' \<leftarrow> pokes [(0, [0x0a]), (1, [0x0a]), (2, [0x0e]), (3, [0x12]), (5, [0x40]), (8, [0xff]),
                  (9, [0xff])] resp;
                Some (0, resp', s) })"

definition nvme_trans_fill_caching_page :: page_fill where
  "nvme_trans_fill_caching_page env resp len s =
     (if len < 0x14 then Some (1, resp, s)
      else do {
        (nvme_sc, feature_resp, s1) \<leftarrow> get_features_no_dma env 6 s;
        let (res, s2) = nvme_trans_status_code nvme_sc s1;
        if res \<noteq> 0 then Some (res, resp, s2)
        else if nvme_sc \<noteq> 0 then Some (nvme_sc, resp, s2)
        else do {
          resp' \<leftarrow> pokes [(0, [0x08]), (1, [0x12]), (2, [push_bit 2 (ucast (feature_resp AND 1))])] resp;
          Some (0, resp', s2) } })"

definition nvme_trans_fill_pow_cnd_page :: page_fill where
  "nvme_trans_fill_pow_cnd_page env resp len s =
     (if len < 0x28 then Some (1, resp, s)
      else do { resp' \<leftarrow> pokes [(0, [0x1a]), (1, [0x26])] resp; Some (0, resp', s) })"

definition nvme_trans_fill_inf_exc_page :: page_fill where
  "nvme_trans_fill_inf_exc_page env resp len s =
     (if len < 0x0c then Some (1, resp, s)
      else do { resp' \<leftarrow> pokes [(0, [0x1c]), (1, [0x0a]), (2, [0x88])] resp; Some (0, resp', s) })"

text \<open>A page is filled at an offset of the buffer; the next one only after success.\<close>

definition fill_at ::
  "nat \<Rightarrow> (u8 list \<Rightarrow> scsi \<Rightarrow> (int \<times> u8 list \<times> scsi) option) \<Rightarrow> int \<times> u8 list \<times> scsi
     \<Rightarrow> (int \<times> u8 list \<times> scsi) option" where
  "fill_at k f r =
     (case r of (res, resp, s) \<Rightarrow>
        if res \<noteq> 0 then Some r
        else if length resp < k then None
        else do { (res', page, s') \<leftarrow> f (drop k resp) s; Some (res', take k resp @ page, s') })"

definition nvme_trans_fill_all_pages :: page_fill where
  "nvme_trans_fill_all_pages env resp len s =
     do { r1 \<leftarrow> fill_at 0 (\<lambda>p. nvme_trans_fill_caching_page env p 0x14) (0, resp, s);
          r2 \<leftarrow> fill_at 0x14 (\<lambda>p. nvme_trans_fill_control_page env p 0x0c) r1;
          r3 \<leftarrow> fill_at (0x14 + 0x0c) (\<lambda>p. nvme_trans_fill_pow_cnd_page env p 0x28) r2;
          fill_at (0x14 + 0x0c + 0x28) (\<lambda>p. nvme_trans_fill_inf_exc_page env p 0x0c) r3 }"

definition nvme_trans_get_blk_desc_len :: "u8 \<Rightarrow> u8 \<Rightarrow> int" where
  "nvme_trans_get_blk_desc_len dbd llbaa = (if dbd = 0 then 8 * (uint llbaa + 1) * 1 else 0)"

definition nvme_trans_mode_page_create ::
  "scsi_env \<Rightarrow> u8 list \<Rightarrow> u16 \<Rightarrow> bool \<Rightarrow> page_fill \<Rightarrow> u16 \<Rightarrow> scsi \<Rightarrow> (int \<times> scsi) option" where
  "nvme_trans_mode_page_create env cmd alloc_len cdb10 mode_page_fill_func mode_pages_tot_len =
     (let dbd = ucast (drop_bit 3 (get_u8 cmd 1 AND 8));
          llbaa = ucast (drop_bit 4 (get_u8 cmd 1 AND 0x10));
          mph_size = (if cdb10 then 8 else 4 :: u16);
          blk_desc_len = of_int (nvme_trans_get_blk_desc_len dbd llbaa);
          resp_size = mph_size + blk_desc_len + mode_pages_tot_len;
          mode_data_length = 3 + (if cdb10 then 3 else 0) + blk_desc_len + mode_pages_tot_len
      in with_kmem (kzalloc env) (unat resp_size) (\<lambda>response s.
           do { (res0, resp0) \<leftarrow> nvme_trans_fill_mode_parm_hdr response (uint mph_size) cdb10 llbaa
                                   mode_data_length blk_desc_len;
                r1 \<leftarrow> (if blk_desc_len > 0
                        then fill_at (unat mph_size)
                               (\<lambda>p. nvme_trans_fill_blk_desc env p (uint blk_desc_len) llbaa) (res0, resp0, s)
                        else Some (res0, resp0, s));
                (res2, resp2, s2) \<leftarrow> fill_at (unat (mph_size + blk_desc_len))
                        (\<lambda>p. mode_page_fill_func env p (uint mode_pages_tot_len)) r1;
                if res2 \<noteq> 0 then Some (res2, s2)
                else reply (uint (min alloc_len resp_size)) resp2 s2 }))"

abbreviation MODE_SENSE :: u8 where "MODE_SENSE \<equiv> 0x1a"
abbreviation MODE_SELECT :: u8 where "MODE_SELECT \<equiv> 0x15"

definition nvme_trans_mode_sense :: "scsi_env \<Rightarrow> u8 list \<Rightarrow> scsi \<Rightarrow> (int \<times> scsi) option" where
  "nvme_trans_mode_sense env cmd s =
     (let cdb10 = (cmd ! 0 \<noteq> MODE_SENSE);
          alloc_len = ucast (if cdb10 then get_u16 cmd 7 else get_u8 cmd 4);
          page_code = get_u8 cmd 2 AND 0x3f;
          create = nvme_trans_mode_page_create env cmd alloc_len cdb10
      in if get_u8 cmd 2 AND 0xc0 \<noteq> 0 then Some (invalid_cdb s)
         else if page_code = 0x08 then create nvme_trans_fill_caching_page 0x14 s
         else if page_code = 0x0a then create nvme_trans_fill_control_page 0x0c s
         else if page_code = 0x1a then create nvme_trans_fill_pow_cnd_page 0x28 s
         else if page_code = 0x1c then create nvme_trans_fill_inf_exc_page 0x0c s
         else if page_code = 0x3f then create nvme_trans_fill_all_pages 0x54 s
         else Some (invalid_cdb s))"

section \<open>MODE SELECT\<close>

definition nvme_trans_modesel_get_bd_len :: "u8 list \<Rightarrow> bool \<Rightarrow> (u16 \<times> u8) option" where
  "nvme_trans_modesel_get_bd_len parm_list cdb10 =
     (if cdb10
      then do { hi \<leftarrow> peek 6 parm_list; lo \<leftarrow> peek 7 parm_list; l \<leftarrow> peek 4 parm_list;
                Some (push_bit 8 (ucast hi) + ucast lo, l AND 1) }
      else do { b \<leftarrow> peek 3 parm_list; Some (ucast b, 0) })"

text \<open>The bytes of the list from \<open>idx\<close> on, as one big-endian number.\<close>

definition parm_word :: "u8 list \<Rightarrow> nat \<Rightarrow> nat \<Rightarrow> 'a::len word option" where
  "parm_word parm_list idx n =
     (if idx + n \<le> length parm_list then Some (of_le_bytes (rev (take n (drop idx parm_list)))) else None)"

definition nvme_trans_modesel_save_bd :: "u8 list \<Rightarrow> nat \<Rightarrow> u8 \<Rightarrow> scsi \<Rightarrow> scsi option" where
  "nvme_trans_modesel_save_bd parm_list idx llbaa s =
     (if llbaa = 0
      then do { n \<leftarrow> parm_word parm_list (idx + 1) 3; l \<leftarrow> parm_word parm_list (idx + 5) 3;
                Some (s\<lparr>s_mode_select_num_blocks := n, s_mode_select_block_len := l\<rparr>) }
      else do { n \<leftarrow> parm_word parm_list idx 8; l \<leftarrow> parm_word parm_list (idx + 12) 4;
                Some (s\<lparr>s_mode_select_num_blocks := n, s_mode_select_block_len := l\<rparr>) })"

definition set_features_no_dma :: "scsi_env \<Rightarrow> u32 \<Rightarrow> u32 \<Rightarrow> nvme_dev \<Rightarrow> (int \<times> nvme_dev) option" where
  "set_features_no_dma env fid dword11 dev = status_only (nvme_set_features (e_admin env) fid dword11 0 dev)"

text \<open>A completion with an error that the sense data could be delivered for counts as an internal error.\<close>

definition or_internal_error :: "int \<times> scsi \<Rightarrow> int \<times> scsi" where
  "or_internal_error r = (if fst r = 0 then 1 else fst r, snd r)"

definition nvme_trans_modesel_get_mp ::
  "scsi_env \<Rightarrow> u8 list \<Rightarrow> nat \<Rightarrow> u8 \<Rightarrow> scsi \<Rightarrow> (int \<times> scsi) option" where
  "nvme_trans_modesel_get_mp env parm_list index page_code s =
     (if page_code = 0x08
      then do { b2 \<leftarrow> peek (index + 2) parm_list;
                translated (set_features_no_dma env 6 (if b2 AND 4 \<noteq> 0 then 1 else 0)) s }
      else if page_code = 0x0a then Some (0, s)
      else if page_code = 0x1a
      then do { b2 \<leftarrow> peek (index + 2) parm_list;
                refuse \<leftarrow> (if b2 AND 1 \<noteq> 0 then Some True
                            else map_option (\<lambda>b3. b3 AND 0x0f \<noteq> 0) (peek (index + 3) parm_list));
                Some (if refuse
                      then or_internal_error (nvme_trans_completion SAM_STAT_CHECK_CONDITION ILLEGAL_REQUEST
                             SCSI_ASC_INVALID_PARAMETER SCSI_ASCQ_CAUSE_NOT_REPORTABLE s)
                      else (0, s)) }
      else Some (or_internal_error (invalid_cdb s)))"

text \<open>
  The first loop only looks at the page codes: the outcome is whether all of them are known. The
  second one runs the commands.
\<close>

fun modesel_check :: "nat \<Rightarrow> u8 list \<Rightarrow> u16 \<Rightarrow> u16 \<Rightarrow> bool option" where
  "modesel_check 0 parm_list parm_list_len index = None"
| "modesel_check (Suc fuel) parm_list parm_list_len index =
     do { page \<leftarrow> peek (unat index) parm_list;
          size \<leftarrow> peek (unat index + 1) parm_list;
          let page_code = page AND 0x3f;
          let index' = index + (ucast size + 2);
          if page_code \<noteq> 0x08 \<and> page_code \<noteq> 0x0a \<and> page_code \<noteq> 0x1a then Some False
          else if index' < parm_list_len then modesel_check fuel parm_list parm_list_len index'
          else Some True }"

fun modesel_run :: "nat \<Rightarrow> scsi_env \<Rightarrow> u8 list \<Rightarrow> u16 \<Rightarrow> u16 \<Rightarrow> scsi \<Rightarrow> (int \<times> scsi) option" where
  "modesel_run 0 env parm_list parm_list_len index s = None"
| "modesel_run (Suc fuel) env parm_list parm_list_len index s =
     do { page \<leftarrow> peek (unat index) parm_list;
          size \<leftarrow> peek (unat index + 1) parm_list;
          let index' = index + (ucast size + 2);
          (res, s1) \<leftarrow> nvme_trans_modesel_get_mp env parm_list (unat index) (page AND 0x3f) s;
          if res \<noteq> 0 then Some (res, s1)
          else if index' < parm_list_len then modesel_run fuel env parm_list parm_list_len index' s1
          else Some (0, s1) }"

definition modesel_fuel :: nat where "modesel_fuel = 65537"

definition nvme_trans_modesel_data ::
  "scsi_env \<Rightarrow> u16 \<Rightarrow> bool \<Rightarrow> scsi \<Rightarrow> (int \<times> scsi) option" where
  "nvme_trans_modesel_data env parm_list_len cdb10 =
     with_kmem (kmalloc env) (unat parm_list_len) (\<lambda>buf s.
       do { (res, parm_list) \<leftarrow> nvme_trans_copy_from_user (unat parm_list_len) buf s;
            if res \<noteq> 0 then Some (res, s)
            else do {
              (bd_len, llbaa) \<leftarrow> nvme_trans_modesel_get_bd_len parm_list cdb10;
              let index = (if cdb10 then 8 else 4 :: u16);
              s1 \<leftarrow> (if bd_len \<noteq> 0 then nvme_trans_modesel_save_bd parm_list (unat index) llbaa s else Some s);
              let saved_index = index + bd_len;
              good \<leftarrow> modesel_check modesel_fuel parm_list parm_list_len saved_index;
              if \<not> good then Some (invalid_cdb s1)
              else modesel_run modesel_fuel env parm_list parm_list_len saved_index s1 } })"

definition nvme_trans_mode_select :: "scsi_env \<Rightarrow> u8 list \<Rightarrow> scsi \<Rightarrow> (int \<times> scsi) option" where
  "nvme_trans_mode_select env cmd s =
     (let cdb10 = (cmd ! 0 \<noteq> MODE_SELECT);
          parm_list_len = ucast (if cdb10 then get_u16 cmd 7 else get_u8 cmd 4)
      in if parm_list_len \<noteq> 0 then nvme_trans_modesel_data env parm_list_len cdb10 s
         else Some (0, s))"

section \<open>Buffers\<close>

lemma bufs_fill_with_dma:
  assumes "\<And>d s res r s'. body d s = Some (res, r, s') \<Longrightarrow> bufs s' = bufs s"
  shows "fill_with_dma env resp body s = Some (res, r, s') \<Longrightarrow> bufs s' = bufs s"
  by (auto simp: fill_with_dma_def dma_alloc_coherent_def dma_free_coherent_def bufs_def
      dest!: assms [unfolded bufs_def] split: option.splits Option.bind_splits del: equalityI)

lemma bufs_fill_blk_desc [bufs_frame]:
  "nvme_trans_fill_blk_desc env resp n l s = Some (res, r, s') \<Longrightarrow> bufs s' = bufs s"
  by (auto simp: nvme_trans_fill_blk_desc_def Let_def split: bufs_splits dest!: bufs_frame
      elim!: bufs_fill_with_dma [rotated])

lemma bufs_fill_pages [bufs_frame]:
  "nvme_trans_fill_control_page env resp n s = Some (res, r, s') \<Longrightarrow> bufs s' = bufs s"
  "nvme_trans_fill_caching_page env resp n s = Some (res, r, s') \<Longrightarrow> bufs s' = bufs s"
  "nvme_trans_fill_pow_cnd_page env resp n s = Some (res, r, s') \<Longrightarrow> bufs s' = bufs s"
  "nvme_trans_fill_inf_exc_page env resp n s = Some (res, r, s') \<Longrightarrow> bufs s' = bufs s"
  by (auto simp: nvme_trans_fill_control_page_def nvme_trans_fill_caching_page_def
      nvme_trans_fill_pow_cnd_page_def nvme_trans_fill_inf_exc_page_def Let_def split: bufs_splits dest!: bufs_frame)

lemma bufs_fill_at:
  assumes "\<And>p s res r s'. f p s = Some (res, r, s') \<Longrightarrow> bufs s' = bufs s"
  shows "fill_at k f (res0, resp, s) = Some (res, r, s') \<Longrightarrow> bufs s' = bufs s"
  by (auto simp: fill_at_def split: bufs_splits dest!: assms)

lemma bufs_fill_all [bufs_frame]:
  "nvme_trans_fill_all_pages env resp n s = Some (res, r, s') \<Longrightarrow> bufs s' = bufs s"
  by (auto simp: nvme_trans_fill_all_pages_def fill_at_def split: bufs_splits dest!: bufs_frame)

lemma bufs_page_create:
  assumes "\<And>p n s res r s'. fill env p n s = Some (res, r, s') \<Longrightarrow> bufs s' = bufs s"
  shows "nvme_trans_mode_page_create env cmd al cdb10 fill tot s = Some (res, s') \<Longrightarrow> bufs s' = bufs s"
  unfolding nvme_trans_mode_page_create_def Let_def
  by (erule bufs_with_kmem [rotated 2, where env = env], simp)
    (auto simp: fill_at_def split: bufs_splits dest!: bufs_frame assms)

lemma bufs_mode_sense: "nvme_trans_mode_sense env cmd s = Some (res, s') \<Longrightarrow> bufs s' = bufs s"
  by (auto simp: nvme_trans_mode_sense_def Let_def split: if_splits dest!: bufs_frame
      elim!: bufs_page_create [rotated])

lemma bufs_modesel_get_mp [bufs_frame]:
  "nvme_trans_modesel_get_mp env pl i page s = Some (res, s') \<Longrightarrow> bufs s' = bufs s"
  by (auto simp: nvme_trans_modesel_get_mp_def or_internal_error_def split: bufs_splits dest!: bufs_frame)

lemma bufs_modesel_run [bufs_frame]:
  "modesel_run fuel env pl len i s = Some (res, s') \<Longrightarrow> bufs s' = bufs s"
proof (induction fuel env pl len i s arbitrary: res s' rule: modesel_run.induct)
  case (2 fuel env pl len i s)
  then show ?case
    by (fastforce simp: Let_def split: bufs_splits dest: bufs_modesel_get_mp)
qed simp

lemma bufs_save_bd [bufs_frame]: "nvme_trans_modesel_save_bd pl i l s = Some s' \<Longrightarrow> bufs s' = bufs s"
  by (auto simp: nvme_trans_modesel_save_bd_def split: bufs_splits)

lemma bufs_mode_select: "nvme_trans_mode_select env cmd s = Some (res, s') \<Longrightarrow> bufs s' = bufs s"
proof -
  have "nvme_trans_modesel_data env n cdb10 s = Some (res, s') \<Longrightarrow> bufs s' = bufs s" for n cdb10
    unfolding nvme_trans_modesel_data_def Let_def
    by (erule bufs_with_kmem [rotated 2, where env = env], simp) (auto split: bufs_splits dest!: bufs_frame)
  then show "nvme_trans_mode_select env cmd s = Some (res, s') \<Longrightarrow> bufs s' = bufs s"
    by (auto simp: nvme_trans_mode_select_def Let_def split: if_splits)
qed

end
