(* ===== verification/Scsi_Translate.thy ===== *)
theory Scsi_Translate
  imports Scsi_Io Scsi_Mode
begin

text \<open>
  The remaining SCSI commands of src/nvme-scsi.c (READ CAPACITY, REPORT LUNS, REQUEST SENSE, START STOP
  UNIT, SYNCHRONIZE CACHE, FORMAT UNIT, TEST UNIT READY, WRITE BUFFER, UNMAP), the dispatch on the
  opcode (\<open>nvme_scsi_translate\<close>) and the entry points of the ioctls (\<open>nvme_sg_io\<close>,
  \<open>nvme_sg_get_version_num\<close>).
\<close>

section \<open>READ CAPACITY, REPORT LUNS, REQUEST SENSE\<close>

definition nvme_trans_fill_read_cap :: "u8 list \<Rightarrow> 'a nvme_id_ns_scheme \<Rightarrow> bool \<Rightarrow> u8 list option" where
  "nvme_trans_fill_read_cap response idn cdb16 =
     do { lba_len \<leftarrow> flbas_length idn;
          let rlba = id_nsze idn - 1;
          let prot_en = (if id_dps idn \<noteq> 0 then 1 else 0);
          if \<not> cdb16
          then pokes [(0, be_bytes 4 (ucast (min rlba 0xffffffff) :: u32)), (4, be_bytes 4 lba_len)] response
          else pokes [(0, be_bytes 8 rlba), (8, be_bytes 4 lba_len),
                 (12, [push_bit 1 ([0, 0, 1, 2] ! unat (id_dps idn AND 3)) OR prot_en])] response }"

definition is_read_cap_16 :: "u8 list \<Rightarrow> bool" where
  "is_read_cap_16 cmd \<longleftrightarrow> cmd ! 0 = 0x9e \<and> cmd ! 1 = 0x10"

definition nvme_trans_read_capacity :: "scsi_env \<Rightarrow> u8 list \<Rightarrow> scsi \<Rightarrow> (int \<times> scsi) option" where
  "nvme_trans_read_capacity env cmd =
     (let cdb16 = is_read_cap_16 cmd;
          alloc_len = (if cdb16 then get_u32 cmd 10 else 8);
          resp_size = (if cdb16 then 32 else 8)
      in with_dma env SIZEOF_ID_NS (\<lambda>dma_addr s.
           do { (res, s1) \<leftarrow> identify_ns env dma_addr s;
                if res \<noteq> 0 then Some (res, s1)
                else with_kmem (kzalloc env) (unat resp_size) (\<lambda>response s2.
                       do { resp \<leftarrow> nvme_trans_fill_read_cap response (e_id_ns env s1) cdb16;
                            reply (uint (min alloc_len resp_size)) resp s2 }) s1 }))"

text \<open>The loop over the LUNs: the offset is an u8.\<close>

fun fill_luns :: "nat list \<Rightarrow> u8 \<Rightarrow> u8 list \<Rightarrow> u8 list option" where
  "fill_luns [] lun_id_offset response = Some response"
| "fill_luns (lun_id # luns) lun_id_offset response =
     do { resp \<leftarrow> poke (unat lun_id_offset) (be_bytes 8 (of_nat lun_id :: u64)) response;
          fill_luns luns (lun_id_offset + 8) resp }"

abbreviation SIZEOF_ID_CTRL :: nat where "SIZEOF_ID_CTRL \<equiv> 4096"

definition nvme_trans_report_luns :: "scsi_env \<Rightarrow> u8 list \<Rightarrow> scsi \<Rightarrow> (int \<times> scsi) option" where
  "nvme_trans_report_luns env cmd s0 =
     (let alloc_len = get_u32 cmd 6; select_report = cmd ! 2
      in if select_report \<noteq> 2 \<and> select_report \<noteq> 1 \<and> select_report \<noteq> 0 then Some (invalid_cdb s0)
         else with_dma env SIZEOF_ID_CTRL (\<lambda>dma_addr s.
           do { (res, s1) \<leftarrow> identify_ctrl env dma_addr s;
                if res \<noteq> 0 then Some (res, s1)
                else let nn = ic_nn (e_id_ctrl env s1); ll_length = nn * 8; resp_size = ll_length + 8
                     in if alloc_len < resp_size then Some (invalid_cdb s1)
                        else with_kmem (kzalloc env) (unat resp_size) (\<lambda>response s2.
                               do { resp \<leftarrow> fill_luns [0..<unat nn] 8 response;
                                    resp' \<leftarrow> poke 0 (be_bytes 4 ll_length) resp;
                                    reply (uint (min alloc_len resp_size)) resp' s2 }) s1 }) s0)"

definition nvme_trans_request_sense :: "scsi_env \<Rightarrow> u8 list \<Rightarrow> scsi \<Rightarrow> (int \<times> scsi) option" where
  "nvme_trans_request_sense env cmd =
     (let alloc_len = cmd ! 4; desc_format = cmd ! 1 AND 1; resp_size = (if desc_format \<noteq> 0 then 8 else 18)
      in with_kmem (kzalloc env) (unat resp_size) (\<lambda>response s.
           do { resp \<leftarrow> (if desc_format = 1
                  then pokes [(0, [0x72]), (1, [NO_SENSE]), (2, [0]), (3, [0])] response
                  else pokes [(0, [0x70]), (2, [NO_SENSE]), (7, [10]), (12, [0]), (13, [0])] response);
                reply (uint (min alloc_len resp_size)) resp s }))"

definition nvme_trans_security_protocol :: "scsi \<Rightarrow> int \<times> scsi" where
  "nvme_trans_security_protocol s =
     nvme_trans_completion SAM_STAT_CHECK_CONDITION ILLEGAL_REQUEST SCSI_ASC_ILLEGAL_COMMAND
       SCSI_ASCQ_CAUSE_NOT_REPORTABLE s"

section \<open>START STOP UNIT, SYNCHRONIZE CACHE, TEST UNIT READY\<close>

text \<open>
  The switch of \<open>nvme_trans_power_state\<close>: the power state, or None in its default branch, which writes
  sense data and goes on with power state 0.
\<close>

definition power_state_desired :: "int \<Rightarrow> u8 \<Rightarrow> u8 \<Rightarrow> u8 \<Rightarrow> int option" where
  "power_state_desired lowest_pow_st pc pcmod start =
     (if pc = 0 then Some (if pcmod = 0 \<and> start = 0 then lowest_pow_st else 0)
      else if pc = 1 then Some 0
      else if pc = 2 then Some (if pcmod = 0 then 1 else if pcmod = 1 then 2 else if pcmod = 2 then 3 else 0)
      else if pc = 3
           then Some (if pcmod = 0 then max 0 (lowest_pow_st - 2)
                      else if pcmod = 1 then max 0 (lowest_pow_st - 1) else 0)
      else None)"

definition nvme_trans_power_state :: "scsi_env \<Rightarrow> u8 \<Rightarrow> u8 \<Rightarrow> u8 \<Rightarrow> scsi \<Rightarrow> (int \<times> scsi) option" where
  "nvme_trans_power_state env pc pcmod start =
     with_dma env SIZEOF_ID_CTRL (\<lambda>dma_addr s.
       do { (res, s1) \<leftarrow> identify_ctrl env dma_addr s;
            if res \<noteq> 0 then Some (res, s1)
            else let lowest_pow_st = max 0 (uint (ic_npss (e_id_ctrl env s1)) - 1);
                     (ps_desired, s2) =
                       (case power_state_desired lowest_pow_st pc pcmod start of
                          Some ps \<Rightarrow> (of_int ps, s1) | None \<Rightarrow> (0, snd (invalid_cdb s1)))
                 in translated (set_features_no_dma env 2 ps_desired) s2 })"

definition flush_cmd :: "nvme_ns \<Rightarrow> nvme_command" where
  "flush_cmd ns = CmdCommon (zero_common\<lparr>common_opcode := nvme_cmd_flush, common_nsid := ns_id ns\<rparr>)"

definition io_cmd :: "scsi_env \<Rightarrow> nvme_command \<Rightarrow> nvme_dev \<Rightarrow> (int \<times> nvme_dev) option" where
  "io_cmd env c dev = status_only (nvme_submit_io_cmd (e_io env) c dev)"

definition nvme_trans_start_stop :: "scsi_env \<Rightarrow> u8 list \<Rightarrow> scsi \<Rightarrow> (int \<times> scsi) option" where
  "nvme_trans_start_stop env cmd s =
     (let immed = cmd ! 1 AND 1; pcmod = cmd ! 3 AND 0xf; pc = drop_bit 4 (cmd ! 4 AND 0xf0);
          no_flush = cmd ! 4 AND 4; start = cmd ! 4 AND 1
      in if immed \<noteq> 0 then Some (invalid_cdb s)
         else do { (res, s1) \<leftarrow> (if no_flush = 0 then translated (io_cmd env (flush_cmd (e_ns env))) s else Some (0, s));
                   if res \<noteq> 0 then Some (res, s1) else nvme_trans_power_state env pc pcmod start s1 })"

definition nvme_trans_synchronize_cache :: "scsi_env \<Rightarrow> scsi \<Rightarrow> (int \<times> scsi) option" where
  "nvme_trans_synchronize_cache env s = translated (io_cmd env (flush_cmd (e_ns env))) s"

definition nvme_trans_test_unit_ready :: "scsi_env \<Rightarrow> scsi \<Rightarrow> int \<times> scsi" where
  "nvme_trans_test_unit_ready env s =
     (if e_csts env AND NVME_CSTS_RDY = 0
      then nvme_trans_completion SAM_STAT_CHECK_CONDITION NOT_READY SCSI_ASC_LUN_NOT_READY
             SCSI_ASCQ_CAUSE_NOT_REPORTABLE s
      else nvme_trans_completion SAM_STAT_GOOD NO_SENSE 0 0 s)"

section \<open>WRITE BUFFER\<close>

abbreviation nvme_admin_activate_fw :: u8 where "nvme_admin_activate_fw \<equiv> 0x10"
abbreviation nvme_admin_download_fw :: u8 where "nvme_admin_download_fw \<equiv> 0x11"
abbreviation nvme_admin_format_nvm :: u8 where "nvme_admin_format_nvm \<equiv> 0x80"

definition download_fw_cmd :: "u32 \<Rightarrow> u32 \<Rightarrow> nvme_iod \<Rightarrow> nvme_command" where
  "download_fw_cmd tot_len offset iod =
     CmdDlfw (zero_dlfw\<lparr>dlfw_opcode := nvme_admin_download_fw, dlfw_prp1 := ucast (fst (hd (iod_sg iod))),
       dlfw_prp2 := ucast (iod_first_dma iod), dlfw_numd := tot_len div 4 - 1, dlfw_offset := offset div 4\<rparr>)"

definition activate_fw_cmd :: "u8 \<Rightarrow> u8 \<Rightarrow> nvme_command" where
  "activate_fw_cmd opcode buffer_id =
     CmdCommon (zero_common\<lparr>common_opcode := opcode,
       common_cdw10 := (if opcode = nvme_admin_activate_fw then ucast buffer_id OR 8 else 0) # replicate 5 0\<rparr>)"

definition nvme_trans_send_fw_cmd ::
  "scsi_env \<Rightarrow> u8 \<Rightarrow> u32 \<Rightarrow> u32 \<Rightarrow> u8 \<Rightarrow> scsi \<Rightarrow> (int \<times> scsi) option" where
  "nvme_trans_send_fw_cmd env opcode tot_len offset buffer_id s =
     (if opcode = nvme_admin_download_fw
      then if h_iovec_count (s_hdr s) > 0 then Some (invalid_cdb s)
           else case nvme_map_user_pages (e_map env s) (d_page_size (s_dev s)) (h_dxferp (s_hdr s)) tot_len of
                  (Inl err, evs) \<Rightarrow> Some (err, scsi_log evs s)
                | (Inr iod, evs) \<Rightarrow>
                    do { let s1 = scsi_log evs s;
                         (len, iod1) \<leftarrow> nvme_setup_prps (e_palloc env) (d_page_size (s_dev s1)) iod (sint tot_len);
                         (res, s2) \<leftarrow> (if of_int len \<noteq> tot_len then Some (- ENOMEM, s1)
                                        else translated (admin_cmd env (download_fw_cmd tot_len offset iod1)) s1);
                         s3 \<leftarrow> io_release True iod1 s2;
                         Some (res, s3) }
      else translated (admin_cmd env (activate_fw_cmd opcode buffer_id)) s)"

definition nvme_trans_write_buffer :: "scsi_env \<Rightarrow> u8 list \<Rightarrow> scsi \<Rightarrow> (int \<times> scsi) option" where
  "nvme_trans_write_buffer env cmd s =
     (let parm_list_length = get_u24 cmd 6; buffer_id = cmd ! 2; mode = cmd ! 1 AND 0x1f;
          buffer_offset = get_u24 cmd 3;
          send = (\<lambda>opcode. nvme_trans_send_fw_cmd env opcode parm_list_length buffer_offset buffer_id)
      in if parm_list_length mod 4 \<noteq> 0 then Some (invalid_cdb s)
         else if buffer_id > 7 then Some (invalid_cdb s)
         else if mode = 0x05
              then do { (res, s1) \<leftarrow> send nvme_admin_download_fw s;
                        if res \<noteq> 0 then Some (res, s1) else send nvme_admin_activate_fw s1 }
         else if mode = 0x0e then send nvme_admin_download_fw s
         else if mode = 0x0f then send nvme_admin_activate_fw s
         else Some (invalid_cdb s))"

section \<open>FORMAT UNIT\<close>

definition nvme_trans_fmt_set_blk_size_count :: "scsi_env \<Rightarrow> scsi \<Rightarrow> (int \<times> scsi) option" where
  "nvme_trans_fmt_set_blk_size_count env s0 =
     (if s_mode_select_num_blocks s0 = 0 \<or> s_mode_select_block_len s0 = 0
      then with_dma env SIZEOF_ID_NS (\<lambda>dma_addr s.
             do { (res, s1) \<leftarrow> identify_ns env dma_addr s;
                  if res \<noteq> 0 then Some (res, s1)
                  else do {
                    let idn = e_id_ns env s1;
                    let s2 = (if s_mode_select_num_blocks s1 = 0
                              then s1\<lparr>s_mode_select_num_blocks := id_ncap idn\<rparr> else s1);
                    s3 \<leftarrow> (if s_mode_select_block_len s2 = 0
                             then map_option (\<lambda>l. s2\<lparr>s_mode_select_block_len := l\<rparr>) (flbas_length idn)
                             else Some s2);
                    Some (0, s3) } }) s0
      else Some (0, s0))"

text \<open>
  The parameter list of FORMAT UNIT. The result is the error with the protection code; a refused
  list has the error that \<open>nvme_trans_completion\<close> returns, 0 when the sense data was delivered.
\<close>

definition fmt_parm_check :: "nat \<Rightarrow> u8 \<Rightarrow> u8 list \<Rightarrow> scsi \<Rightarrow> (int \<times> u8 \<times> scsi) option" where
  "fmt_parm_check len format_prot_info parm_list s =
     do { b0 \<leftarrow> peek 0 parm_list; b1 \<leftarrow> peek 1 parm_list;
          let refuse = (let (res, s') = invalid_cdb s in Some (res, 0, s'));
          let code = push_bit 2 (b0 AND 7) OR format_prot_info;
          if b1 AND 2 \<noteq> 0 then refuse
          else do {
            bad \<leftarrow> (if len = 8 then map_option (\<lambda>b3. b3 AND 0x0f \<noteq> 0) (peek 3 parm_list) else Some False);
            if bad then refuse
            else if code = 0 then Some (0, 0, s)
            else if code = 2 then Some (0, 1, s)
            else if code = 3 then Some (0, 2, s)
            else if code = 7 then Some (0, 3, s)
            else refuse } }"

definition nvme_trans_fmt_get_parm_header ::
  "scsi_env \<Rightarrow> nat \<Rightarrow> u8 \<Rightarrow> scsi \<Rightarrow> (int \<times> u8 \<times> scsi) option" where
  "nvme_trans_fmt_get_parm_header env len format_prot_info s =
     (case kmalloc env len s of
        None \<Rightarrow> Some (- ENOMEM, 0, s)
      | Some (buf, s1) \<Rightarrow>
          do { (res, parm_list) \<leftarrow> nvme_trans_copy_from_user len buf s1;
               (res', nvme_pf_code, s2) \<leftarrow> (if res \<noteq> 0 then Some (res, 0, s1)
                                            else fmt_parm_check len format_prot_info parm_list s1);
               Some (res', nvme_pf_code, kfree s2) })"

text \<open>The first of the k formats from i on whose block length is the wanted one, 0xff if there is none.\<close>

fun find_lbaf :: "'a nvme_id_ns_scheme \<Rightarrow> u32 \<Rightarrow> nat \<Rightarrow> nat \<Rightarrow> u8 option" where
  "find_lbaf idn block_len i 0 = Some 0xff"
| "find_lbaf idn block_len i (Suc k) =
     do { l \<leftarrow> lba_length idn i; if block_len = l then Some (of_nat i) else find_lbaf idn block_len (Suc i) k }"

definition format_command :: "nvme_ns \<Rightarrow> u8 \<Rightarrow> u8 \<Rightarrow> nvme_command" where
  "format_command ns prot_info selected_lbaf =
     CmdFormat (zero_format\<lparr>format_opcode := nvme_admin_format_nvm, format_nsid := ns_id ns,
       format_cdw10 := push_bit 5 (ucast prot_info) OR ucast (selected_lbaf AND 0x0f)\<rparr>)"

definition invalid_parameter :: "scsi \<Rightarrow> int \<times> scsi" where
  "invalid_parameter s = nvme_trans_completion SAM_STAT_CHECK_CONDITION ILLEGAL_REQUEST
     SCSI_ASC_INVALID_PARAMETER SCSI_ASCQ_CAUSE_NOT_REPORTABLE s"

definition nvme_trans_fmt_send_cmd :: "scsi_env \<Rightarrow> u8 \<Rightarrow> scsi \<Rightarrow> (int \<times> scsi) option" where
  "nvme_trans_fmt_send_cmd env prot_info =
     with_dma env SIZEOF_ID_NS (\<lambda>dma_addr s.
       do { (res, s1) \<leftarrow> identify_ns env dma_addr s;
            if res \<noteq> 0 then Some (res, s1)
            else do {
              let idn = e_id_ns env s1;
              selected_lbaf \<leftarrow> find_lbaf idn (s_mode_select_block_len s1) 0 (unat (id_nlbaf idn));
              let s2 = (if selected_lbaf > 0x0f then snd (invalid_parameter s1) else s1);
              let s3 = (if s_mode_select_num_blocks s2 \<noteq> id_ncap idn then snd (invalid_parameter s2) else s2);
              translated (admin_cmd env (format_command (e_ns env) prot_info selected_lbaf)) s3 } })"

definition nvme_trans_format_unit :: "scsi_env \<Rightarrow> u8 list \<Rightarrow> scsi \<Rightarrow> (int \<times> scsi) option" where
  "nvme_trans_format_unit env cmd s =
     (let format_prot_info = drop_bit 6 (cmd ! 1 AND 0xc0); long_list = cmd ! 1 AND 0x20;
          format_data = cmd ! 1 AND 0x10;
          parm_hdr_len = (if format_data \<noteq> 0 \<and> format_prot_info \<noteq> 0 then if long_list = 0 then 4 else 8 else 0)
      in if format_data = 0 \<and> format_prot_info \<noteq> 0 then Some (invalid_cdb s)
         else do {
           (res, nvme_pf_code, s1) \<leftarrow> (if parm_hdr_len > 0
              then nvme_trans_fmt_get_parm_header env parm_hdr_len format_prot_info s else Some (0, 0, s));
           if res \<noteq> 0 then Some (res, s1)
           else do {
             (_, s2) \<leftarrow> nvme_trans_send_fw_cmd env nvme_admin_activate_fw 0 0 0 s1;
             (res3, s3) \<leftarrow> nvme_trans_fmt_set_blk_size_count env s2;
             if res3 \<noteq> 0 then Some (res3, s3) else nvme_trans_fmt_send_cmd env nvme_pf_code s3 } })"

section \<open>UNMAP\<close>

text \<open>The descriptors of the parameter list as ranges (cattr, nlb, slba).\<close>

fun unmap_ranges :: "u8 list \<Rightarrow> nat \<Rightarrow> nat \<Rightarrow> (u32 \<times> u32 \<times> u64) list option" where
  "unmap_ranges plist i 0 = Some []"
| "unmap_ranges plist i (Suc k) =
     do { nlb \<leftarrow> parm_word plist (8 + 16 * i + 8) 4; slba \<leftarrow> parm_word plist (8 + 16 * i) 8;
          rs \<leftarrow> unmap_ranges plist (Suc i) k;
          Some ((0, nlb, slba) # rs) }"

definition unmap_cmd :: "nvme_ns \<Rightarrow> dma_addr \<Rightarrow> u16 \<Rightarrow> nvme_command" where
  "unmap_cmd ns dma_addr ndesc =
     CmdDsm (zero_dsm\<lparr>dsm_opcode := nvme_cmd_dsm, dsm_nsid := ns_id ns, dsm_prp1 := ucast dma_addr,
       dsm_nr := ucast ndesc - 1, dsm_attributes := NVME_DSMGMT_AD\<rparr>)"

text \<open>A failure to allocate the ranges returns the 0 that the copy left in \<open>res\<close>.\<close>

definition nvme_trans_unmap :: "scsi_env \<Rightarrow> u8 list \<Rightarrow> scsi \<Rightarrow> (int \<times> scsi) option" where
  "nvme_trans_unmap env cmd s0 =
     (let list_len = unat (get_u16 cmd 7)
      in if list_len = 0 then Some (- EINVAL, s0)
         else with_kmem (kmalloc env) list_len (\<lambda>buf s.
           do { (res, plist) \<leftarrow> nvme_trans_copy_from_user list_len buf s;
                if res \<noteq> 0 then Some (res, s)
                else do {
                  (data_len :: u16) \<leftarrow> parm_word plist 2 2;
                  let ndesc = drop_bit 4 data_len;
                  if ndesc = 0 \<or> ndesc > 256 then Some (- EINVAL, s)
                  else case dma_alloc_coherent env (16 * unat ndesc) s of
                         None \<Rightarrow> Some (0, s)
                       | Some (dma_addr, s1) \<Rightarrow>
                           do { ranges \<leftarrow> unmap_ranges plist 0 (unat ndesc);
                                let s2 = s1\<lparr>s_ranges := s_ranges s1 @ [(dma_addr, ranges)]\<rparr>;
                                (nvme_sc, s3) \<leftarrow> on_dev (io_cmd env (unmap_cmd (e_ns env) dma_addr ndesc)) s2;
                                let (res', s4) = nvme_trans_status_code nvme_sc s3;
                                Some (res', dma_free_coherent (16 * unat ndesc) dma_addr s4) } } }) s0)"

section \<open>Dispatch and entry points\<close>

abbreviation BLK_MAX_CDB :: nat where "BLK_MAX_CDB \<equiv> 16"

definition scsi_dispatch :: "scsi_env \<Rightarrow> u8 list \<Rightarrow> scsi \<Rightarrow> (int \<times> scsi) option" where
  "scsi_dispatch env cmd s =
     (let opcode = cmd ! 0;
          illegal = Some (nvme_trans_completion SAM_STAT_CHECK_CONDITION ILLEGAL_REQUEST
                            SCSI_ASC_ILLEGAL_COMMAND SCSI_ASCQ_CAUSE_NOT_REPORTABLE s)
      in if opcode = READ_6 \<or> opcode = READ_10 \<or> opcode = READ_12 \<or> opcode = READ_16
         then nvme_trans_io env False cmd s
         else if opcode = WRITE_6 \<or> opcode = WRITE_10 \<or> opcode = WRITE_12 \<or> opcode = WRITE_16
         then nvme_trans_io env True cmd s
         else if opcode = 0x12 then nvme_trans_inquiry env cmd s
         else if opcode = 0x4d then nvme_trans_log_sense env cmd s
         else if opcode = MODE_SELECT \<or> opcode = 0x55 then nvme_trans_mode_select env cmd s
         else if opcode = MODE_SENSE \<or> opcode = 0x5a then nvme_trans_mode_sense env cmd s
         else if opcode = 0x25 then nvme_trans_read_capacity env cmd s
         else if opcode = 0x9e then (if is_read_cap_16 cmd then nvme_trans_read_capacity env cmd s else illegal)
         else if opcode = 0xa0 then nvme_trans_report_luns env cmd s
         else if opcode = 0x03 then nvme_trans_request_sense env cmd s
         else if opcode = 0xa2 \<or> opcode = 0xb5 then Some (nvme_trans_security_protocol s)
         else if opcode = 0x1b then nvme_trans_start_stop env cmd s
         else if opcode = 0x35 then nvme_trans_synchronize_cache env s
         else if opcode = 0x04 then nvme_trans_format_unit env cmd s
         else if opcode = 0x00 then Some (nvme_trans_test_unit_ready env s)
         else if opcode = 0x3b then nvme_trans_write_buffer env cmd s
         else if opcode = 0x42 then nvme_trans_unmap env cmd s
         else illegal)"

text \<open>The part of \<open>cmd[]\<close> behind \<open>cmd_len\<close> is what the stack held.\<close>

definition nvme_scsi_translate :: "scsi_env \<Rightarrow> scsi \<Rightarrow> (int \<times> scsi) option" where
  "nvme_scsi_translate env s =
     (let hdr = s_hdr s; cmd_len = unat (h_cmd_len hdr)
      in if h_cmdp hdr = 0 then Some (- EMSGSIZE, s)
         else case copy_from_user (h_cmdp hdr) cmd_len (s_mem s) of
                (not_copied, bs) \<Rightarrow>
                  if not_copied \<noteq> 0 then Some (- EFAULT, s)
                  else let (retcode, s1) = nvme_trans_status_code 0 s
                       in if retcode \<noteq> 0 then Some (retcode, s1)
                          else scsi_dispatch env (bs @ map (e_stack env) [cmd_len..<BLK_MAX_CDB]) s1)"

definition nvme_sg_io :: "scsi_env \<Rightarrow> u32 \<Rightarrow> scsi \<Rightarrow> (int \<times> scsi) option" where
  "nvme_sg_io env u_hdr s =
     (if \<not> e_capable env then Some (- EACCES, s)
      else case copy_from_user u_hdr SIZEOF_SG_IO_HDR (s_mem s) of
             (not_copied, bs) \<Rightarrow>
               let hdr = decode_hdr bs; s1 = s\<lparr>s_hdr := hdr\<rparr>
               in if not_copied \<noteq> 0 then Some (- EFAULT, s1)
                  else if h_interface_id hdr \<noteq> 0x53 then Some (- EINVAL, s1)
                  else if unat (h_cmd_len hdr) > BLK_MAX_CDB then Some (- EINVAL, s1)
                  else do {
                    (retcode, s2) \<leftarrow> nvme_scsi_translate env s1;
                    if retcode < 0 then Some (retcode, s2)
                    else let (not_copied2, mem) = copy_to_user u_hdr (encode_hdr (s_hdr s2)) (s_mem s2);
                             s3 = s2\<lparr>s_mem := mem\<rparr>
                         in Some (if not_copied2 > 0 then - EFAULT else 0, s3) })"

text \<open>put_user stores the four bytes or faults.\<close>

definition nvme_sg_get_version_num :: "u32 \<Rightarrow> user_mem \<Rightarrow> int \<times> user_mem" where
  "nvme_sg_get_version_num ip m =
     (case copy_to_user ip (le_bytes 4 (30534 :: u32)) m of
        (not_copied, m') \<Rightarrow> if not_copied \<noteq> 0 then (- EFAULT, m) else (0, m'))"

section \<open>Every command keeps the contract\<close>

lemma bufs_read_capacity: "nvme_trans_read_capacity env cmd s = Some (res, s') \<Longrightarrow> bufs s' = bufs s"
  unfolding nvme_trans_read_capacity_def Let_def
  by (erule bufs_with_dma [rotated])
    (auto split: bufs_splits dest!: bufs_frame bufs_with_kmem [where env = env, rotated 2])

lemma bufs_report_luns: "nvme_trans_report_luns env cmd s = Some (res, s') \<Longrightarrow> bufs s' = bufs s"
  unfolding nvme_trans_report_luns_def Let_def
  by (auto split: bufs_splits dest!: bufs_frame bufs_with_kmem [where env = env, rotated 2]
      elim!: bufs_with_dma [rotated])

lemma bufs_request_sense: "nvme_trans_request_sense env cmd s = Some (res, s') \<Longrightarrow> bufs s' = bufs s"
  unfolding nvme_trans_request_sense_def Let_def
  by (erule bufs_with_kmem [rotated 2, where env = env], simp) (auto split: bufs_splits dest!: bufs_frame)

lemma bufs_power_state [bufs_frame]:
  "nvme_trans_power_state env pc pcmod start s = Some (res, s') \<Longrightarrow> bufs s' = bufs s"
  unfolding nvme_trans_power_state_def Let_def
  by (erule bufs_with_dma [rotated]) (auto split: bufs_splits dest!: bufs_frame)

lemma bufs_start_stop: "nvme_trans_start_stop env cmd s = Some (res, s') \<Longrightarrow> bufs s' = bufs s"
  by (auto simp: nvme_trans_start_stop_def Let_def split: bufs_splits dest!: bufs_frame)

lemma bufs_sync_cache: "nvme_trans_synchronize_cache env s = Some (res, s') \<Longrightarrow> bufs s' = bufs s"
  by (auto simp: nvme_trans_synchronize_cache_def dest!: bufs_frame)

lemma bufs_send_fw [bufs_frame]:
  "nvme_trans_send_fw_cmd env op n off b s = Some (res, s') \<Longrightarrow> bufs s' = bufs s"
  by (auto simp: nvme_trans_send_fw_cmd_def Let_def split: bufs_splits sum.splits dest!: bufs_frame)

lemma bufs_write_buffer: "nvme_trans_write_buffer env cmd s = Some (res, s') \<Longrightarrow> bufs s' = bufs s"
  by (auto simp: nvme_trans_write_buffer_def Let_def split: bufs_splits dest!: bufs_frame)

lemma bufs_fmt_blk_size [bufs_frame]:
  "nvme_trans_fmt_set_blk_size_count env s = Some (res, s') \<Longrightarrow> bufs s' = bufs s"
  by (auto simp: nvme_trans_fmt_set_blk_size_count_def Let_def split: bufs_splits dest!: bufs_frame
      elim!: bufs_with_dma [rotated])

lemma bufs_fmt_parm_check: "fmt_parm_check n p pl s = Some (res, c, s') \<Longrightarrow> bufs s' = bufs s"
  by (auto simp: fmt_parm_check_def Let_def split: bufs_splits dest!: bufs_frame)

lemma bufs_fmt_header [bufs_frame]:
  "nvme_trans_fmt_get_parm_header env n p s = Some (res, c, s') \<Longrightarrow> bufs s' = bufs s"
  by (auto simp: nvme_trans_fmt_get_parm_header_def kmalloc_def kfree_def bufs_def split: bufs_splits
      dest!: bufs_fmt_parm_check [unfolded bufs_def] del: equalityI)

lemma bufs_fmt_send [bufs_frame]: "nvme_trans_fmt_send_cmd env p s = Some (res, s') \<Longrightarrow> bufs s' = bufs s"
  unfolding nvme_trans_fmt_send_cmd_def Let_def invalid_parameter_def
  by (erule bufs_with_dma [rotated]) (auto split: bufs_splits dest!: bufs_frame)

lemma bufs_format_unit: "nvme_trans_format_unit env cmd s = Some (res, s') \<Longrightarrow> bufs s' = bufs s"
  by (auto simp: nvme_trans_format_unit_def Let_def split: bufs_splits dest!: bufs_frame)

lemma bufs_unmap: "nvme_trans_unmap env cmd s = Some (res, s') \<Longrightarrow> bufs s' = bufs s"
proof -
  have body: "bufs (dma_free_coherent n d s4) = bufs s"
    if "dma_alloc_coherent env n s = Some (d, s1)" "bufs s4 = bufs s1" for n d s s1 s4
    using that by (auto simp: dma_alloc_coherent_def dma_free_coherent_def bufs_def)
  show "nvme_trans_unmap env cmd s = Some (res, s') \<Longrightarrow> bufs s' = bufs s"
    unfolding nvme_trans_unmap_def Let_def
    by (auto split: bufs_splits dest!: bufs_frame elim!: bufs_with_kmem [rotated 2, where env = env] intro!: body)
qed

lemmas bufs_commands = bufs_trans_io bufs_inquiry bufs_log_sense bufs_mode_select bufs_mode_sense
  bufs_read_capacity bufs_report_luns bufs_request_sense bufs_start_stop bufs_sync_cache bufs_format_unit
  bufs_write_buffer bufs_unmap

lemma bufs_dispatch: "scsi_dispatch env cmd s = Some (res, s') \<Longrightarrow> bufs s' = bufs s"
  by (auto simp: scsi_dispatch_def nvme_trans_security_protocol_def nvme_trans_test_unit_ready_def Let_def
      split: if_splits dest: bufs_commands dest!: bufs_frame)

interpretation translate: scsi_command "nvme_scsi_translate env" for env
proof
  show "nvme_scsi_translate env s = Some (res, s') \<Longrightarrow> bufs s' = bufs s" for s res s'
    by (auto simp: nvme_scsi_translate_def Let_def split: prod.splits if_splits
        dest!: bufs_frame bufs_dispatch)
qed

section \<open>The header\<close>

lemma length_encode_hdr [simp]: "length (encode_hdr h) = 64"
  by (simp add: encode_hdr_def)

lemma of_le_bytes_1: "of_le_bytes [b] = (b :: u8)"
  by simp

lemma of_le_bytes_u16: "of_le_bytes (le_bytes 2 w) = (w :: u16)"
  by (simp add: of_le_bytes_full)

lemma of_le_bytes_u32: "of_le_bytes (le_bytes 4 w) = (w :: u32)"
  by (simp add: of_le_bytes_full)

lemma decode_encode_hdr: "decode_hdr (encode_hdr h) = h"
  by (cases h)
    (simp add: decode_hdr_def encode_hdr_def le_at_def of_le_bytes_u16 of_le_bytes_u32 take_Cons' drop_Cons')



section \<open>Examples\<close>

definition sample_tur_hdr :: sg_io_hdr where
  "sample_tur_hdr = sample_hdr\<lparr>h_cmd_len := 1\<rparr>"

definition sample_tur :: scsi where
  "sample_tur = sample_scsi\<lparr>s_mem := snd (copy_to_user 0x1000 (encode_hdr sample_tur_hdr) (s_mem sample_scsi))\<rparr>"

lemma sample_tur_mem: "copy_from_user 0x1000 64 (s_mem sample_tur) = (0, encode_hdr sample_tur_hdr)"
proof -
  let ?c = "copy_to_user 0x1000 (encode_hdr sample_tur_hdr) (s_mem sample_scsi)"
  have "fst ?c = 0" by (rule copy_to_user_mapped) (simp add: mapped_def sample_scsi_def)
  then have "?c = (0, s_mem sample_tur)" by (simp add: sample_tur_def prod_eq_iff)
  then show ?thesis using copy_roundtrip by fastforce
qed

lemma sample_tur_cdb: "s_mem sample_tur 0x100 = Some 0"
proof -
  have "(0x100 :: u32) \<noteq> 0x1000 + of_nat i" if "i < 64" for i :: nat
  proof -
    have "unat ((0x1000 :: u32) + of_nat i) = 0x1000 + i"
      using that by (simp add: unat_word_ariths unat_of_nat take_bit_nat_eq_self)
    moreover have "unat (0x100 :: u32) = 0x100" by simp
    ultimately show ?thesis by (intro notI) simp
  qed
  then have "snd (copy_to_user 0x1000 (encode_hdr sample_tur_hdr) (s_mem sample_scsi)) 0x100 = s_mem sample_scsi 0x100"
    by (intro copy_to_user_frame [OF prod.collapse [symmetric]]) simp
  then show ?thesis by (simp add: sample_tur_def sample_scsi_def)
qed

lemma sample_tur_translate:
  "\<exists>s1. nvme_scsi_translate sample_scsi_env (sample_tur\<lparr>s_hdr := sample_tur_hdr\<rparr>) = Some (0, s1)
    \<and> h_status (s_hdr s1) = SAM_STAT_GOOD"
  using sample_tur_cdb
  by (simp add: nvme_scsi_translate_def sample_tur_hdr_def sample_hdr_def nvme_trans_status_code_def
      sense_of_status_def nvme_trans_completion_def scsi_status_is_good_def scsi_dispatch_def
      nvme_trans_test_unit_ready_def sample_scsi_env_def)



end
