(* ===== verification/Scsi_Safety.thy ===== *)
theory Scsi_Safety
  imports Scsi_Translate
begin

text \<open>
  Where the replies of the SCSI translation (src/nvme-scsi.c) stay inside their buffers and where they do
  not: the INQUIRY pages, the list of REPORT LUNS, the parameter list of FORMAT UNIT that is
  refused and used all the same, and the loops of MODE SELECT over its pages.
\<close>

section \<open>Writes inside a buffer\<close>

lemma poke_some: "k + length bs \<le> length buf \<Longrightarrow> \<exists>buf'. poke k bs buf = Some buf' \<and> length buf' = length buf"
  by (simp add: poke_def)

lemma pokes_some:
  "list_all (\<lambda>(k, bs). k + length bs \<le> length buf) ws
    \<Longrightarrow> \<exists>buf'. pokes ws buf = Some buf' \<and> length buf' = length buf"
proof (induction ws arbitrary: buf)
  case (Cons w ws)
  obtain k bs where w: "w = (k, bs)" by (cases w)
  then obtain b where b: "poke k bs buf = Some b" "length b = length buf"
    using Cons(2) poke_some [of k bs buf] by auto
  have "list_all (\<lambda>(k, bs). k + length bs \<le> length b) ws" using Cons(2) b(2) by simp
  then show ?case using Cons(1) [of b] b w by simp
qed simp

lemma pokes_length: "pokes ws buf = Some buf' \<Longrightarrow> length buf' = length buf"
proof (induction ws arbitrary: buf)
  case (Cons w ws)
  obtain k bs where w: "w = (k, bs)" by (cases w)
  then obtain b where b: "poke k bs buf = Some b" "pokes ws b = Some buf'"
    using Cons(2) by (auto split: Option.bind_splits)
  then have "length b = length buf" by (auto simp: poke_def split: if_splits)
  then show ?case using Cons(1) [OF b(2)] by simp
qed simp

lemma pokes_none: "k + length bs > length buf \<Longrightarrow> (k, bs) \<in> set ws \<Longrightarrow> pokes ws buf = None"
proof (induction ws buf rule: pokes.induct)
  case (2 k' bs' ws buf)
  then show ?case by (cases "poke k' bs' buf") (auto simp: poke_def split: if_splits)
qed simp

lemma reply_some: "nat n \<le> length buf \<Longrightarrow> reply n buf s \<noteq> None"
  by (simp add: reply_def buf_take_def)

lemma pokes_reply:
  "list_all (\<lambda>(k, bs). k + length bs \<le> length buf) ws \<Longrightarrow> nat n \<le> length buf
    \<Longrightarrow> (do { resp \<leftarrow> pokes ws buf; reply n resp s }) \<noteq> None"
  using pokes_some [of buf ws] reply_some [of n] by force

lemma with_dma_some: "(\<And>d s. body d s \<noteq> None) \<Longrightarrow> with_dma env n body s \<noteq> None"
proof (cases "dma_alloc_coherent env n s")
  case (Some r)
  moreover assume "\<And>d s. body d s \<noteq> None"
  then obtain x where "body (fst r) (snd r) = Some x" by fastforce
  ultimately show ?thesis by (cases r, cases x) (simp add: with_dma_def)
qed (simp add: with_dma_def)

lemma with_kmem_some:
  assumes "\<And>buf s. length buf = n \<Longrightarrow> body buf s \<noteq> None" "alloc = kmalloc env \<or> alloc = kzalloc env"
  shows "with_kmem alloc n body s \<noteq> None"
proof (cases "alloc n s")
  case (Some r)
  then obtain buf s1 where r: "alloc n s = Some (buf, s1)" by (cases r) simp
  then have "length buf = n"
    using assms(2) by (auto simp: kmalloc_def kzalloc_def split: if_splits)
  then show ?thesis using assms(1) [of buf s1] r by (auto simp: with_kmem_def)
qed (simp add: with_kmem_def)

lemma translated_some: "(\<And>dev. f dev \<noteq> None) \<Longrightarrow> translated f s \<noteq> None"
  by (auto simp: translated_def on_dev_def Let_def split: prod.splits Option.bind_splits)

lemma length_strncpy [simp]: "length (strncpy_bytes n src) = n"
  by (simp add: strncpy_bytes_def)

lemma length_hex_digits: "n < 16 ^ k \<Longrightarrow> 0 < k \<Longrightarrow> length (hex_digits n) \<le> k"
proof (induction n arbitrary: k rule: hex_digits.induct)
  case (1 n)
  show ?case
  proof (cases "n < 16")
    case False
    then obtain k' where k: "k = Suc k'" "0 < k'" using 1(2,3) by (cases k; cases "k - 1") auto
    have "n div 16 < 16 ^ k'" using 1(2) k by (simp add: less_mult_imp_div_less mult.commute)
    then show ?thesis using 1(1) [OF False] k False by (subst hex_digits.simps) simp
  qed (use 1(3) in \<open>subst hex_digits.simps, simp\<close>)
qed

lemma length_sprintf: "length (sprintf_04x w) \<le> 9"
proof -
  have "unat w < 16 ^ 8" by (rule order_less_le_trans [OF unsigned_less]) simp
  then have "length (hex_digits (unat w)) \<le> 8" by (intro length_hex_digits) simp_all
  then show ?thesis by (simp add: sprintf_04x_def Let_def)
qed

section \<open>INQUIRY\<close>

text \<open>What the device holds, and that Identify commands return.\<close>

definition inquiry_ready :: "scsi_env \<Rightarrow> bool" where
  "inquiry_ready env \<longleftrightarrow> length (e_serial env) = 20 \<and> length (e_model env) = 40 \<and> length (e_firmware_rev env) = 8
     \<and> (\<forall>s. length (id_eui64 (e_id_ns env s)) = 8 \<and> length (id_nguid (e_id_ns env s)) = 16)
     \<and> 9 \<le> ns_lba_shift (e_ns env)
     \<and> (\<forall>nsid cns d dev. nvme_identify (e_admin env) nsid cns d dev \<noteq> None)"

lemma identify_then:
  assumes "inquiry_ready env" "\<And>s1. k s1 \<noteq> None"
  shows "(do { (res, s1) \<leftarrow> identify_ns env d s; if res \<noteq> 0 then Some (res, s1) else k s1 }) \<noteq> None"
    "(do { (res, s1) \<leftarrow> identify_ctrl env d s; if res \<noteq> 0 then Some (res, s1) else k s1 }) \<noteq> None"
proof -
  have "identify_ns env d s \<noteq> None" "identify_ctrl env d s \<noteq> None"
    using assms(1) by (simp_all only: identify_ns_def identify_ctrl_def inquiry_ready_def translated_some simp_thms)
  then show "(do { (res, s1) \<leftarrow> identify_ns env d s; if res \<noteq> 0 then Some (res, s1) else k s1 }) \<noteq> None"
    "(do { (res, s1) \<leftarrow> identify_ctrl env d s; if res \<noteq> 0 then Some (res, s1) else k s1 }) \<noteq> None"
    using assms(2) by auto
qed

lemma pages_some:
  assumes "inquiry_ready env" "36 \<le> length buf" "nat n \<le> length buf"
  shows "nvme_trans_supported_vpd_pages env buf n s \<noteq> None"
    "nvme_trans_unit_serial_page env buf n s \<noteq> None"
    "nvme_trans_standard_inquiry_page env buf n s \<noteq> None"
proof -
  show "nvme_trans_supported_vpd_pages env buf n s \<noteq> None"
    unfolding nvme_trans_supported_vpd_pages_def using assms(2,3) by (intro pokes_reply) simp_all
  show "nvme_trans_unit_serial_page env buf n s \<noteq> None"
    unfolding nvme_trans_unit_serial_page_def using assms(2,3) by (intro pokes_reply) simp_all
  show "nvme_trans_standard_inquiry_page env buf n s \<noteq> None"
    unfolding nvme_trans_standard_inquiry_page_def Let_def
    using assms(2,3) by (intro with_dma_some identify_then [OF assms(1)] pokes_reply) simp_all
qed

lemma kmem_pages_some:
  assumes "inquiry_ready env"
  shows "nvme_trans_ext_inq_page env n s \<noteq> None" "nvme_trans_bdev_char_page env n s \<noteq> None"
proof -
  show "nvme_trans_ext_inq_page env n s \<noteq> None"
    unfolding nvme_trans_ext_inq_page_def Let_def
    by (intro with_kmem_some [where env = env] with_dma_some identify_then [OF assms] pokes_reply) simp_all
  show "nvme_trans_bdev_char_page env n s \<noteq> None"
    unfolding nvme_trans_bdev_char_page_def
    by (intro with_kmem_some [where env = env] pokes_reply) simp_all
qed

lemma limits_page:
  assumes "inquiry_ready env" "36 \<le> length buf"
  shows "nvme_trans_bdev_limits_page env buf n s \<noteq> None \<longleftrightarrow> 0x3c \<le> length buf"
proof -
  let ?ws = "[(0, replicate STANDARD_INQUIRY_LENGTH 0), (1, [0xb0]), (3, [0x3c]),
      (8, be_bytes 4 (drop_bit (nat (ns_lba_shift (e_ns env) - 9)) (e_max_hw_sectors env))),
      (20, be_bytes 4 (n_max_discard_sectors (e_disk env)))]
      @ (if n_max_discard_sectors (e_disk env) \<noteq> 0 then [(24, be_bytes 4 (0x100 :: u32))] else [])"
  have "list_all (\<lambda>(k, bs). k + length bs \<le> length buf) ?ws" using assms(2) by simp
  then obtain b where "pokes ?ws buf = Some b" "length b = length buf" using pokes_some by blast
  then show ?thesis
    using assms(1) unfolding nvme_trans_bdev_limits_page_def Let_def
    by (auto simp: inquiry_ready_def reply_def buf_take_def)
qed

lemma device_id_string_bounds:
  assumes "inquiry_ready env" "length resp = max (nat n) 36"
  shows "device_id_string env resp n s \<noteq> None \<longleftrightarrow> \<not> (72 \<le> n \<and> n < 76)"
proof -
  let ?ws = "[(3, [0x48]), (4, [0x03]), (5, [0x08]), (6, [0x00]), (7, [0x44]),
          (8, sprintf_04x (ucast (e_vendor env))), (12, e_model env),
          (52, sprintf_04x (of_le_bytes (be_bytes 4 (ns_id (e_ns env))))), (56, e_serial env)]"
  have len: "length (e_serial env) = 20" "length (e_model env) = 40" using assms(1) by (simp_all add: inquiry_ready_def)
  show ?thesis
  proof (cases "72 \<le> n")
    case True
    show ?thesis
    proof (cases "n < 76")
      case short: True
      have "pokes ?ws resp = None"
        using assms(2) True short len by (intro pokes_none [of _ 56 "e_serial env"]) simp_all
      then show ?thesis using True short by (simp add: device_id_string_def)
    next
      case False
      then have "76 \<le> nat n" "length resp = nat n" using assms(2) by simp_all
      then have "(do { resp' \<leftarrow> pokes ?ws resp; reply n resp' s }) \<noteq> None"
        using len length_sprintf [of "ucast (e_vendor env)"]
          length_sprintf [of "of_le_bytes (be_bytes 4 (ns_id (e_ns env)))"]
        by (intro pokes_reply) simp_all
      then show ?thesis using True False by (simp add: device_id_string_def)
    qed
  qed (simp add: device_id_string_def)
qed

lemma length_eui:
  assumes "inquiry_ready env"
  shows "length (eui_designator vs (e_id_ns env s)) \<le> 16"
  using assms by (simp add: eui_designator_def inquiry_ready_def Let_def)

lemma device_id_page_some:
  assumes "inquiry_ready env" "length buf = max (nat n) 36" "\<not> (72 \<le> n \<and> n < 76)"
  shows "nvme_trans_device_id_page env buf n s \<noteq> None"
proof -
  have "list_all (\<lambda>(k, bs). k + length bs \<le> length buf) [(0, replicate (nat n) (0 :: u8)), (1, [0x83])]"
    using assms(2) by (simp add: max_def)
  then obtain resp where resp: "pokes [(0, replicate (nat n) 0), (1, [0x83])] buf = Some resp" "length resp = length buf"
    using pokes_some by blast
  have size: "36 \<le> length resp" "nat n \<le> length resp" using assms(2) resp(2) by simp_all
  have str: "device_id_string env resp n s \<noteq> None" for s
    using device_id_string_bounds [OF assms(1)] assms(2,3) resp(2) by simp
  have eui: "(do { resp' \<leftarrow> pokes [(3, [of_nat (4 + length e)]), (4, [0x01]), (5, [0x02]), (6, [0x00]),
      (7, [of_nat (length e)]), (8, e)] resp; reply n resp' s }) \<noteq> None" if "length e \<le> 16" for e s
    using that size by (intro pokes_reply) simp_all
  show ?thesis
    unfolding nvme_trans_device_id_page_def Let_def resp(1) Option.bind.bind_lunit
  proof (rule with_dma_some)
    fix d s
    show "(if e_vs env < 0x10100 then device_id_string env resp n s
      else do { (res, s1) \<leftarrow> identify_ns env d s;
        if res \<noteq> 0 then Some (res, s1)
        else if eui_designator (e_vs env) (e_id_ns env s1) = [] then device_id_string env resp n s1
        else do { resp' \<leftarrow> pokes [(3, [of_nat (4 + length (eui_designator (e_vs env) (e_id_ns env s1)))]),
              (4, [0x01]), (5, [0x02]), (6, [0x00]), (7, [of_nat (length (eui_designator (e_vs env) (e_id_ns env s1)))]),
              (8, eui_designator (e_vs env) (e_id_ns env s1))] resp;
            reply n resp' s1 } }) \<noteq> None"
      using str eui [OF length_eui [OF assms(1)]] identify_then(1) [OF assms(1)] by (simp split: if_split)
  qed
qed

lemma device_id_page_none:
  assumes "inquiry_ready env" "length buf = max (nat n) 36" "72 \<le> n" "n < 76" "e_vs env < 0x10100"
    "\<And>s. e_dma_alloc env s \<noteq> None"
  shows "nvme_trans_device_id_page env buf n s = None"
proof -
  obtain d where "e_dma_alloc env s = Some d" using assms(6) by blast
  moreover have "device_id_string env resp n s1 = None" if "length resp = length buf" for resp s1
    using device_id_string_bounds [OF assms(1), of resp n s1] assms(2-4) that by (simp del: not_None_eq)
  ultimately show ?thesis
    using assms(5) pokes_length by (auto simp: nvme_trans_device_id_page_def with_dma_def dma_alloc_coherent_def
        simp del: pokes.simps split: Option.bind_splits)
qed

text \<open>
  C30: INQUIRY and its response buffer. With the strings of the device at their sizes, INQUIRY reads and writes
  inside the buffer for every page and allocation length, with two exceptions, and there it
  does not: the block limits page copies 60 bytes although the buffer can have 36, and the device
  identification page writes 76 bytes although it only requires 72.
\<close>

theorem nvme_trans_inquiry_bounds:
  assumes "inquiry_ready env" "n = uint (get_u16 cmd 3)" "page = get_u8 cmd 2" "vpd \<longleftrightarrow> get_u8 cmd 1 AND 1 \<noteq> 0"
    "limits \<longleftrightarrow> vpd \<and> page = 0xb0 \<and> n < 60" "device_id \<longleftrightarrow> vpd \<and> page = 0x83 \<and> 72 \<le> n \<and> n < 76"
  shows "(\<not> limits \<and> \<not> device_id \<longrightarrow> nvme_trans_inquiry env cmd s \<noteq> None)
    \<and> (e_kmalloc env s \<and> limits \<longrightarrow> nvme_trans_inquiry env cmd s = None)
    \<and> (e_kmalloc env s \<and> (\<forall>s. e_dma_alloc env s \<noteq> None) \<and> e_vs env < 0x10100 \<and> device_id
          \<longrightarrow> nvme_trans_inquiry env cmd s = None)"
proof (intro conjI impI)
  assume ok: "\<not> limits \<and> \<not> device_id"
  show "nvme_trans_inquiry env cmd s \<noteq> None"
    unfolding nvme_trans_inquiry_def Let_def assms(2-4) [symmetric]
  proof (rule with_kmem_some [where env = env])
    fix buf :: "u8 list" and s
    assume len: "length buf = max (nat n) 36"
    then have size: "36 \<le> length buf" "nat n \<le> length buf" by simp_all
    have "nvme_trans_device_id_page env buf n s \<noteq> None" if "vpd" "page = 0x83"
      using device_id_page_some [OF assms(1) len] ok assms(6) that by simp
    moreover have "nvme_trans_bdev_limits_page env buf n s \<noteq> None" if "vpd" "page = 0xb0"
    proof -
      have "\<not> n < 60" using ok assms(5) that by simp
      then have "60 \<le> nat n" by linarith
      then show ?thesis using limits_page [OF assms(1) size(1)] size(2) by simp
    qed
    ultimately show "(if vpd then vpd_page env page buf n s
        else if page = 0 then nvme_trans_standard_inquiry_page env buf n s else Some (invalid_cdb s)) \<noteq> None"
      using pages_some [OF assms(1) size] kmem_pages_some [OF assms(1)] by (simp add: vpd_page_def)
  qed simp
next
  assume "e_kmalloc env s \<and> limits"
  then have *: "e_kmalloc env s" "vpd" "page = 0xb0" "n < 60" using assms(5) by simp_all
  let ?buf = "map (e_kmem env) [0..<max (nat n) 36]"
  have "nat n < 60" using *(4) by linarith
  then have "\<not> 60 \<le> max (nat n) 36" by simp
  then have "nvme_trans_bdev_limits_page env ?buf n s1 = None" for s1
    using limits_page [OF assms(1), of ?buf n s1] by (simp del: not_None_eq)
  then show "nvme_trans_inquiry env cmd s = None"
    unfolding nvme_trans_inquiry_def Let_def assms(2-4) [symmetric] with_kmem_def kmalloc_def
    using * by (simp add: vpd_page_def)
next
  assume "e_kmalloc env s \<and> (\<forall>s. e_dma_alloc env s \<noteq> None) \<and> e_vs env < 0x10100 \<and> device_id"
  then have *: "e_kmalloc env s" "\<And>s. e_dma_alloc env s \<noteq> None" "e_vs env < 0x10100" "vpd" "page = 0x83"
      "72 \<le> n" "n < 76" using assms(6) by simp_all
  let ?buf = "map (e_kmem env) [0..<max (nat n) 36]"
  have "nvme_trans_device_id_page env ?buf n s1 = None" for s1
    using device_id_page_none [OF assms(1) _ *(6,7,3,2)] by simp
  then show "nvme_trans_inquiry env cmd s = None"
    unfolding nvme_trans_inquiry_def Let_def assms(2-4) [symmetric] with_kmem_def kmalloc_def
    using * by (simp add: vpd_page_def)
qed

text \<open>An environment in which every Identify command fails with an errno.\<close>

definition failing_scsi_env :: scsi_env where
  "failing_scsi_env = sample_scsi_env\<lparr>e_admin := (sample_env (sample_cqe 2 0))\<lparr>t_alloc := (\<lambda>_. Inl (- 12))\<rparr>\<rparr>"

lemma failing_scsi_env_ready: "inquiry_ready failing_scsi_env"
  by (simp add: inquiry_ready_def failing_scsi_env_def sample_scsi_env_def sample_scsi_id_ns_def sample_disk_def
      nvme_identify_def status_only_def nvme_submit_admin_cmd_def submit_admin_cmd_timeout_def)

theorem nvme_trans_inquiry_bounds_witness:
  "nvme_trans_inquiry failing_scsi_env [0x12, 1, 0x83, 0, 0xff, 0] sample_scsi \<noteq> None
    \<and> nvme_trans_inquiry failing_scsi_env [0x12, 1, 0xb0, 0, 0x24, 0] sample_scsi = None
    \<and> nvme_trans_inquiry failing_scsi_env [0x12, 1, 0x83, 0, 0x48, 0] sample_scsi = None"
proof (intro conjI)
  have env: "e_kmalloc failing_scsi_env sample_scsi" "e_dma_alloc failing_scsi_env = (\<lambda>_. Some 0x5000)"
      "e_vs failing_scsi_env = 0x10000"
    by (simp_all add: failing_scsi_env_def sample_scsi_env_def)
  note bounds = nvme_trans_inquiry_bounds [OF failing_scsi_env_ready]
  show "nvme_trans_inquiry failing_scsi_env [0x12, 1, 0x83, 0, 0xff, 0] sample_scsi \<noteq> None"
    using bounds [of 255 "[0x12, 1, 0x83, 0, 0xff, 0]" "0x83" True False False sample_scsi]
    by (simp add: get_u16_def get_u8_def)
  show "nvme_trans_inquiry failing_scsi_env [0x12, 1, 0xb0, 0, 0x24, 0] sample_scsi = None"
    using bounds [of 36 "[0x12, 1, 0xb0, 0, 0x24, 0]" "0xb0" True True False sample_scsi] env
    by (simp add: get_u16_def get_u8_def)
  show "nvme_trans_inquiry failing_scsi_env [0x12, 1, 0x83, 0, 0x48, 0] sample_scsi = None"
    using bounds [of 72 "[0x12, 1, 0x83, 0, 0x48, 0]" "0x83" True False True sample_scsi] env
    by (simp add: get_u16_def get_u8_def)
qed

section \<open>REPORT LUNS\<close>

lemma poke_middle:
  "length pre = k \<Longrightarrow> length bs = length old \<Longrightarrow> poke k bs (pre @ old @ post) = Some (pre @ bs @ post)"
  by (simp add: poke_def)

lemma fill_luns_low:
  "a + n \<le> 31 \<Longrightarrow> length pre = 8 * a + 8
    \<Longrightarrow> fill_luns [a..<a + n] (of_nat (8 * a + 8)) (pre @ replicate (8 * n) 0)
      = Some (pre @ concat (map (\<lambda>l. be_bytes 8 (of_nat l :: u64)) [a..<a + n]))"
proof (induction n arbitrary: a pre)
  case (Suc n)
  have off: "unat (of_nat (8 * a + 8) :: u8) = 8 * a + 8"
    using Suc(2) by (simp add: unat_of_nat take_bit_nat_eq_self del: of_nat_add of_nat_mult)
  have "replicate (8 * Suc n) (0 :: u8) = replicate 8 0 @ replicate (8 * n) 0"
    by (simp add: replicate_add [symmetric])
  then have "poke (8 * a + 8) (be_bytes 8 (of_nat a :: u64)) (pre @ replicate (8 * Suc n) 0)
      = Some ((pre @ be_bytes 8 (of_nat a :: u64)) @ replicate (8 * n) 0)"
    using poke_middle [OF Suc(3), of "be_bytes 8 (of_nat a :: u64)" "replicate 8 0"] by simp
  moreover have "of_nat (8 * a + 8) + 8 = (of_nat (8 * Suc a + 8) :: u8)" by simp
  moreover have "[a..<a + Suc n] = a # [Suc a..<Suc a + n]" by (simp add: upt_conv_Cons del: upt_Suc)
  ultimately show ?case
    using Suc(1) [of "Suc a" "pre @ be_bytes 8 (of_nat a :: u64)"] Suc(2,3) off
    by (simp del: upt_Suc replicate_Suc of_nat_add of_nat_mult of_nat_Suc)
qed simp

lemma fill_luns_high:
  "8 dvd unat off \<Longrightarrow> 256 \<le> length buf
    \<Longrightarrow> \<exists>buf'. fill_luns ls off buf = Some buf' \<and> length buf' = length buf \<and> drop 256 buf' = drop 256 buf"
proof (induction ls off buf rule: fill_luns.induct)
  case (2 l ls off buf)
  have "unat off < 256" by (rule order_less_le_trans [OF unsigned_less]) simp
  with 2(2) have off: "unat off + 8 \<le> 256" by (auto elim!: dvdE)
  then obtain b where b: "poke (unat off) (be_bytes 8 (of_nat l :: u64)) buf = Some b"
      "length b = length buf" "drop 256 b = drop 256 buf"
    using 2(3) by (simp add: poke_def)
  have "8 dvd unat (off + 8)" using 2(2) by (simp add: unat_word_ariths dvd_mod)
  then show ?case using 2(1) [OF b(1)] b 2(3) by simp
qed simp

text \<open>
  C38: the reply of REPORT LUNS is right for up to 31 namespaces only. Then the loop writes the LUNs
  0, 1, ... as numbers of 8 bytes behind the header of 8 bytes. With more the 8-bit offset
  wraps around: it still stays inside the buffer, but from the 32nd LUN on every entry of the reply is left zero.
\<close>

theorem report_luns_31:
  "(n \<le> 31 \<longrightarrow> fill_luns [0..<n] 8 (replicate (8 * n + 8) 0)
      = Some (replicate 8 0 @ concat (map (\<lambda>l. be_bytes 8 (of_nat l :: u64)) [0..<n])))
   \<and> (31 < n \<longrightarrow> (\<exists>buf. fill_luns [0..<n] 8 (replicate (8 * n + 8) 0) = Some buf
        \<and> length buf = 8 * n + 8 \<and> drop 256 buf = replicate (8 * n - 248) 0))"
proof (intro conjI impI)
  assume n: "n \<le> 31"
  have "replicate (8 * n + 8) (0 :: u8) = replicate 8 0 @ replicate (8 * n) 0"
    by (simp add: replicate_add [symmetric] add.commute)
  then show "fill_luns [0..<n] 8 (replicate (8 * n + 8) 0)
      = Some (replicate 8 0 @ concat (map (\<lambda>l. be_bytes 8 (of_nat l :: u64)) [0..<n]))"
    using fill_luns_low [of 0 n "replicate 8 0"] n by simp
next
  assume "31 < n"
  then show "\<exists>buf. fill_luns [0..<n] 8 (replicate (8 * n + 8) 0) = Some buf
        \<and> length buf = 8 * n + 8 \<and> drop 256 buf = replicate (8 * n - 248) 0"
    using fill_luns_high [of 8 "replicate (8 * n + 8) 0" "[0..<n]"] by simp
qed

theorem report_luns_31_witness:
  "fill_luns [0..<2] 8 (replicate 24 0)
      = Some (replicate 8 0 @ concat (map (\<lambda>l. be_bytes 8 (of_nat l :: u64)) [0..<2]))
   \<and> (\<exists>buf. fill_luns [0..<40] 8 (replicate 328 0) = Some buf \<and> drop 256 buf = replicate 72 0)"
  using report_luns_31 [of 2] report_luns_31 [of 40] by auto

section \<open>FORMAT UNIT\<close>

lemma translated_good:
  assumes "translated f s = Some (0, s')"
  shows "h_status (s_hdr s') = SAM_STAT_GOOD"
proof -
  obtain sc s1 res where f: "nvme_trans_status_code sc s1 = (res, s')" "(if res \<noteq> 0 then res else sc) = 0"
    using assms by (auto simp: translated_def Let_def split: Option.bind_splits prod.splits)
  then have "sc = 0" by (simp split: if_splits)
  then show ?thesis
    using f(1) by (auto simp: nvme_trans_status_code_def sense_of_status_def nvme_trans_completion_def
        scsi_status_is_good_def)
qed

lemma fmt_send_good:
  assumes "nvme_trans_fmt_send_cmd env p s = Some (0, s')"
  shows "h_status (s_hdr s') = SAM_STAT_GOOD"
  using assms
  by (auto simp: nvme_trans_fmt_send_cmd_def with_dma_def dma_free_coherent_def Let_def
      split: option.splits Option.bind_splits if_splits dest!: translated_good)

lemma completion_status:
  "\<not> scsi_status_is_good status \<Longrightarrow> h_status (s_hdr (snd (nvme_trans_completion status key asc ascq s))) = status"
  by (simp add: nvme_trans_completion_def Let_def split: prod.splits)

lemma fmt_header_refused:
  assumes "e_kmalloc env s" "h_iovec_count (s_hdr s) = 0"
    "copy_from_user (h_dxferp (s_hdr s)) 4 (s_mem s) = (0, [b0, b1, b2, b3])" "b1 AND 2 \<noteq> 0"
    "mapped (s_mem s) (h_sbp (s_hdr s)) 8"
  shows "\<exists>s1. nvme_trans_fmt_get_parm_header env 4 p s = Some (0, 0, s1)
    \<and> h_status (s_hdr s1) = SAM_STAT_CHECK_CONDITION"
proof -
  define s0 where "s0 = s\<lparr>s_kmem := s_kmem s + 1, s_calls := s_calls s + 1\<rparr>"
  have s0: "s_mem s0 = s_mem s" "s_hdr s0 = s_hdr s" by (simp_all add: s0_def)
  have bad: "\<not> scsi_status_is_good SAM_STAT_CHECK_CONDITION" by (simp add: scsi_status_is_good_def)
  have "mapped (s_mem s0) (h_sbp (s_hdr s0)) 8" using assms(5) s0 by simp
  from nvme_trans_completion_bad [OF bad this] obtain s1 where s1: "invalid_cdb s0 = (0, s1)" by blast
  then have st: "h_status (s_hdr s1) = SAM_STAT_CHECK_CONDITION"
    using completion_status [OF bad] by (metis snd_conv)
  have alloc: "kmalloc env 4 s = Some (map (e_kmem env) [0..<4], s0)"
    using assms(1) by (simp add: kmalloc_def s0_def)
  have copy: "nvme_trans_copy_from_user 4 (map (e_kmem env) [0..<4]) s0 = Some (0, [b0, b1, b2, b3])"
    using assms(2,3) s0 by (simp add: nvme_trans_copy_from_user_def)
  have check: "fmt_parm_check 4 p [b0, b1, b2, b3] s0 = Some (0, 0, s1)"
    using s1 assms(4) by (simp add: fmt_parm_check_def peek_def Let_def)
  show ?thesis
    using st by (simp add: nvme_trans_fmt_get_parm_header_def alloc copy check kfree_def)
qed

text \<open>
  C37: FORMAT UNIT formats although it refuses its parameter list. A parameter list with the IMMED bit is
  answered with CHECK CONDITION, but \<open>nvme_trans_completion\<close> returns 0 when it could deliver the
  sense data, and the command goes on from there: it activates the firmware, determines the block size
  and sends the format command. If that succeeds the status of the header is GOOD.
\<close>

theorem format_unit_refused_formats:
  assumes "e_kmalloc env s" "h_iovec_count (s_hdr s) = 0"
    "copy_from_user (h_dxferp (s_hdr s)) 4 (s_mem s) = (0, [b0, b1, b2, b3])" "b1 AND 2 \<noteq> 0"
    "mapped (s_mem s) (h_sbp (s_hdr s)) 8"
    "cmd ! 1 AND 0x10 \<noteq> 0" "drop_bit 6 (cmd ! 1 AND 0xc0) \<noteq> 0" "cmd ! 1 AND 0x20 = 0"
  shows "\<exists>s1. h_status (s_hdr s1) = SAM_STAT_CHECK_CONDITION
    \<and> nvme_trans_format_unit env cmd s =
        do { (_, s2) \<leftarrow> nvme_trans_send_fw_cmd env nvme_admin_activate_fw 0 0 0 s1;
             (res, s3) \<leftarrow> nvme_trans_fmt_set_blk_size_count env s2;
             if res \<noteq> 0 then Some (res, s3) else nvme_trans_fmt_send_cmd env 0 s3 }
    \<and> (nvme_trans_format_unit env cmd s = Some (0, s') \<longrightarrow> h_status (s_hdr s') = SAM_STAT_GOOD)"
proof -
  obtain s1 where s1: "nvme_trans_fmt_get_parm_header env 4 (drop_bit 6 (cmd ! 1 AND 0xc0)) s = Some (0, 0, s1)"
      "h_status (s_hdr s1) = SAM_STAT_CHECK_CONDITION"
    using fmt_header_refused [OF assms(1-5)] by blast
  have eq: "nvme_trans_format_unit env cmd s =
        do { (_, s2) \<leftarrow> nvme_trans_send_fw_cmd env nvme_admin_activate_fw 0 0 0 s1;
             (res, s3) \<leftarrow> nvme_trans_fmt_set_blk_size_count env s2;
             if res \<noteq> 0 then Some (res, s3) else nvme_trans_fmt_send_cmd env 0 s3 }"
    unfolding nvme_trans_format_unit_def Let_def using s1(1) assms(6-8) by simp
  have "h_status (s_hdr s') = SAM_STAT_GOOD" if "nvme_trans_format_unit env cmd s = Some (0, s')"
    using that fmt_send_good [of env 0] unfolding eq by (auto split: Option.bind_splits if_splits)
  then show ?thesis using s1(2) eq by blast
qed

definition sample_format :: scsi where
  "sample_format = sample_scsi\<lparr>s_mem := (s_mem sample_scsi)(0x20001 \<mapsto> 2)\<rparr>"

theorem format_unit_refused_formats_witness:
  "\<exists>s1. h_status (s_hdr s1) = SAM_STAT_CHECK_CONDITION
    \<and> nvme_trans_format_unit sample_scsi_env [0x04, 0x50, 0, 0, 0, 0] sample_format =
        do { (_, s2) \<leftarrow> nvme_trans_send_fw_cmd sample_scsi_env nvme_admin_activate_fw 0 0 0 s1;
             (res, s3) \<leftarrow> nvme_trans_fmt_set_blk_size_count sample_scsi_env s2;
             if res \<noteq> 0 then Some (res, s3) else nvme_trans_fmt_send_cmd sample_scsi_env 0 s3 }"
proof -
  have mem: "copy_from_user (h_dxferp (s_hdr sample_format)) 4 (s_mem sample_format) = (0, [0, 2, 0, 0])"
    by (simp add: sample_format_def sample_scsi_def sample_hdr_def numeral_eq_Suc)
  have "e_kmalloc sample_scsi_env sample_format" "h_iovec_count (s_hdr sample_format) = 0"
      "mapped (s_mem sample_format) (h_sbp (s_hdr sample_format)) 8"
    by (simp_all add: sample_scsi_env_def sample_format_def sample_scsi_def sample_hdr_def mapped_def)
  then show ?thesis
    using format_unit_refused_formats [OF _ _ mem, of sample_scsi_env "[0x04, 0x50, 0, 0, 0, 0]"] by auto
qed

section \<open>MODE SELECT\<close>

text \<open>
  The reference: the pages of a parameter list applied one after the other. A page is its code, its
  length less 2, and its contents.
\<close>

definition mode_page :: "u8 list \<Rightarrow> bool" where
  "mode_page p \<longleftrightarrow> 2 \<le> length p \<and> length p = unat (p ! 1) + 2"

definition known_page :: "u8 list \<Rightarrow> bool" where
  "known_page p \<longleftrightarrow> p ! 0 AND 0x3f \<in> {0x08, 0x0a, 0x1a}"

fun run_pages :: "scsi_env \<Rightarrow> u8 list \<Rightarrow> nat \<Rightarrow> u8 list list \<Rightarrow> scsi \<Rightarrow> (int \<times> scsi) option" where
  "run_pages env parm_list i [] s = Some (0, s)"
| "run_pages env parm_list i (p # ps) s =
     do { (res, s1) \<leftarrow> nvme_trans_modesel_get_mp env parm_list i (p ! 0 AND 0x3f) s;
          if res \<noteq> 0 then Some (res, s1) else run_pages env parm_list (i + length p) ps s1 }"

lemma modesel_page:
  assumes "parm = pre @ p @ post" "mode_page p" "length parm \<le> 65535"
  shows "peek (unat (of_nat (length pre) :: u16)) parm = Some (p ! 0)"
    "peek (unat (of_nat (length pre) :: u16) + 1) parm = Some (p ! 1)"
    "of_nat (length pre) + (ucast (p ! 1) + 2) = (of_nat (length (pre @ p)) :: u16)"
    "(of_nat (length (pre @ p)) :: u16) < of_nat (length parm) \<longleftrightarrow> post \<noteq> []"
proof -
  have p: "2 \<le> length p" "length p = unat (p ! 1) + 2" using assms(2) by (auto simp: mode_page_def)
  obtain a b r where abr: "p = a # b # r" using p(1) by (cases p; cases "tl p") auto
  have u: "unat (of_nat n :: u16) = n" if "n \<le> 65535" for n
    using that by (simp add: unat_of_nat take_bit_nat_eq_self)
  have len: "length pre \<le> 65535" "length (pre @ p) \<le> 65535" using assms(1,3) by simp_all
  show "peek (unat (of_nat (length pre) :: u16)) parm = Some (p ! 0)"
    "peek (unat (of_nat (length pre) :: u16) + 1) parm = Some (p ! 1)"
    using u [OF len(1)] assms(1) abr by (simp_all add: peek_def nth_append)
  show "of_nat (length pre) + (ucast (p ! 1) + 2) = (of_nat (length (pre @ p)) :: u16)"
    by (simp add: p(2) of_nat_unat_ucast)
  show "(of_nat (length (pre @ p)) :: u16) < of_nat (length parm) \<longleftrightarrow> post \<noteq> []"
    unfolding word_less_nat_alt u [OF len(2)] u [OF assms(3)] using assms(1) by simp
qed

lemma modesel_check_pages:
  assumes "ps \<noteq> []" "list_all mode_page ps" "parm = pre @ concat ps" "length parm \<le> 65535" "length ps \<le> fuel"
  shows "modesel_check fuel parm (of_nat (length parm)) (of_nat (length pre)) = Some (list_all known_page ps)"
  using assms
proof (induction ps arbitrary: pre fuel)
  case (Cons p ps)
  obtain f where f: "fuel = Suc f" using Cons(6) by (cases fuel) auto
  have parm: "parm = pre @ p @ concat ps" and p: "mode_page p" using Cons(3,4) by simp_all
  note page = modesel_page [OF parm p Cons(5)]
  show ?case
  proof (cases "ps = []")
    case True
    then show ?thesis using page f by (simp add: Let_def known_page_def [of p] cong: if_cong del: of_nat_add)
  next
    case False
    then have "concat ps \<noteq> []" using Cons(3) by (cases ps) (auto simp: mode_page_def)
    moreover have "modesel_check f parm (of_nat (length parm)) (of_nat (length (pre @ p))) = Some (list_all known_page ps)"
      using Cons(1) [OF False, of "pre @ p" f] Cons(3,5,6) parm f by simp
    ultimately show ?thesis
      using page f by (simp add: Let_def known_page_def [of p] cong: if_cong del: of_nat_add length_append)
  qed
qed simp

lemma modesel_run_pages:
  assumes "ps \<noteq> []" "list_all mode_page ps" "parm = pre @ concat ps" "length parm \<le> 65535" "length ps \<le> fuel"
  shows "modesel_run fuel env parm (of_nat (length parm)) (of_nat (length pre)) s
    = run_pages env parm (length pre) ps s"
  using assms
proof (induction ps arbitrary: pre fuel s)
  case (Cons p ps)
  obtain f where f: "fuel = Suc f" using Cons(6) by (cases fuel) auto
  have parm: "parm = pre @ p @ concat ps" and p: "mode_page p" using Cons(3,4) by simp_all
  note page = modesel_page [OF parm p Cons(5)]
  have i: "unat (of_nat (length pre) :: u16) = length pre"
    using Cons(5) parm by (simp add: unat_of_nat take_bit_nat_eq_self)
  show ?case
  proof (cases "ps = []")
    case True
    then show ?thesis using page f i by (simp add: Let_def cong: if_cong del: of_nat_add length_append)
  next
    case False
    then have "concat ps \<noteq> []" using Cons(3) by (cases ps) (auto simp: mode_page_def)
    moreover have "modesel_run f env parm (of_nat (length parm)) (of_nat (length (pre @ p))) s1
        = run_pages env parm (length pre + length p) ps s1" for s1
      using Cons(1) [OF False, of "pre @ p" f s1] Cons(3,5,6) parm f by simp
    ultimately show ?thesis
      using page f i by (simp add: Let_def cong: if_cong del: of_nat_add length_append)
  qed
qed simp

text \<open>A parameter list of 65535 bytes with a page of 16 bytes at each index that is 8 modulo 16.\<close>

definition endless_list :: "u8 list" where
  "endless_list = map (\<lambda>i. if i mod 16 = 8 then 0x0a else if i mod 16 = 9 then 0x0e else 0) [0..<65535]"

lemma endless_step:
  assumes "unat (i :: u16) mod 16 = 8"
  shows "modesel_check (Suc fuel) endless_list 0xffff i = modesel_check fuel endless_list 0xffff (i + 16)
    \<and> unat (i + 16) mod 16 = 8"
proof -
  have i: "unat i < 65536" by (rule order_less_le_trans [OF unsigned_less]) simp
  have "unat i = 16 * (unat i div 16) + 8" using assms by presburger
  then have "unat i + 1 < 65535" using i by presburger
  then have "peek (unat i) endless_list = Some 0x0a" "peek (unat i + 1) endless_list = Some 0x0e"
    using assms by (simp_all add: peek_def endless_list_def mod_Suc)
  moreover have m: "unat (i + 16) mod 16 = 8"
    using assms by (simp add: unat_word_ariths mod_mod_cancel mod_add_right_eq)
  moreover have "i + 16 < 0xffff"
  proof -
    have "unat (i + 16) \<noteq> 65535" using m by auto
    moreover have "unat (i + 16) < 65536" by (rule order_less_le_trans [OF unsigned_less]) simp
    ultimately show ?thesis by (simp add: word_less_nat_alt)
  qed
  ultimately show ?thesis by (simp add: Let_def)
qed

text \<open>
  C31: the loops of MODE SELECT end on every well-formed parameter list: when the list behind the header and the
  block descriptors is a sequence of pages, the check accepts it exactly if all pages are
  known, and the second loop applies page after page until one fails, within the fuel of the model. Over a
  list of 65535 bytes the 16-bit index can wrap around: for one such list the loop goes on
  forever without leaving the list.
\<close>

theorem modesel_loops:
  assumes "ps \<noteq> []" "list_all mode_page ps" "parm = pre @ concat ps" "length parm \<le> 65535"
    "unat (i :: u16) mod 16 = 8"
  shows "modesel_check modesel_fuel parm (of_nat (length parm)) (of_nat (length pre)) = Some (list_all known_page ps)
    \<and> modesel_run modesel_fuel env parm (of_nat (length parm)) (of_nat (length pre)) s
        = run_pages env parm (length pre) ps s
    \<and> modesel_check (Suc fuel) endless_list 0xffff i = modesel_check fuel endless_list 0xffff (i + 16)
    \<and> unat (i + 16) mod 16 = 8"
proof -
  have "length ps \<le> length (concat ps)"
    using assms(2) by (induction ps) (auto simp: mode_page_def)
  then have "length ps \<le> modesel_fuel" using assms(3,4) by (simp add: modesel_fuel_def)
  then show ?thesis
    using modesel_check_pages [OF assms(1-4)] modesel_run_pages [OF assms(1-4)] endless_step [OF assms(5)] by blast
qed

theorem modesel_loops_witness:
  "modesel_check modesel_fuel [0, 0, 0, 0, 0x0a, 1, 0, 0x08, 2, 4, 0] 11 4 = Some True
    \<and> modesel_check (Suc 7) endless_list 0xffff 8 = modesel_check 7 endless_list 0xffff 24"
  using modesel_loops [of "[[0x0a, 1, 0], [0x08, 2, 4, 0]]" "[0, 0, 0, 0, 0x0a, 1, 0, 0x08, 2, 4, 0]"
      "[0, 0, 0, 0]" 8 sample_scsi_env sample_scsi 7]
  by (simp add: mode_page_def known_page_def)

end
