(* ===== verification/Spec2Isabelle.thy ===== *)
theory Spec2Isabelle
  imports Nvme_Block Nvme_Probe Chario_Transfer Libchario Scsi_Safety
begin

text \<open>
This development verifies the chario NVMe driver: a Linux NVMe driver with a direct path from a
  character device to the controller's queues (src/nvme-core.c), its translation of SCSI commands
  (src/nvme-scsi.c), the character device (src/chario.c) and its user-space library (src/libchario/libchario.c).

  \<^bold>\<open>The program and how its parts interact.\<close>
  A user task describes block ranges with libchario, which turns them into lseek, read and write
  on the character device. \<open>dev_read\<close> and \<open>dev_write\<close> cut a transfer into requests of at most 4 MiB
  (1024 blocks of 4096 bytes) and pass each to \<open>nvme_submit_io_chario\<close>. The driver pins the pages of
  the buffer, builds one PRP list for all of them, and sends one command per 32 blocks, each
  with a PRP2 that points into the middle of that list, into the submission queue of the current
  processor. The task sleeps; the interrupt handler walks the completion queue, finds the handler
  of each command by its tag, and \<open>chario_completion\<close> counts the blocks down and wakes the task at
  the last one. Beside this path the driver is a block driver (blk-mq requests, time-outs,
  aborts), creates, resets and removes queues and controllers with admin commands, and answers
  SCSI commands of the SG_IO ioctl by NVMe commands.

  \<^bold>\<open>Theories and the code they model.\<close>
  \<^item> \<open>Prelude\<close>: type names, collections and lemmas on lists, words and page arithmetic.
  \<^item> \<open>Nvme_Command\<close>: the wire formats of src/include/uapi/linux/nvme.h with their byte encoding.
  \<^item> \<open>Nvme_Prp\<close>, \<open>Prp_Correct\<close>, \<open>Prp_Setup\<close>: I/O descriptors and PRP lists (\<open>nvme_npages\<close>,
    \<open>__nvme_alloc_iod\<close>, \<open>nvme_setup_prps\<close>, \<open>nvme_setup_phys_prps\<close>, \<open>nvme_free_iod\<close>). The specification
    is the controller's reading of PRP1, PRP2 and the chained list pages; the locale
    \<open>prp_descriptor\<close> states what both list builders share, and \<open>prp_descriptor_32\<close> of
    \<open>Chario_Split\<close> extends it for commands of 32 blocks.
  \<^item> \<open>Nvme_State\<close>: struct nvme_queue, nvme_dev, nvme_ns and nvme_cmd_info as records; pointers are
    keys, effects on the kernel and the device are appended to a log.
  \<^item> \<open>Nvme_Ring\<close>: \<open>__nvme_submit_cmd\<close>, refined to a FIFO queue. \<open>Nvme_Complete\<close>: completion handlers,
    \<open>nvme_finish_cmd\<close>, \<open>nvme_process_cq\<close>, interrupt handlers.
  \<^item> \<open>Nvme_Block\<close>: \<open>nvme_queue_rq\<close> and the commands it writes. \<open>Nvme_Admin\<close>: synchronous and asynchronous
    commands, admin command builders, \<open>nvme_timeout\<close> and \<open>nvme_abort_req\<close>.
  \<^item> \<open>Nvme_Queues\<close>: allocation, creation, suspension and release of queues, and the invariant
    \<open>queue_wf\<close>. \<open>Nvme_Ctrl\<close>: the controller registers, \<open>nvme_wait_ready\<close> to \<open>nvme_configure_admin_queue\<close>.
  \<^item> \<open>Nvme_Device\<close>: the device record of the life cycle, namespaces and their disks, Identify data
    (\<open>nvme_revalidate_disk\<close>, \<open>nvme_alloc_ns\<close>, \<open>nvme_dev_add\<close>, \<open>nvme_free_dev\<close>). \<open>Nvme_Delq\<close>: the deletion of all
    queues by work items that count themselves down. \<open>Nvme_Start\<close>: \<open>nvme_dev_map\<close>, \<open>nvme_setup_io_queues\<close>,
    \<open>nvme_dev_start\<close>. \<open>Nvme_Lifecycle\<close>: the polling thread, freezing, shutdown, resume and reset.
    \<open>Nvme_Probe\<close>: pools, instance numbers, \<open>nvme_probe\<close>, \<open>nvme_remove\<close>, module entry and exit.
  \<^item> \<open>Nvme_Map\<close>: \<open>nvme_map_user_pages\<close> and its variants for kernel and physical memory.
  \<^item> \<open>Nvme_Submit\<close>: \<open>nvme_submit_io\<close>, the character-device paths, \<open>nvme_user_cmd\<close>, \<open>nvme_ioctl\<close>;
    \<open>Chario_Split\<close>: the splitting of one PRP list over many commands; \<open>Chario_Transfer\<close>: a transfer
    from the first command to the wake-up.
  \<^item> \<open>Chario\<close>: src/chario.c, whole. \<open>Libchario\<close>: the library.
  \<^item> \<open>Scsi_Base\<close>: struct sg_io_hdr, user memory, kernel buffers, status and sense data, and the locale
    \<open>scsi_command\<close>, the contract of a command. \<open>Scsi_Io\<close>: reads and writes. \<open>Scsi_Inquiry\<close>: INQUIRY and
    LOG SENSE. \<open>Scsi_Mode\<close>: MODE SENSE and MODE SELECT. \<open>Scsi_Translate\<close>: the other commands, the dispatch,
    \<open>nvme_sg_io\<close>, which the parameter \<open>sg_io\<close> of \<open>nvme_ioctl\<close> stands for, and the interpretation of
    \<open>scsi_command\<close>. \<open>Scsi_Safety\<close>: where replies and parameter lists stay inside their buffers.
  \<^item> This theory: the read system call from its arguments to what the controller does.

  \<^bold>\<open>What the theorems show.\<close> A page-aligned read of at most 4 MiB posts commands whose PRP entries name the
  pages of the buffer in order and the blocks of the file position in order, and returns once all
  of them completed (C1, from the lemmas on mapping, PRP lists, splitting and completion). The
  list builders never write outside their blocks, never outgrow the pointer array, and what they
  allocate is what the release functions free. The ring is a FIFO queue; completions are consumed
  once each and in order; the loop ends within one lap. Queues stay well-formed through every
  interleaving of submissions, interrupts and re-initialisations. The error exits of
  \<open>nvme_queue_rq\<close>, \<open>nvme_map_user_pages\<close>, \<open>dev_read\<close> and \<open>chario_init\<close> release what they took, where they
  do. The capacity and block size of a disk follow the Identify data; the doorbell registers of
  every queue lie inside the mapped BAR; a start that fails undoes what it did; the work items
  that delete queues release the caller exactly when the last one is done; a probe that fails, and
  a probe followed by a remove, leave nothing allocated. A SCSI read or write is split
  into commands that cover its blocks exactly, the status of NVMe commands reaches the user as sense data,
  the SG_IO ioctl returns the header it left, and no SCSI command leaks a buffer.
  Theorems of the last group state where the code departs from its intention: unaligned
  physical addresses, low tags of block requests, lengths that are not whole blocks, offsets
  beyond 32 bits, and in the SCSI translation LBAs from 2^31 on, two INQUIRY pages, more than 31
  LUNs, refused parameter lists of FORMAT UNIT and parameter lists of MODE SELECT that wrap around.

  \<^bold>\<open>Conventions.\<close> Machine integers are words of their C width, or int with the wrap-around written out
  where the code converts. Results None stand for an undefined access (a store outside an array,
  a NULL call); negative numbers are error codes as in the code. What the kernel answers
  (allocations, user copies, mapped addresses, the clock, the state after a sleep) is an argument: a record
  of answers per path. Locks are left out: a critical section is one step, and interleavings are
  sequences of such steps. Printing is left out.

  \<^bold>\<open>Bounds and fuel.\<close> The endless loop of \<open>nvme_process_cq\<close> has fuel one more than the queue depth; a theorem
  shows that it always ends within it. The polling loops of the controller have the fuel
  \<open>poll_fuel\<close>, more than the largest time-out of the CAP register, (255 + 1) * 0.5 s = 12800 ticks at HZ = 100, divided
  by the 10 ticks of the 100 ms sleep (1280 rounds), and a theorem shows that the loop ends by then when the clock
  advances. The loop that creates I/O queues has one unit of fuel more than the queue array has
  entries; the loops of MODE SELECT have the fuel \<open>modesel_fuel\<close>, one more than there are values of
  their 16-bit index; loops that sleep and try again run over the list of the answers they get. A character-device transfer has at most 1024 blocks, so at most 32 commands and tags.

  \<^bold>\<open>Not modelled.\<close> Protection information (\<open>nvme_dif_remap\<close>
  and its callbacks) walks the integrity payload of bios, block-layer code that is not part of the
  repository, and the configuration of the repository leaves CONFIG_BLK_DEV_INTEGRITY unset,
  where these functions are empty. The headers of src/include and src/arch are a copy of the
  Linux headers; only the NVMe ones belong to the driver. The test programs are system calls
  and printing.
\<close>

section \<open>Properties across components\<close>

lemma chario_uio_simps [simp]:
  "uio_opcode (chario_uio ns a l off c) = c" "uio_addr (chario_uio ns a l off c) = a"
  "uio_slba (chario_uio ns a l off c) = signed_drop_bit (nat (ns_lba_shift ns)) off"
  by (simp_all add: chario_uio_def)

lemma dev_read_one_piece:
  assumes "0 < count" "count \<le> MAX_BYTES"
  shows "dev_read submit ns buf count f_pos st
    = chunk_finish count f_pos (map_option (\<lambda>(r, s). (if r = 0 then 0 else chario_error r, s))
        (submit (chario_uio ns (ucast buf) count f_pos nvme_cmd_read) st))"
  using assms unfolding dev_read_def
  by (subst chunk_loop.simps) (auto simp: submit_user_io_def split: option.splits)



text \<open>
  C39: a transfer whose length is not a multiple of the block size overruns the caller's buffer: the
  request for it covers whole blocks, so the driver maps, and a read overwrites, more bytes
  than were asked for.
\<close>

theorem user_io_overruns_buffer:
  assumes "ns_lba_shift ns = 12" "ns_ms ns = 0" "0 < len" "len \<le> MAX_BYTES" "unat len mod 4096 \<noteq> 0"
  shows "\<exists>n. uio_lengths ns (chario_uio ns a len off c) = Inr (n, 0) \<and> len < n"
proof -
  note n = piece_block_count(1) [OF assms(3,4,1), of a off c] piece_block_count(2) [OF assms(3,4,1)]
  have le: "uio_nblocks (chario_uio ns a len off c) \<le> 1023" using n by (simp add: word_le_nat_alt)
  define m where "m = (unat len - 1) div 4096 + 1"
  have "unat len \<noteq> 4096 * m" using assms(5) by auto
  moreover have "unat len \<le> 4096 * m" unfolding m_def
    using mult_div_mod_eq [of 4096 "unat len - 1"] mod_less_divisor [of 4096 "unat len - 1"] by simp
  moreover have "4096 * m < 2 ^ 32" using n(2) by (simp add: m_def)
  then have "unat (of_nat (4096 * m) :: u32) = 4096 * m" by (simp only: unat_of_nat) simp
  ultimately have "len < of_nat (4096 * m)" by (simp only: word_less_nat_alt)
  then have "len < of_nat (4096 * (unat (uio_nblocks (chario_uio ns a len off c)) + 1))" by (simp only: n(1) m_def)
  with uio_lengths_4k(1) [OF assms(1,2) le] show ?thesis by blast
qed

theorem user_io_overruns_buffer_witness:
  "\<exists>n. uio_lengths chario_ns (chario_uio chario_ns 0x1000 100 0 nvme_cmd_read) = Inr (n, 0) \<and> 100 < n"
  by (rule user_io_overruns_buffer) (simp_all add: chario_ns_def)

end
